(* ===== verification/Prelude.thy ===== *)
theory Prelude
  imports Main "HOL-Library.Word" "HOL-Library.Multiset"
begin

text \<open>
  Shared vocabulary of the development: the machine integer types of the sources, the outcome
  of running a C function (returned, still waiting, undefined behaviour), references to a
  member of a larger state, the interference of other tasks at a \<^verbatim>\<open>switch_task\<close> call, and the
  generic lemmas on them that the component theories use.
\<close>

unbundle bit_operations_syntax

section \<open>Machine integers\<close>

text \<open>
  The fixed-width types of \<^verbatim>\<open><stdint.h>\<close>. A C \<^verbatim>\<open>int\<close> that the code keeps in a small range
  (an identifier, a return code) is an \<^typ>\<open>int\<close>; an \<^verbatim>\<open>int\<close> used only as an array index or an
  element count is a \<^typ>\<open>nat\<close>.
\<close>

type_synonym u8 = "8 word"
type_synonym u16 = "16 word"
type_synonym u32 = "32 word"
type_synonym u64 = "64 word"

text \<open>A signed 32-bit value: two's complement wrap-around of the exact result.\<close>

definition i32 :: "int \<Rightarrow> int" where
  "i32 x = signed_take_bit 31 x"

definition INT_MAX :: int where "INT_MAX = 2147483647"

lemma i32_id: "-(2 ^ 31) \<le> x \<Longrightarrow> x < 2 ^ 31 \<Longrightarrow> i32 x = x"
  unfolding i32_def by (rule signed_take_bit_int_eq_self) simp_all

lemma unat_plus: "unat x + unat y < 2 ^ 32 \<Longrightarrow> unat (x + y :: u32) = unat x + unat y"
  using unat_add_lem [of x y] by simp

named_theorems run_simps \<open>evaluation of calls that may wait or fault\<close>
named_theorems inv_intros \<open>preservation of component invariants\<close>

section \<open>Outcome of a call\<close>

text \<open>
  \<open>Done v\<close>: the call returned \<open>v\<close>. \<open>Blocked\<close>: the call is still inside a waiting loop when
  the given interference is used up. \<open>Fault\<close>: the call performed an access that C leaves
  undefined (an array index out of range, a null pointer dereference).
\<close>

datatype 'a run = Done 'a | Blocked | Fault

fun rbind :: "'a run \<Rightarrow> ('a \<Rightarrow> 'b run) \<Rightarrow> 'b run" where
  "rbind (Done x) f = f x"
| "rbind Blocked f = Blocked"
| "rbind Fault f = Fault"

fun rmap :: "('a \<Rightarrow> 'b) \<Rightarrow> 'a run \<Rightarrow> 'b run" where
  "rmap f (Done x) = Done (f x)"
| "rmap f Blocked = Blocked"
| "rmap f Fault = Fault"

lemma rbind_assoc: "rbind (rbind m f) g = rbind m (\<lambda>x. rbind (f x) g)"
  by (cases m) auto

lemma rbind_Done_iff [simp]: "rbind m f = Done y \<longleftrightarrow> (\<exists>x. m = Done x \<and> f x = Done y)"
  by (cases m) auto

lemma rbind_cong [fundef_cong]:
  "m = m' \<Longrightarrow> (\<And>x. m' = Done x \<Longrightarrow> f x = f' x) \<Longrightarrow> rbind m f = rbind m' f'"
  by (cases m') auto

text \<open>Total correctness: the call returns, and its result satisfies \<open>P\<close>.\<close>

definition returns :: "'a run \<Rightarrow> ('a \<Rightarrow> bool) \<Rightarrow> bool" where
  "returns m P \<longleftrightarrow> (\<exists>x. m = Done x \<and> P x)"

lemma returns_Done [simp]: "returns (Done x) P = P x"
  by (simp add: returns_def)

lemma returns_not [simp]: "\<not> returns Blocked P" "\<not> returns Fault P"
  by (simp_all add: returns_def)

lemma returns_rbind [simp]: "returns (rbind m f) P = returns m (\<lambda>x. returns (f x) P)"
  by (cases m) simp_all

lemma returns_rmap [simp]: "returns (rmap f m) P = returns m (\<lambda>x. P (f x))"
  by (cases m) simp_all

lemma returns_mono: "returns m P \<Longrightarrow> (\<And>x. P x \<Longrightarrow> Q x) \<Longrightarrow> returns m Q"
  by (auto simp: returns_def)

lemma returnsD: "returns m P \<Longrightarrow> m = Done x \<Longrightarrow> P x"
  by (simp add: returns_def)

section \<open>References and interference\<close>

text \<open>
  A C pointer to a member of a larger object is a pair of a reader and a writer of that
  member. The null pointer is \<open>None\<close> of the option type around it.
\<close>

record ('s, 'a) lref =
  lget :: "'s \<Rightarrow> 'a"
  lput :: "'a \<Rightarrow> 's \<Rightarrow> 's"

text \<open>The laws of a reference that really denotes a memory cell.\<close>

locale memory_cell =
  fixes r :: "('s, 'a) lref"
  assumes get_put: "lget r (lput r v s) = v"
    and put_get: "lput r (lget r s) s = s"
    and put_put: "lput r v (lput r w s) = lput r v s"
begin

lemma put_same: "lget r s = v \<Longrightarrow> lput r v s = s"
  using put_get by metis

lemma put_restore: "lget r s = v \<Longrightarrow> lput r v (lput r w s) = s"
  by (simp add: put_put put_same)

end

text \<open>
  What the other tasks do to the shared memory while this task has yielded: the memory now,
  and one transformation for each of the coming \<^verbatim>\<open>switch_task\<close> calls, in order. When the list
  is used up the task is still waiting.
\<close>

type_synonym 's world = "'s \<times> ('s \<Rightarrow> 's) list"

fun switch_task :: "'s world \<Rightarrow> 's world run" where
  "switch_task (s, []) = Blocked"
| "switch_task (s, y # ys) = Done (y s, ys)"

lemma switch_task_Done_iff [simp]:
  "switch_task (s, ys) = Done (s', ys') \<longleftrightarrow> (\<exists>y. ys = y # ys' \<and> s' = y s)"
  by (cases ys) auto

section \<open>Copying memory\<close>

text \<open>
  \<^verbatim>\<open>memcpy(dst, src, n)\<close> on byte arrays, the new contents of \<open>dst\<close>; reading or writing past the
  end of an array is undefined.
\<close>

definition memcpy :: "'a list \<Rightarrow> 'a list \<Rightarrow> nat \<Rightarrow> 'a list run" where
  "memcpy dst src n =
     (if n \<le> length src \<and> n \<le> length dst then Done (take n src @ drop n dst) else Fault)"

lemma memcpy_Done_iff:
  "memcpy dst src n = Done out \<longleftrightarrow> n \<le> length src \<and> n \<le> length dst \<and> out = take n src @ drop n dst"
  by (auto simp: memcpy_def)

section \<open>Lists\<close>

lemma list_all_update:
  "list_all P xs \<Longrightarrow> P x \<Longrightarrow> list_all P (xs[i := x])"
  by (auto simp: list_all_iff dest: set_update_subset_insert [THEN subsetD])

lemma list_all_nth: "list_all P xs \<Longrightarrow> i < length xs \<Longrightarrow> P (xs ! i)"
  by (simp add: list_all_length)

lemma map_update_same: "f x = f (xs ! i) \<Longrightarrow> map f (xs[i := x]) = map f xs"
  by (cases "i < length xs") (auto simp: map_update list_update_same_conv list_update_beyond)

text \<open>A window of a list after overwriting a part of the window.\<close>

lemma overwrite_window:
  assumes "i + length xs \<le> l" "k + l \<le> length ys"
  shows "take l (drop k (take (k + i) ys @ xs @ drop (k + i + length xs) ys)) =
    take i (take l (drop k ys)) @ xs @ drop (i + length xs) (take l (drop k ys))"
proof -
  have "drop k (take (k + i) ys @ xs @ drop (k + i + length xs) ys) =
      take i (drop k ys) @ xs @ drop (i + length xs) (drop k ys)"
    using assms by (simp add: drop_take min_def ac_simps)
  moreover have "length (take i (drop k ys)) = i"
    using assms by simp
  then have "take l (take i (drop k ys) @ xs @ drop (i + length xs) (drop k ys)) =
      take i (drop k ys) @ xs @ take (l - i - length xs) (drop (i + length xs) (drop k ys))"
    using assms(1) take_all [of "take i (drop k ys)" l] by (simp del: take_all_iff)
  ultimately show ?thesis
    using assms by (simp add: drop_take min_def)
qed

end
