(* ===== verification/Ring_Buffer.thy ===== *)
theory Ring_Buffer
  imports Prelude
begin

text \<open>
  The circular arrays of the sources. Three components keep a queue as an array with a head,
  a tail and a count (the message queues of \<^verbatim>\<open>kernel/ipc.c\<close>, the task queues of
  \<^verbatim>\<open>kernel/scheduler.c\<close> and the receive buffers of \<^verbatim>\<open>network/src/tcp.c\<close>). This theory has the
  list that such an array stands for, the effect of the array updates on that list, and the
  contract of a bounded first-in first-out queue as a locale, with what a client may conclude
  from it.
\<close>

section \<open>The list a circular array stands for\<close>

definition ring_list :: "'a list \<Rightarrow> nat \<Rightarrow> nat \<Rightarrow> 'a list" where
  "ring_list slots h n = map (\<lambda>i. slots ! ((h + i) mod length slots)) [0..<n]"

definition ring_ok :: "'a list \<Rightarrow> nat \<Rightarrow> nat \<Rightarrow> nat \<Rightarrow> nat \<Rightarrow> bool" where
  "ring_ok slots cap h t n \<longleftrightarrow>
     0 < cap \<and> length slots = cap \<and> h < cap \<and> n \<le> cap \<and> t = (h + n) mod cap"

lemma length_ring_list [simp]: "length (ring_list slots h n) = n"
  by (simp add: ring_list_def)

lemma ring_list_0 [simp]: "ring_list slots h 0 = []"
  by (simp add: ring_list_def)

lemma nth_ring_list: "i < n \<Longrightarrow> ring_list slots h n ! i = slots ! ((h + i) mod length slots)"
  by (simp add: ring_list_def)

lemma ring_okD:
  assumes "ring_ok slots cap h t n"
  shows "0 < cap" "length slots = cap" "h < cap" "n \<le> cap" "t = (h + n) mod cap" "t < cap"
  using assms by (auto simp: ring_ok_def)

lemma mod_offset_neq:
  assumes "i < j" "j < i + N"
  shows "(h + i) mod N \<noteq> (h + j) mod (N::nat)"
proof
  assume eq: "(h + i) mod N = (h + j) mod N"
  have "h + j = h + i + (j - i)"
    using assms(1) by simp
  with eq have "N dvd (h + j) - (h + i)"
    using assms(1) by (metis mod_eq_dvd_iff_nat nat_add_left_cancel_le order_less_imp_le)
  then have "N dvd j - i"
    by simp
  moreover have "0 < j - i" "j - i < N"
    using assms by auto
  ultimately show False
    using dvd_imp_le by fastforce
qed

text \<open>Writing at the tail appends.\<close>

lemma ring_list_snoc:
  assumes "ring_ok slots cap h t n" "n < cap"
  shows "ring_list (slots[t := x]) h (Suc n) = ring_list slots h n @ [x]"
proof (rule nth_equalityI)
  show "length (ring_list (slots[t := x]) h (Suc n)) = length (ring_list slots h n @ [x])"
    by simp
next
  fix i
  assume "i < length (ring_list (slots[t := x]) h (Suc n))"
  then have i: "i \<le> n"
    by simp
  note ok = ring_okD [OF assms(1)]
  show "ring_list (slots[t := x]) h (Suc n) ! i = (ring_list slots h n @ [x]) ! i"
  proof (cases "i = n")
    case True
    with ok show ?thesis
      by (simp add: nth_ring_list nth_append)
  next
    case False
    with i have "i < n"
      by simp
    moreover have "(h + i) mod cap \<noteq> t"
      using mod_offset_neq [of i n cap h] \<open>i < n\<close> assms(2) ok by simp
    ultimately show ?thesis
      using ok by (simp add: nth_ring_list nth_append)
  qed
qed

lemma ring_ok_snoc:
  assumes "ring_ok slots cap h t n" "n < cap"
  shows "ring_ok (slots[t := x]) cap h ((t + 1) mod cap) (Suc n)"
  using assms by (auto simp: ring_ok_def mod_Suc_eq)

text \<open>Advancing the head drops the first element, whatever is then stored in its slot.\<close>

lemma ring_list_hd:
  assumes "ring_ok slots cap h t n" "0 < n"
  shows "slots ! h = hd (ring_list slots h n)"
proof -
  note ok = ring_okD [OF assms(1)]
  have "ring_list slots h n ! 0 = slots ! h"
    using assms(2) ok by (simp add: nth_ring_list)
  moreover have "ring_list slots h n \<noteq> []"
    using assms(2) by (metis length_ring_list list.size(3) less_irrefl)
  ultimately show ?thesis
    by (simp add: hd_conv_nth)
qed

lemma ring_list_tl:
  assumes "ring_ok slots cap h t n" "0 < n"
  shows "ring_list slots ((h + 1) mod cap) (n - 1) = tl (ring_list slots h n)"
  using assms ring_okD [OF assms(1)]
  by (auto intro!: nth_equalityI simp: nth_ring_list nth_tl mod_add_left_eq)

lemma ring_list_tl_update:
  assumes "ring_ok slots cap h t n" "0 < n"
  shows "ring_list (slots[h := y]) ((h + 1) mod cap) (n - 1) = tl (ring_list slots h n)"
proof (rule nth_equalityI)
  show "length (ring_list (slots[h := y]) ((h + 1) mod cap) (n - 1)) = length (tl (ring_list slots h n))"
    by simp
next
  fix i
  assume "i < length (ring_list (slots[h := y]) ((h + 1) mod cap) (n - 1))"
  then have i: "i < n - 1"
    by simp
  note ok = ring_okD [OF assms(1)]
  have "(h + Suc i) mod cap \<noteq> h"
    using mod_offset_neq [of 0 "Suc i" cap h] i ok by (cases n) auto
  then show "ring_list (slots[h := y]) ((h + 1) mod cap) (n - 1) ! i = tl (ring_list slots h n) ! i"
    using i ok by (simp add: nth_ring_list nth_tl mod_add_left_eq)
qed

lemma ring_ok_tl:
  assumes "ring_ok slots cap h t n" "0 < n"
  shows "ring_ok (slots[h := y]) cap ((h + 1) mod cap) t (n - 1)"
    and "ring_ok slots cap ((h + 1) mod cap) t (n - 1)"
proof -
  obtain m where "n = Suc m"
    using assms(2) by (cases n) auto
  with assms(1) show "ring_ok (slots[h := y]) cap ((h + 1) mod cap) t (n - 1)"
    and "ring_ok slots cap ((h + 1) mod cap) t (n - 1)"
    by (auto simp: ring_ok_def mod_add_left_eq)
qed

lemma ring_ok_empty:
  "0 < cap \<Longrightarrow> length slots = cap \<Longrightarrow> ring_ok slots cap 0 0 0"
  by (simp add: ring_ok_def)

section \<open>The contract of a bounded first-in first-out queue\<close>

locale bounded_fifo =
  fixes invar :: "'q \<Rightarrow> bool"
    and contents :: "'q \<Rightarrow> 'a list"
    and cap :: "'q \<Rightarrow> nat"
    and enq :: "'a \<Rightarrow> 'q \<Rightarrow> 'q"
    and front :: "'q \<Rightarrow> 'a"
    and deq :: "'q \<Rightarrow> 'q"
  assumes len_cap: "invar q \<Longrightarrow> length (contents q) \<le> cap q"
    and invar_enq: "invar q \<Longrightarrow> length (contents q) < cap q \<Longrightarrow> invar (enq x q)"
    and contents_enq: "invar q \<Longrightarrow> length (contents q) < cap q \<Longrightarrow> contents (enq x q) = contents q @ [x]"
    and cap_enq: "invar q \<Longrightarrow> length (contents q) < cap q \<Longrightarrow> cap (enq x q) = cap q"
    and invar_deq: "invar q \<Longrightarrow> contents q \<noteq> [] \<Longrightarrow> invar (deq q)"
    and contents_deq: "invar q \<Longrightarrow> contents q \<noteq> [] \<Longrightarrow> contents (deq q) = tl (contents q)"
    and cap_deq: "invar q \<Longrightarrow> contents q \<noteq> [] \<Longrightarrow> cap (deq q) = cap q"
    and front_hd: "invar q \<Longrightarrow> contents q \<noteq> [] \<Longrightarrow> front q = hd (contents q)"
begin

text \<open>Storing a whole list, one element after the other.\<close>

lemma enq_many:
  "invar q \<Longrightarrow> length (contents q) + length xs \<le> cap q \<Longrightarrow>
     invar (fold enq xs q) \<and> contents (fold enq xs q) = contents q @ xs \<and> cap (fold enq xs q) = cap q"
proof (induction xs arbitrary: q)
  case Nil
  then show ?case by simp
next
  case (Cons x xs)
  from Cons.prems have "length (contents q) < cap q"
    by simp
  with Cons.prems Cons.IH [of "enq x q"] show ?case
    by (simp add: invar_enq contents_enq cap_enq)
qed

text \<open>Taking out \<open>n\<close> elements, oldest first.\<close>

fun take_out :: "nat \<Rightarrow> 'q \<Rightarrow> 'a list \<times> 'q" where
  "take_out 0 q = ([], q)"
| "take_out (Suc n) q = (let (xs, q') = take_out n (deq q) in (front q # xs, q'))"

lemma take_out_spec:
  "invar q \<Longrightarrow> n \<le> length (contents q) \<Longrightarrow>
     fst (take_out n q) = take n (contents q) \<and>
     invar (snd (take_out n q)) \<and> contents (snd (take_out n q)) = drop n (contents q) \<and>
     cap (snd (take_out n q)) = cap q"
proof (induction n arbitrary: q)
  case 0
  then show ?case by simp
next
  case (Suc n)
  then have ne: "contents q \<noteq> []"
    by auto
  then obtain y ys where c: "contents q = y # ys"
    by (cases "contents q") auto
  have *: "invar (deq q)" "contents (deq q) = ys" "cap (deq q) = cap q" "front q = y"
    using Suc.prems(1) ne c by (simp_all add: invar_deq contents_deq cap_deq front_hd)
  with Suc.IH [of "deq q"] Suc.prems(2) c show ?case
    by (simp add: split_beta)
qed

lemma enq_then_take_out:
  assumes "invar q" "length (contents q) + length xs \<le> cap q"
  shows "fst (take_out (length (contents q) + length xs) (fold enq xs q)) = contents q @ xs"
  using take_out_spec [of "fold enq xs q" "length (contents q) + length xs"] enq_many [OF assms]
  by simp

lemma front_enq:
  assumes "invar q" "length (contents q) < cap q"
  shows "front (enq x q) = (if contents q = [] then x else front q)"
  using assms by (simp add: front_hd invar_enq contents_enq hd_append)

end

end
