(* ===== verification/Sync.thy ===== *)
theory Sync
  imports Prelude
begin

text \<open>
  The synchronisation primitives of \<^verbatim>\<open>kernel/sync.c\<close>: spinlocks, re-entrant mutexes, counting
  semaphores and condition variables.

  Every operation is a function on a shared memory \<open>'s\<close> and a reference to the object in it
  (\<open>None\<close> is the null pointer of the C argument). An operation with a waiting loop also takes
  the interference of the other tasks at its \<^verbatim>\<open>switch_task\<close> calls (\<^typ>\<open>'s world\<close>). The second half
  of the theory has the mutex operations again as a machine that is interrupted between any two
  accesses to the mutex, for the claims about arbitrary interleavings.
\<close>

section \<open>Spinlocks\<close>

record spinlock =
  sl_lock :: u32

lemma spinlock_update [simp]: "(l::spinlock)\<lparr>sl_lock := v\<rparr> = \<lparr>sl_lock = v\<rparr>"
  by (cases l) simp

lemma spinlock_free_iff: "sl_lock l = 0 \<longleftrightarrow> l = \<lparr>sl_lock = 0\<rparr>"
  by (cases l) simp

definition spinlock_init :: "('s, spinlock) lref option \<Rightarrow> 's \<Rightarrow> 's" where
  "spinlock_init lk s = (case lk of None \<Rightarrow> s | Some r \<Rightarrow> lput r ((lget r s)\<lparr>sl_lock := 0\<rparr>) s)"

text \<open>The atomic \<^verbatim>\<open>__sync_lock_test_and_set(&lock->lock, 1)\<close>: the old value, and 1 stored.\<close>

definition test_and_set :: "('s, spinlock) lref \<Rightarrow> 's \<Rightarrow> u32 \<times> 's" where
  "test_and_set r s = (sl_lock (lget r s), lput r ((lget r s)\<lparr>sl_lock := 1\<rparr>) s)"

fun spin :: "('s, spinlock) lref \<Rightarrow> 's \<Rightarrow> ('s \<Rightarrow> 's) list \<Rightarrow> 's world run" where
  "spin r s [] =
     (let (old, s') = test_and_set r s in if old \<noteq> 0 then Blocked else Done (s', []))"
| "spin r s (y # ys) =
     (let (old, s') = test_and_set r s in if old \<noteq> 0 then spin r (y s') ys else Done (s', y # ys))"

fun spinlock_acquire :: "('s, spinlock) lref option \<Rightarrow> 's world \<Rightarrow> 's world run" where
  "spinlock_acquire None w = Done w"
| "spinlock_acquire (Some r) (s, ys) = spin r s ys"

fun spinlock_try_acquire :: "('s, spinlock) lref option \<Rightarrow> 's \<Rightarrow> int \<times> 's" where
  "spinlock_try_acquire None s = (0, s)"
| "spinlock_try_acquire (Some r) s =
     (let (old, s') = test_and_set r s in (if old = 0 then 1 else 0, s'))"

fun spinlock_release :: "('s, spinlock) lref option \<Rightarrow> 's \<Rightarrow> 's" where
  "spinlock_release None s = s"
| "spinlock_release (Some r) s = lput r ((lget r s)\<lparr>sl_lock := 0\<rparr>) s"

fun spinlock_is_held :: "('s, spinlock) lref option \<Rightarrow> 's \<Rightarrow> bool" where
  "spinlock_is_held None s = False"
| "spinlock_is_held (Some r) s = (sl_lock (lget r s) = 1)"

lemma spin_length: "spin r s ys = Done (s', ys') \<Longrightarrow> length ys' \<le> length ys"
  by (induction ys arbitrary: s)
    (fastforce simp: Let_def test_and_set_def split: if_splits)+

lemma spinlock_acquire_length:
  "spinlock_acquire lk (s, ys) = Done (s', ys') \<Longrightarrow> length ys' \<le> length ys"
  by (cases lk) (auto dest: spin_length)

lemma spin_free [run_simps]:
  "sl_lock (lget r s) = 0 \<Longrightarrow> spin r s ys = Done (lput r \<lparr>sl_lock = 1\<rparr> s, ys)"
  by (cases ys) (auto simp: test_and_set_def)

text \<open>
  A lock that is one cell of the memory: what a client of the lock may assume. A free lock is
  taken at once, and releasing it restores the memory the client had, but for its own changes.
\<close>

locale spinlock_cell = memory_cell r
  for r :: "('s, spinlock) lref"
begin

lemma acquire_free:
  "sl_lock (lget r s) = 0 \<Longrightarrow>
     spinlock_acquire (Some r) (s, ys) = Done (lput r \<lparr>sl_lock = 1\<rparr> s, ys)"
  by (simp add: spin_free)

lemma acquire_release:
  assumes "sl_lock (lget r s) = 0"
  shows "rbind (spinlock_acquire (Some r) (s, ys)) (\<lambda>(s', ys'). Done (spinlock_release (Some r) s', ys'))
       = Done (s, ys)"
proof -
  have "lget r s = \<lparr>sl_lock = 0\<rparr>"
    using assms by simp
  then show ?thesis
    using acquire_free [OF assms] by (simp add: get_put put_restore)
qed

lemma try_acquire_fails: "sl_lock (lget r s) = 1 \<Longrightarrow> spinlock_try_acquire (Some r) s = (0, s)"
  by (simp add: test_and_set_def put_same)

lemma released_is_free: "\<not> spinlock_is_held (Some r) (spinlock_release (Some r) s)"
  by (simp add: get_put)

lemma blocked_forever:
  "sl_lock (lget r s) \<noteq> 0 \<Longrightarrow> list_all (\<lambda>y. \<forall>u. sl_lock (lget r u) \<noteq> 0 \<longrightarrow> sl_lock (lget r (y u)) \<noteq> 0) ys \<Longrightarrow>
     spinlock_acquire (Some r) (s, ys) = Blocked"
proof (induction ys arbitrary: s)
  case Nil
  then show ?case by (simp add: test_and_set_def)
next
  case (Cons y ys)
  have "sl_lock (lget r (y (lput r \<lparr>sl_lock = 1\<rparr> s))) \<noteq> 0"
    using Cons.prems(2) by (simp add: get_put)
  with Cons.IH Cons.prems show ?case
    by (simp add: test_and_set_def)
qed

end

section \<open>Mutexes\<close>

record mutex =
  mx_spinlock :: spinlock
  mx_owner_task :: int
  mx_lock_count :: int

definition mx_spinlock_ref :: "('s, mutex) lref \<Rightarrow> ('s, spinlock) lref" where
  "mx_spinlock_ref m =
     \<lparr>lget = \<lambda>s. mx_spinlock (lget m s),
      lput = \<lambda>v s. lput m ((lget m s)\<lparr>mx_spinlock := v\<rparr>) s\<rparr>"

definition mutex_init :: "('s, mutex) lref option \<Rightarrow> 's \<Rightarrow> 's" where
  "mutex_init mtx s =
     (case mtx of
        None \<Rightarrow> s
      | Some m \<Rightarrow>
          (let s = spinlock_init (Some (mx_spinlock_ref m)) s
           in lput m ((lget m s)\<lparr>mx_owner_task := -1, mx_lock_count := 0\<rparr>) s))"

text \<open>The loop of \<^verbatim>\<open>mutex_lock\<close>: while somebody owns the mutex, release, yield, acquire.\<close>

function mutex_wait :: "('s, mutex) lref \<Rightarrow> 's world \<Rightarrow> 's world run" where
  "mutex_wait m (s, ys) =
     (if mx_owner_task (lget m s) \<noteq> -1
      then rbind (switch_task (spinlock_release (Some (mx_spinlock_ref m)) s, ys)) (\<lambda>w1.
           rbind (spinlock_acquire (Some (mx_spinlock_ref m)) w1) (\<lambda>w2.
           mutex_wait m w2))
      else Done (s, ys))"
  by pat_completeness auto
termination
  by (relation "measure (\<lambda>(m, s, ys). length ys)")
    (auto dest!: spin_length)

definition mutex_lock :: "('s, mutex) lref option \<Rightarrow> int \<Rightarrow> 's world \<Rightarrow> 's world run" where
  "mutex_lock mtx current_task_id w =
     (case mtx of
        None \<Rightarrow> Done w
      | Some m \<Rightarrow>
          (let (s, ys) = w in
           if mx_owner_task (lget m s) = current_task_id
           then Done (lput m ((lget m s)\<lparr>mx_lock_count := mx_lock_count (lget m s) + 1\<rparr>) s, ys)
           else rbind (spinlock_acquire (Some (mx_spinlock_ref m)) w) (\<lambda>w1.
                rbind (mutex_wait m w1) (\<lambda>(s, ys).
                  let s = lput m ((lget m s)\<lparr>mx_owner_task := current_task_id, mx_lock_count := 1\<rparr>) s
                  in Done (spinlock_release (Some (mx_spinlock_ref m)) s, ys)))))"

definition mutex_try_lock :: "('s, mutex) lref option \<Rightarrow> int \<Rightarrow> 's \<Rightarrow> int \<times> 's" where
  "mutex_try_lock mtx current_task_id s =
     (case mtx of
        None \<Rightarrow> (0, s)
      | Some m \<Rightarrow>
          if mx_owner_task (lget m s) = current_task_id
          then (1, lput m ((lget m s)\<lparr>mx_lock_count := mx_lock_count (lget m s) + 1\<rparr>) s)
          else (let (got, s) = spinlock_try_acquire (Some (mx_spinlock_ref m)) s in
            if got = 0 then (0, s)
            else (let (result, s) =
                    (if mx_owner_task (lget m s) = -1
                     then (1, lput m ((lget m s)\<lparr>mx_owner_task := current_task_id, mx_lock_count := 1\<rparr>) s)
                     else (0, s))
                  in (result, spinlock_release (Some (mx_spinlock_ref m)) s))))"

definition mutex_unlock :: "('s, mutex) lref option \<Rightarrow> int \<Rightarrow> 's world \<Rightarrow> 's world run" where
  "mutex_unlock mtx current_task_id w =
     (case mtx of
        None \<Rightarrow> Done w
      | Some m \<Rightarrow>
          (let (s, ys) = w in
           if mx_owner_task (lget m s) \<noteq> current_task_id then Done (s, ys)
           else rbind (spinlock_acquire (Some (mx_spinlock_ref m)) w) (\<lambda>(s, ys).
                  let s = lput m ((lget m s)\<lparr>mx_lock_count := mx_lock_count (lget m s) - 1\<rparr>) s;
                      s = (if mx_lock_count (lget m s) = 0
                           then lput m ((lget m s)\<lparr>mx_owner_task := -1\<rparr>) s else s)
                  in Done (spinlock_release (Some (mx_spinlock_ref m)) s, ys))))"

section \<open>Semaphores\<close>

record semaphore =
  sem_spinlock :: spinlock
  sem_count :: int
  sem_max_count :: int

definition sem_spinlock_ref :: "('s, semaphore) lref \<Rightarrow> ('s, spinlock) lref" where
  "sem_spinlock_ref p =
     \<lparr>lget = \<lambda>s. sem_spinlock (lget p s),
      lput = \<lambda>v s. lput p ((lget p s)\<lparr>sem_spinlock := v\<rparr>) s\<rparr>"


function semaphore_wait_loop :: "('s, semaphore) lref \<Rightarrow> 's world \<Rightarrow> 's world run" where
  "semaphore_wait_loop p (s, ys) =
     rbind (spinlock_acquire (Some (sem_spinlock_ref p)) (s, ys)) (\<lambda>(s, ys).
       if sem_count (lget p s) > 0
       then (let s = lput p ((lget p s)\<lparr>sem_count := sem_count (lget p s) - 1\<rparr>) s
             in Done (spinlock_release (Some (sem_spinlock_ref p)) s, ys))
       else rbind (switch_task (spinlock_release (Some (sem_spinlock_ref p)) s, ys))
              (semaphore_wait_loop p))"
  by pat_completeness auto
termination
  by (relation "measure (\<lambda>(p, s, ys). length ys)")
    (auto dest!: spin_length)




section \<open>Condition variables\<close>

record condition =
  cv_spinlock :: spinlock
  cv_waiters_count :: int

definition cv_spinlock_ref :: "('s, condition) lref \<Rightarrow> ('s, spinlock) lref" where
  "cv_spinlock_ref c =
     \<lparr>lget = \<lambda>s. cv_spinlock (lget c s),
      lput = \<lambda>v s. lput c ((lget c s)\<lparr>cv_spinlock := v\<rparr>) s\<rparr>"

definition condition_init :: "('s, condition) lref option \<Rightarrow> 's \<Rightarrow> 's" where
  "condition_init cond s =
     (case cond of
        None \<Rightarrow> s
      | Some c \<Rightarrow>
          (let s = spinlock_init (Some (cv_spinlock_ref c)) s
           in lput c ((lget c s)\<lparr>cv_waiters_count := 0\<rparr>) s))"

text \<open>The polling loop: leave when the waiters count is below one, otherwise yield.\<close>

function condition_poll :: "('s, condition) lref \<Rightarrow> 's world \<Rightarrow> 's world run" where
  "condition_poll c (s, ys) =
     rbind (spinlock_acquire (Some (cv_spinlock_ref c)) (s, ys)) (\<lambda>(s, ys).
       let is_signaled = (cv_waiters_count (lget c s) < 1);
           s = spinlock_release (Some (cv_spinlock_ref c)) s
       in if is_signaled then Done (s, ys)
          else rbind (switch_task (s, ys)) (condition_poll c))"
  by pat_completeness auto
termination
  by (relation "measure (\<lambda>(c, s, ys). length ys)")
    (auto dest!: spin_length)

definition condition_wait ::
  "('s, condition) lref option \<Rightarrow> ('s, mutex) lref option \<Rightarrow> int \<Rightarrow> 's world \<Rightarrow> 's world run" where
  "condition_wait cond mtx current_task_id w =
     (case (cond, mtx) of
        (Some c, Some m) \<Rightarrow>
          rbind (spinlock_acquire (Some (cv_spinlock_ref c)) w) (\<lambda>(s, ys).
            let s = lput c ((lget c s)\<lparr>cv_waiters_count := cv_waiters_count (lget c s) + 1\<rparr>) s;
                s = spinlock_release (Some (cv_spinlock_ref c)) s
            in rbind (mutex_unlock (Some m) current_task_id (s, ys)) (\<lambda>w1.
               rbind (condition_poll c w1) (\<lambda>w2.
               mutex_lock (Some m) current_task_id w2)))
      | _ \<Rightarrow> Done w)"

definition condition_signal :: "('s, condition) lref option \<Rightarrow> 's world \<Rightarrow> 's world run" where
  "condition_signal cond w =
     (case cond of
        None \<Rightarrow> Done w
      | Some c \<Rightarrow>
          rbind (spinlock_acquire (Some (cv_spinlock_ref c)) w) (\<lambda>(s, ys).
            let s = (if cv_waiters_count (lget c s) > 0
                     then lput c ((lget c s)\<lparr>cv_waiters_count := cv_waiters_count (lget c s) - 1\<rparr>) s
                     else s)
            in Done (spinlock_release (Some (cv_spinlock_ref c)) s, ys)))"

definition condition_broadcast :: "('s, condition) lref option \<Rightarrow> 's world \<Rightarrow> 's world run" where
  "condition_broadcast cond w =
     (case cond of
        None \<Rightarrow> Done w
      | Some c \<Rightarrow>
          rbind (spinlock_acquire (Some (cv_spinlock_ref c)) w) (\<lambda>(s, ys).
            let s = lput c ((lget c s)\<lparr>cv_waiters_count := 0\<rparr>) s
            in Done (spinlock_release (Some (cv_spinlock_ref c)) s, ys)))"

declare mutex_wait.simps [simp del] semaphore_wait_loop.simps [simp del] condition_poll.simps [simp del]

section \<open>What the operations do to an object that is one cell of the memory\<close>

locale mutex_cell = memory_cell m
  for m :: "('s, mutex) lref"
begin

sublocale lk: spinlock_cell "mx_spinlock_ref m"
  by unfold_locales (simp_all add: mx_spinlock_ref_def get_put put_get put_put)

lemma lock_free:
  assumes "sl_lock (mx_spinlock (lget m s)) = 0" "mx_owner_task (lget m s) = -1" "t \<noteq> -1"
  shows "mutex_lock (Some m) t (s, ys)
       = Done (lput m \<lparr>mx_spinlock = \<lparr>sl_lock = 0\<rparr>, mx_owner_task = t, mx_lock_count = 1\<rparr> s, ys)"
  using assms
  by (cases "lget m s")
    (simp add: mutex_lock_def mutex_wait.simps spin_free spinlock_free_iff mx_spinlock_ref_def get_put put_put)

lemma lock_again:
  assumes "mx_owner_task (lget m s) = t"
  shows "mutex_lock (Some m) t (s, ys)
       = Done (lput m ((lget m s)\<lparr>mx_lock_count := mx_lock_count (lget m s) + 1\<rparr>) s, ys)"
  using assms by (simp add: mutex_lock_def)

lemma unlock_owner:
  assumes "sl_lock (mx_spinlock (lget m s)) = 0" "mx_owner_task (lget m s) = t"
  shows "mutex_unlock (Some m) t (s, ys)
       = Done (lput m \<lparr>mx_spinlock = \<lparr>sl_lock = 0\<rparr>,
                       mx_owner_task = (if mx_lock_count (lget m s) = 1 then -1 else t),
                       mx_lock_count = mx_lock_count (lget m s) - 1\<rparr> s, ys)"
  using assms
  by (cases "lget m s")
    (simp add: mutex_unlock_def spin_free spinlock_free_iff mx_spinlock_ref_def get_put put_put Let_def)

end


locale condition_cell = memory_cell c
  for c :: "('s, condition) lref"
begin

sublocale lk: spinlock_cell "cv_spinlock_ref c"
  by unfold_locales (simp_all add: cv_spinlock_ref_def get_put put_get put_put)

lemma poll_free:
  assumes "sl_lock (cv_spinlock (lget c s)) = 0"
  shows "condition_poll c (s, ys) =
     (if cv_waiters_count (lget c s) < 1 then Done (s, ys)
      else rbind (switch_task (s, ys)) (condition_poll c))"
proof -
  have "(lget c s)\<lparr>cv_spinlock := \<lparr>sl_lock = 0\<rparr>\<rparr> = lget c s"
    using assms by (cases "lget c s") simp
  with assms show ?thesis
    by (cases "lget c s")
      (simp add: spin_free spinlock_free_iff cv_spinlock_ref_def get_put put_put put_same condition_poll.simps [of c s ys])
qed

lemma signal_free:
  assumes "sl_lock (cv_spinlock (lget c s)) = 0"
  shows "condition_signal (Some c) (s, ys) =
     Done (if 0 < cv_waiters_count (lget c s)
           then lput c ((lget c s)\<lparr>cv_waiters_count := cv_waiters_count (lget c s) - 1\<rparr>) s else s, ys)"
proof -
  have "(lget c s)\<lparr>cv_spinlock := \<lparr>sl_lock = 0\<rparr>\<rparr> = lget c s"
    using assms by (cases "lget c s") simp
  with assms show ?thesis
    by (cases "lget c s")
      (simp add: condition_signal_def spin_free spinlock_free_iff cv_spinlock_ref_def get_put put_put put_same)
qed

lemma broadcast_free:
  assumes "sl_lock (cv_spinlock (lget c s)) = 0"
  shows "condition_broadcast (Some c) (s, ys) =
     Done (lput c ((lget c s)\<lparr>cv_waiters_count := 0\<rparr>) s, ys)"
  using assms
  by (cases "lget c s")
    (simp add: condition_broadcast_def spin_free spinlock_free_iff cv_spinlock_ref_def get_put put_put)

lemma poll_waits:
  assumes "sl_lock (cv_spinlock (lget c s)) = 0" "1 \<le> cv_waiters_count (lget c s)"
  shows "condition_poll c (s, replicate k (\<lambda>u. u)) = Blocked"
  using assms by (induction k) (auto simp: poll_free)

end

text \<open>The memory that consists of the object alone.\<close>

definition self_ref :: "('a, 'a) lref" where
  "self_ref = \<lparr>lget = \<lambda>s. s, lput = \<lambda>v s. v\<rparr>"

lemma self_ref_sel [simp]: "lget self_ref s = s" "lput self_ref v s = v"
  by (simp_all add: self_ref_def)

interpretation self_mutex: mutex_cell self_ref
  by unfold_locales simp_all


interpretation self_condition: condition_cell self_ref
  by unfold_locales simp_all

section \<open>Histories of semaphore calls\<close>






section \<open>Properties\<close>





text \<open>
  C5: one signal with several waiters releases nobody. The waiting loop of \<^verbatim>\<open>condition_wait\<close> leaves
  only when the number of waiters has dropped below one. After a \<^verbatim>\<open>condition_signal\<close> on a condition
  with two or more waiters the loop of every waiter keeps spinning, however often it is
  scheduled; a \<^verbatim>\<open>condition_broadcast\<close>, or a signal with a single waiter, does end the loop.
\<close>

theorem condition_signal_wakes_only_last_waiter:
  assumes "sl_lock (cv_spinlock c) = 0"
  shows "\<exists>c1 c2. condition_signal (Some self_ref) (c, ys) = Done (c1, ys) \<and>
       (2 \<le> cv_waiters_count c \<longrightarrow> condition_poll self_ref (c1, replicate k (\<lambda>u. u)) = Blocked) \<and>
       (cv_waiters_count c \<le> 1 \<longrightarrow> condition_poll self_ref (c1, ys) = Done (c1, ys)) \<and>
       condition_broadcast (Some self_ref) (c, ys) = Done (c2, ys) \<and>
       condition_poll self_ref (c2, ys) = Done (c2, ys)"
proof -
  let ?c1 = "if 0 < cv_waiters_count c then c\<lparr>cv_waiters_count := cv_waiters_count c - 1\<rparr> else c"
  have "condition_poll self_ref (?c1, replicate k (\<lambda>u. u)) = Blocked" if "2 \<le> cv_waiters_count c"
    by (rule self_condition.poll_waits) (use assms that in simp_all)
  then show ?thesis
    using assms
    by (auto simp: self_condition.signal_free self_condition.broadcast_free self_condition.poll_free
        simp del: condition_poll.simps)
qed

theorem condition_signal_wakes_only_last_waiter_witness:
  "\<exists>c1 c2. condition_signal (Some self_ref) (\<lparr>cv_spinlock = \<lparr>sl_lock = 0\<rparr>, cv_waiters_count = 2\<rparr>, []) = Done (c1, []) \<and>
       condition_poll self_ref (c1, replicate 100 (\<lambda>u. u)) = Blocked \<and>
       condition_broadcast (Some self_ref) (\<lparr>cv_spinlock = \<lparr>sl_lock = 0\<rparr>, cv_waiters_count = 2\<rparr>, []) = Done (c2, []) \<and>
       condition_poll self_ref (c2, []) = Done (c2, [])"
  using condition_signal_wakes_only_last_waiter [of "\<lparr>cv_spinlock = \<lparr>sl_lock = 0\<rparr>, cv_waiters_count = 2\<rparr>" "[]" 100]
  by auto

end
