(* ===== verification/Ipc.thy ===== *)
theory Ipc
  imports Ring_Buffer Sync
begin

text \<open>
  Message passing between tasks, \<^verbatim>\<open>kernel/ipc.c\<close>: one bounded queue per task, each protected by
  a spinlock, and the statistics counters.

  \<^verbatim>\<open>malloc\<close> and \<^verbatim>\<open>get_current_task_id\<close> are arguments: the result of the allocation is \<open>None\<close> for
  the null pointer, otherwise the uninitialised bytes of the data area of the new message.
  \<open>ipc_live\<close> counts the messages allocated and not yet freed. The array \<^verbatim>\<open>message_queues\<close> is a
  function that is only applied below \<open>MAX_TASKS\<close>: an access beyond it is a \<open>Fault\<close>.
\<close>

section \<open>State\<close>

definition MAX_MESSAGES_PER_QUEUE :: nat where "MAX_MESSAGES_PER_QUEUE = 32"
definition MAX_MESSAGE_SIZE :: int where "MAX_MESSAGE_SIZE = 256"
definition IPC_MAX_TASKS :: int where "IPC_MAX_TASKS = 256"
definition IPC_FLAG_NOWAIT :: int where "IPC_FLAG_NOWAIT = 1"

definition IPC_SUCCESS :: int where "IPC_SUCCESS = 0"
definition IPC_ERR_INVALID_PARAM :: int where "IPC_ERR_INVALID_PARAM = -1"
definition IPC_ERR_NO_MEMORY :: int where "IPC_ERR_NO_MEMORY = -2"
definition IPC_ERR_QUEUE_FULL :: int where "IPC_ERR_QUEUE_FULL = -3"
definition IPC_ERR_NO_MESSAGE :: int where "IPC_ERR_NO_MESSAGE = -4"

lemmas ipc_consts = MAX_MESSAGES_PER_QUEUE_def MAX_MESSAGE_SIZE_def IPC_MAX_TASKS_def
  IPC_FLAG_NOWAIT_def IPC_SUCCESS_def IPC_ERR_INVALID_PARAM_def IPC_ERR_NO_MEMORY_def
  IPC_ERR_QUEUE_FULL_def IPC_ERR_NO_MESSAGE_def

record ipc_message =
  im_sender :: int
  im_type :: int
  im_flags :: int
  im_size :: int
  im_data :: "u8 list"

record ipc_stats =
  st_messages_sent :: u32
  st_messages_received :: u32
  st_errors :: u32
  st_queue_full :: u32

record message_queue =
  mq_messages :: "ipc_message option list"
  mq_head :: nat
  mq_tail :: nat
  mq_count :: nat
  mq_task_id :: int
  mq_lock :: spinlock

record ipc =
  ipc_queues :: "nat \<Rightarrow> message_queue"
  ipc_stats :: ipc_stats
  ipc_live :: nat

definition zero_stats :: ipc_stats where
  "zero_stats = \<lparr>st_messages_sent = 0, st_messages_received = 0, st_errors = 0, st_queue_full = 0\<rparr>"

definition ipc_init :: "ipc \<Rightarrow> ipc" where
  "ipc_init s =
     s\<lparr>ipc_queues := (\<lambda>i. if int i < IPC_MAX_TASKS
                          then (ipc_queues s i)\<lparr>mq_head := 0, mq_tail := 0, mq_count := 0,
                                 mq_task_id := int i, mq_lock := \<lparr>sl_lock = 0\<rparr>\<rparr>
                          else ipc_queues s i),
       ipc_stats := zero_stats\<rparr>"

definition upd_queue :: "nat \<Rightarrow> (message_queue \<Rightarrow> message_queue) \<Rightarrow> ipc \<Rightarrow> ipc" where
  "upd_queue i f s = s\<lparr>ipc_queues := (ipc_queues s)(i := f (ipc_queues s i))\<rparr>"

definition queue_lock_ref :: "nat \<Rightarrow> (ipc, spinlock) lref" where
  "queue_lock_ref i =
     \<lparr>lget = \<lambda>s. mq_lock (ipc_queues s i), lput = \<lambda>v. upd_queue i (mq_lock_update (\<lambda>_. v))\<rparr>"

section \<open>Queue operations\<close>

definition mq_enqueue :: "ipc_message \<Rightarrow> message_queue \<Rightarrow> message_queue" where
  "mq_enqueue msg q =
     q\<lparr>mq_messages := (mq_messages q)[mq_tail q := Some msg],
       mq_tail := (mq_tail q + 1) mod MAX_MESSAGES_PER_QUEUE,
       mq_count := mq_count q + 1\<rparr>"

definition mq_front :: "message_queue \<Rightarrow> ipc_message option" where
  "mq_front q = mq_messages q ! mq_head q"

definition mq_dequeue :: "message_queue \<Rightarrow> message_queue" where
  "mq_dequeue q =
     q\<lparr>mq_messages := (mq_messages q)[mq_head q := None],
       mq_head := (mq_head q + 1) mod MAX_MESSAGES_PER_QUEUE,
       mq_count := mq_count q - 1\<rparr>"

section \<open>Sending\<close>

definition fill_message ::
  "u8 list \<Rightarrow> int \<Rightarrow> int \<Rightarrow> u8 list option \<Rightarrow> int \<Rightarrow> int \<Rightarrow> ipc_message run" where
  "fill_message junk from_task_id type data sz flags =
     rbind (case data of
              Some d \<Rightarrow> if sz > 0 then memcpy junk d (nat sz) else Done junk
            | None \<Rightarrow> Done junk)
       (\<lambda>bytes. Done \<lparr>im_sender = from_task_id, im_type = type, im_flags = flags, im_size = sz,
                      im_data = bytes\<rparr>)"

definition ipc_send_message ::
  "u8 list option \<Rightarrow> int \<Rightarrow> int \<Rightarrow> int \<Rightarrow> u8 list option \<Rightarrow> int \<Rightarrow> int \<Rightarrow> ipc world \<Rightarrow> (int \<times> ipc world) run" where
  "ipc_send_message malloc_result from_task_id to_task_id type data sz flags w =
     (if to_task_id < 0 \<or> to_task_id \<ge> IPC_MAX_TASKS \<or> sz < 0 \<or> sz > MAX_MESSAGE_SIZE
      then Done (IPC_ERR_INVALID_PARAM, w)
      else
        (let (s, ys) = w; i = nat to_task_id; lk = Some (queue_lock_ref i) in
         case malloc_result of
           None \<Rightarrow>
             Done (IPC_ERR_NO_MEMORY,
                   s\<lparr>ipc_stats := (ipc_stats s)\<lparr>st_errors := st_errors (ipc_stats s) + 1\<rparr>\<rparr>, ys)
         | Some junk \<Rightarrow>
             rbind (fill_message junk from_task_id type data sz flags) (\<lambda>msg.
             rbind (spinlock_acquire lk (s\<lparr>ipc_live := ipc_live s + 1\<rparr>, ys)) (\<lambda>(s, ys).
               if mq_count (ipc_queues s i) \<ge> MAX_MESSAGES_PER_QUEUE
               then (let s = spinlock_release lk s;
                         s = s\<lparr>ipc_live := ipc_live s - 1,
                               ipc_stats := (ipc_stats s)\<lparr>st_queue_full := st_queue_full (ipc_stats s) + 1\<rparr>\<rparr>
                     in Done (IPC_ERR_QUEUE_FULL, s, ys))
               else (let s = upd_queue i (mq_enqueue msg) s;
                         s = s\<lparr>ipc_stats := (ipc_stats s)\<lparr>st_messages_sent := st_messages_sent (ipc_stats s) + 1\<rparr>\<rparr>
                     in Done (IPC_SUCCESS, spinlock_release lk s, ys))))))"

section \<open>Receiving\<close>

text \<open>The index of the caller's queue; an identifier beyond the array is undefined behaviour.\<close>

definition own_queue :: "int \<Rightarrow> nat run" where
  "own_queue task_id = (if 0 \<le> task_id \<and> task_id < IPC_MAX_TASKS then Done (nat task_id) else Fault)"

text \<open>Copying a queued message into the caller's buffer, and only the bytes that were sent.\<close>

definition copy_message :: "ipc_message \<Rightarrow> ipc_message option \<Rightarrow> ipc_message run" where
  "copy_message buf queued =
     (case queued of
        None \<Rightarrow> Fault
      | Some m \<Rightarrow>
          rbind (if im_size m > 0 then memcpy (im_data buf) (im_data m) (nat (im_size m)) else Done (im_data buf))
            (\<lambda>bytes. Done \<lparr>im_sender = im_sender m, im_type = im_type m, im_flags = im_flags m,
                           im_size = im_size m, im_data = bytes\<rparr>))"

text \<open>The busy wait of a blocking receive; it ends with the lock held.\<close>

function await_message :: "nat \<Rightarrow> ipc world \<Rightarrow> ipc world run" where
  "await_message i (s, ys) =
     rbind (switch_task (s, ys)) (\<lambda>w1.
     rbind (spinlock_acquire (Some (queue_lock_ref i)) w1) (\<lambda>(s2, ys2).
       if mq_count (ipc_queues s2 i) > 0 then Done (s2, ys2)
       else await_message i (spinlock_release (Some (queue_lock_ref i)) s2, ys2)))"
  by pat_completeness auto
termination
  by (relation "measure (\<lambda>(i, s, ys). length ys)") (auto dest!: spin_length)

declare await_message.simps [simp del]

definition ipc_receive_message ::
  "int \<Rightarrow> ipc_message option \<Rightarrow> int \<Rightarrow> ipc world \<Rightarrow> (int \<times> ipc_message option \<times> ipc world) run" where
  "ipc_receive_message task_id msg flags w =
     (case msg of
        None \<Rightarrow> Done (IPC_ERR_INVALID_PARAM, msg, w)
      | Some buf \<Rightarrow>
          rbind (own_queue task_id) (\<lambda>i.
          let lk = Some (queue_lock_ref i) in
          rbind (spinlock_acquire lk w) (\<lambda>(s, ys).
            let empty = (mq_count (ipc_queues s i) = 0);
                s = (if empty then spinlock_release lk s else s)
            in if empty \<and> flags AND IPC_FLAG_NOWAIT \<noteq> 0 then Done (IPC_ERR_NO_MESSAGE, msg, s, ys)
               else rbind (if empty then await_message i (spinlock_release lk s, ys) else Done (s, ys))
                 (\<lambda>(s, ys).
                 rbind (copy_message buf (mq_front (ipc_queues s i))) (\<lambda>out.
                   let s = upd_queue i mq_dequeue s;
                       s = s\<lparr>ipc_stats := (ipc_stats s)\<lparr>st_messages_received := st_messages_received (ipc_stats s) + 1\<rparr>\<rparr>;
                       s = spinlock_release lk s;
                       s = s\<lparr>ipc_live := ipc_live s - 1\<rparr>
                   in Done (IPC_SUCCESS, Some out, s, ys))))))"

definition ipc_peek_message ::
  "int \<Rightarrow> ipc_message option \<Rightarrow> int \<Rightarrow> ipc world \<Rightarrow> (int \<times> ipc_message option \<times> ipc world) run" where
  "ipc_peek_message task_id msg flags w =
     (case msg of
        None \<Rightarrow> Done (IPC_ERR_INVALID_PARAM, msg, w)
      | Some buf \<Rightarrow>
          rbind (own_queue task_id) (\<lambda>i.
          let lk = Some (queue_lock_ref i) in
          rbind (spinlock_acquire lk w) (\<lambda>(s, ys).
            if mq_count (ipc_queues s i) = 0
            then Done (IPC_ERR_NO_MESSAGE, msg, spinlock_release lk s, ys)
            else rbind (copy_message buf (mq_front (ipc_queues s i))) (\<lambda>out.
                   Done (IPC_SUCCESS, Some out, spinlock_release lk s, ys)))))"

definition ipc_message_count :: "int \<Rightarrow> ipc world \<Rightarrow> (nat \<times> ipc world) run" where
  "ipc_message_count task_id w =
     rbind (own_queue task_id) (\<lambda>i.
     rbind (spinlock_acquire (Some (queue_lock_ref i)) w) (\<lambda>(s, ys).
       Done (mq_count (ipc_queues s i), spinlock_release (Some (queue_lock_ref i)) s, ys)))"

definition ipc_get_statistics :: "ipc_stats option \<Rightarrow> ipc \<Rightarrow> ipc_stats option" where
  "ipc_get_statistics stats s = (case stats of None \<Rightarrow> None | Some _ \<Rightarrow> Some (ipc_stats s))"

definition ipc_reset_statistics :: "ipc \<Rightarrow> ipc" where
  "ipc_reset_statistics s = s\<lparr>ipc_stats := zero_stats\<rparr>"

section \<open>Flushing and responding\<close>

text \<open>The loop of \<^verbatim>\<open>ipc_flush_messages\<close>: \<open>n\<close> is the number of queue positions still to visit.\<close>

fun flush_loop :: "nat \<Rightarrow> nat \<Rightarrow> message_queue \<Rightarrow> nat \<Rightarrow> message_queue \<times> nat" where
  "flush_loop i 0 q flushed = (q, flushed)"
| "flush_loop i (Suc n) q flushed =
     (let index = (mq_head q + i) mod MAX_MESSAGES_PER_QUEUE in
      case mq_messages q ! index of
        Some _ \<Rightarrow> flush_loop (i + 1) n (q\<lparr>mq_messages := (mq_messages q)[index := None]\<rparr>) (flushed + 1)
      | None \<Rightarrow> flush_loop (i + 1) n q flushed)"

definition ipc_flush_messages :: "int \<Rightarrow> int \<Rightarrow> ipc world \<Rightarrow> (int \<times> ipc world) run" where
  "ipc_flush_messages current_task_id task_id w =
     (let task_id = (if task_id = -1 then current_task_id else task_id) in
      if task_id < 0 \<or> task_id \<ge> IPC_MAX_TASKS then Done (IPC_ERR_INVALID_PARAM, w)
      else
        (let i = nat task_id; lk = Some (queue_lock_ref i) in
         rbind (spinlock_acquire lk w) (\<lambda>(s, ys).
           let (q, flushed) = flush_loop 0 (mq_count (ipc_queues s i)) (ipc_queues s i) 0;
               q = q\<lparr>mq_head := 0, mq_tail := 0, mq_count := 0\<rparr>;
               s = upd_queue i (\<lambda>_. q) s;
               s = s\<lparr>ipc_live := ipc_live s - flushed\<rparr>
           in Done (int flushed, spinlock_release lk s, ys))))"

definition ipc_send_response ::
  "u8 list option \<Rightarrow> int \<Rightarrow> ipc_message option \<Rightarrow> int \<Rightarrow> u8 list option \<Rightarrow> int \<Rightarrow> int \<Rightarrow> ipc world
     \<Rightarrow> (int \<times> ipc world) run" where
  "ipc_send_response malloc_result from_task_id original_msg type data sz flags w =
     (case original_msg of
        None \<Rightarrow> Done (IPC_ERR_INVALID_PARAM, w)
      | Some m \<Rightarrow> ipc_send_message malloc_result from_task_id (im_sender m) type data sz flags w)"

section \<open>Well-formed queues\<close>

definition mq_list :: "message_queue \<Rightarrow> ipc_message list" where
  "mq_list q = map the (ring_list (mq_messages q) (mq_head q) (mq_count q))"

definition mq_ok :: "message_queue \<Rightarrow> bool" where
  "mq_ok q \<longleftrightarrow>
     ring_ok (mq_messages q) MAX_MESSAGES_PER_QUEUE (mq_head q) (mq_tail q) (mq_count q) \<and>
     None \<notin> set (ring_list (mq_messages q) (mq_head q) (mq_count q))"

lemma length_mq_list [simp]: "length (mq_list q) = mq_count q"
  by (simp add: mq_list_def)

lemma mq_list_Nil_iff: "mq_list q = [] \<longleftrightarrow> mq_count q = 0"
  by (metis length_0_conv length_mq_list)

interpretation mq: bounded_fifo mq_ok mq_list "\<lambda>_. MAX_MESSAGES_PER_QUEUE"
  mq_enqueue "\<lambda>q. the (mq_front q)" mq_dequeue
proof unfold_locales
  fix q x
  assume ok: "mq_ok q"
  then have ring: "ring_ok (mq_messages q) MAX_MESSAGES_PER_QUEUE (mq_head q) (mq_tail q) (mq_count q)"
    by (simp add: mq_ok_def)
  then show "length (mq_list q) \<le> MAX_MESSAGES_PER_QUEUE"
    by (simp add: ring_ok_def)
  {
    assume "length (mq_list q) < MAX_MESSAGES_PER_QUEUE"
    then have snoc: "ring_list ((mq_messages q)[mq_tail q := Some x]) (mq_head q) (Suc (mq_count q))
        = ring_list (mq_messages q) (mq_head q) (mq_count q) @ [Some x]"
      and ring': "ring_ok ((mq_messages q)[mq_tail q := Some x]) MAX_MESSAGES_PER_QUEUE (mq_head q)
        ((mq_tail q + 1) mod MAX_MESSAGES_PER_QUEUE) (Suc (mq_count q))"
      using ring_list_snoc [OF ring] ring_ok_snoc [OF ring] by simp_all
    show "mq_ok (mq_enqueue x q)"
      using ok snoc ring' by (simp add: mq_ok_def mq_enqueue_def)
    show "mq_list (mq_enqueue x q) = mq_list q @ [x]"
      using snoc by (simp add: mq_list_def mq_enqueue_def)
  }
  {
    assume "mq_list q \<noteq> []"
    then have n: "0 < mq_count q"
      by (simp add: mq_list_Nil_iff)
    note tl = ring_list_tl_update [OF ring n, of None] and tl_ok = ring_ok_tl(1) [OF ring n, of None]
    have ne: "ring_list (mq_messages q) (mq_head q) (mq_count q) \<noteq> []"
      using n by (metis length_0_conv length_ring_list less_irrefl)
    then show "mq_ok (mq_dequeue q)"
      using ok tl tl_ok by (auto simp: mq_ok_def mq_dequeue_def dest: list.set_sel(2))
    show "mq_list (mq_dequeue q) = tl (mq_list q)"
      using tl by (simp add: mq_list_def mq_dequeue_def map_tl)
    show "the (mq_front q) = hd (mq_list q)"
      using ring_list_hd [OF ring n] ne by (simp add: mq_list_def mq_front_def hd_map)
  }
qed simp_all

lemma mq_front_Some:
  assumes "mq_ok q" "0 < mq_count q"
  shows "mq_front q = Some (hd (mq_list q))"
proof -
  have ring: "ring_ok (mq_messages q) MAX_MESSAGES_PER_QUEUE (mq_head q) (mq_tail q) (mq_count q)"
    and some: "None \<notin> set (ring_list (mq_messages q) (mq_head q) (mq_count q))"
    using assms(1) by (simp_all add: mq_ok_def)
  have ne: "ring_list (mq_messages q) (mq_head q) (mq_count q) \<noteq> []"
    using assms(2) by (metis length_0_conv length_ring_list less_irrefl)
  have front: "mq_front q = hd (ring_list (mq_messages q) (mq_head q) (mq_count q))"
    using ring_list_hd [OF ring assms(2)] by (simp add: mq_front_def)
  then have "mq_front q \<noteq> None"
    using some ne hd_in_set by metis
  with front ne show ?thesis
    by (auto simp: mq_list_def hd_map)
qed

interpretation queue_lock: spinlock_cell "queue_lock_ref i" for i
  by unfold_locales (simp_all add: queue_lock_ref_def upd_queue_def)

section \<open>The effect of the operations while no other task interferes\<close>

definition msg_ok :: "ipc_message \<Rightarrow> bool" where
  "msg_ok m \<longleftrightarrow> 0 \<le> im_size m \<and> im_size m \<le> MAX_MESSAGE_SIZE \<and> length (im_data m) = nat MAX_MESSAGE_SIZE"

definition ipc_ok :: "ipc \<Rightarrow> bool" where
  "ipc_ok s \<longleftrightarrow>
     (\<forall>i < nat IPC_MAX_TASKS. mq_ok (ipc_queues s i) \<and> list_all msg_ok (mq_list (ipc_queues s i)) \<and>
        sl_lock (mq_lock (ipc_queues s i)) = 0)"

text \<open>The messages waiting for task \<open>i\<close>, oldest first.\<close>

definition pending :: "ipc \<Rightarrow> nat \<Rightarrow> ipc_message list" where
  "pending s i = mq_list (ipc_queues s i)"

lemma ipc_okD:
  assumes "ipc_ok s" "i < nat IPC_MAX_TASKS"
  shows "mq_ok (ipc_queues s i)" "list_all msg_ok (pending s i)" "sl_lock (mq_lock (ipc_queues s i)) = 0"
  using assms by (simp_all add: ipc_ok_def pending_def)

lemma mq_enqueue_sel [simp]:
  "mq_lock (mq_enqueue m q) = mq_lock q" "mq_count (mq_enqueue m q) = mq_count q + 1"
  by (simp_all add: mq_enqueue_def)

lemma mq_dequeue_sel [simp]:
  "mq_lock (mq_dequeue q) = mq_lock q" "mq_count (mq_dequeue q) = mq_count q - 1"
  by (simp_all add: mq_dequeue_def)

lemma mq_lock_indep [simp]:
  "mq_list (q\<lparr>mq_lock := l\<rparr>) = mq_list q" "mq_ok (q\<lparr>mq_lock := l\<rparr>) = mq_ok q"
  "mq_front (q\<lparr>mq_lock := l\<rparr>) = mq_front q"
  "mq_enqueue m (q\<lparr>mq_lock := l\<rparr>) = (mq_enqueue m q)\<lparr>mq_lock := l\<rparr>"
  "mq_dequeue (q\<lparr>mq_lock := l\<rparr>) = (mq_dequeue q)\<lparr>mq_lock := l\<rparr>"
  by (simp_all add: mq_list_def mq_ok_def mq_front_def mq_enqueue_def mq_dequeue_def)

lemma mq_lock_free_update: "sl_lock (mq_lock q) = 0 \<Longrightarrow> q\<lparr>mq_lock := \<lparr>sl_lock = 0\<rparr>\<rparr> = q"
  by (cases q) (simp add: spinlock_free_iff)

lemmas ipc_eval = queue_lock_ref_def upd_queue_def spin_free mq_lock_free_update Let_def

lemma ipc_send_effect:
  assumes "ipc_ok s" "0 \<le> to" "to < IPC_MAX_TASKS" "0 \<le> sz" "sz \<le> MAX_MESSAGE_SIZE"
    and "fill_message junk frm ty data sz flags = Done msg"
  shows "ipc_send_message (Some junk) frm to ty data sz flags (s, ys) =
     (if mq_count (ipc_queues s (nat to)) < MAX_MESSAGES_PER_QUEUE
      then Done (IPC_SUCCESS,
             (upd_queue (nat to) (mq_enqueue msg) s)
               \<lparr>ipc_live := ipc_live s + 1,
                ipc_stats := (ipc_stats s)\<lparr>st_messages_sent := st_messages_sent (ipc_stats s) + 1\<rparr>\<rparr>, ys)
      else Done (IPC_ERR_QUEUE_FULL,
             s\<lparr>ipc_stats := (ipc_stats s)\<lparr>st_queue_full := st_queue_full (ipc_stats s) + 1\<rparr>\<rparr>, ys))"
proof -
  have "sl_lock (mq_lock (ipc_queues s (nat to))) = 0"
    using ipc_okD(3) [OF assms(1)] assms(2,3) by (simp add: IPC_MAX_TASKS_def)
  with assms show ?thesis
    by (simp add: ipc_send_message_def ipc_eval)
qed

lemma ipc_receive_effect:
  assumes "ipc_ok s" "0 \<le> t" "t < IPC_MAX_TASKS" "0 < mq_count (ipc_queues s (nat t))"
    and "copy_message buf (Some (hd (pending s (nat t)))) = Done out"
  shows "ipc_receive_message t (Some buf) flags (s, ys) =
     Done (IPC_SUCCESS, Some out,
       (upd_queue (nat t) mq_dequeue s)
         \<lparr>ipc_live := ipc_live s - 1,
          ipc_stats := (ipc_stats s)\<lparr>st_messages_received := st_messages_received (ipc_stats s) + 1\<rparr>\<rparr>, ys)"
proof -
  have i: "nat t < nat IPC_MAX_TASKS"
    using assms(2,3) by simp
  have "sl_lock (mq_lock (ipc_queues s (nat t))) = 0"
    using ipc_okD(3) [OF assms(1) i] by simp
  moreover have "mq_front (ipc_queues s (nat t)) = Some (hd (pending s (nat t)))"
    using mq_front_Some ipc_okD(1) [OF assms(1) i] assms(4) by (simp add: pending_def)
  ultimately show ?thesis
    using assms by (simp add: ipc_receive_message_def own_queue_def ipc_eval)
qed

lemma ipc_receive_nothing:
  assumes "ipc_ok s" "0 \<le> t" "t < IPC_MAX_TASKS" "mq_count (ipc_queues s (nat t)) = 0"
    and "flags AND IPC_FLAG_NOWAIT \<noteq> 0"
  shows "ipc_receive_message t (Some buf) flags (s, ys) = Done (IPC_ERR_NO_MESSAGE, Some buf, s, ys)"
proof -
  have "sl_lock (mq_lock (ipc_queues s (nat t))) = 0"
    using ipc_okD(3) [OF assms(1)] assms(2,3) by simp
  with assms show ?thesis
    by (simp add: ipc_receive_message_def own_queue_def ipc_eval)
qed

text \<open>Every queued message is one live allocation, and there are no others.\<close>

definition ipc_balanced :: "ipc \<Rightarrow> bool" where
  "ipc_balanced s \<longleftrightarrow> ipc_live s = (\<Sum>i < nat IPC_MAX_TASKS. mq_count (ipc_queues s i))"

lemma sum_queue_change:
  assumes "i < (n::nat)"
  shows "(\<Sum>j < n. mq_count ((q(i := q')) j)) + mq_count (q i) = (\<Sum>j < n. mq_count (q j)) + mq_count q'"
proof -
  have "(\<Sum>j < n. mq_count ((q(i := q')) j)) = mq_count q' + (\<Sum>j \<in> {..<n} - {i}. mq_count (q j))"
    using assms by (subst sum.remove [of _ i]) auto
  moreover have "(\<Sum>j < n. mq_count (q j)) = mq_count (q i) + (\<Sum>j \<in> {..<n} - {i}. mq_count (q j))"
    using assms by (subst sum.remove [of _ i]) auto
  ultimately show ?thesis
    by simp
qed

text \<open>An accepted message: the state after \<open>mq_enqueue\<close>.\<close>

lemma accepted:
  assumes "ipc_ok s" "i < nat IPC_MAX_TASKS" "mq_count (ipc_queues s i) < MAX_MESSAGES_PER_QUEUE" "msg_ok msg"
    and s': "s' = (upd_queue i (mq_enqueue msg) s)\<lparr>ipc_live := ipc_live s + 1, ipc_stats := st\<rparr>"
  shows "ipc_ok s'" "pending s' = (pending s)(i := pending s i @ [msg])" "ipc_balanced s \<Longrightarrow> ipc_balanced s'"
proof -
  note ok = ipc_okD [OF assms(1,2)]
  have enq: "mq_ok (mq_enqueue msg (ipc_queues s i))"
    "mq_list (mq_enqueue msg (ipc_queues s i)) = pending s i @ [msg]"
    using mq.invar_enq mq.contents_enq ok(1) assms(3) by (simp_all add: pending_def)
  show "ipc_ok s'"
    using assms(1,4) ok enq unfolding s' by (auto simp: ipc_ok_def upd_queue_def pending_def)
  show "pending s' = (pending s)(i := pending s i @ [msg])"
    using enq unfolding s' by (auto simp: pending_def upd_queue_def fun_eq_iff)
  show "ipc_balanced s'" if "ipc_balanced s"
    using that sum_queue_change [OF assms(2), of "ipc_queues s" "mq_enqueue msg (ipc_queues s i)"]
    unfolding s' by (simp add: ipc_balanced_def upd_queue_def)
qed

text \<open>A delivered message: the state after \<open>mq_dequeue\<close>.\<close>

lemma delivered:
  assumes "ipc_ok s" "i < nat IPC_MAX_TASKS" "0 < mq_count (ipc_queues s i)"
    and s': "s' = (upd_queue i mq_dequeue s)\<lparr>ipc_live := ipc_live s - 1, ipc_stats := st\<rparr>"
  shows "ipc_ok s'" "pending s' = (pending s)(i := tl (pending s i))" "ipc_balanced s \<Longrightarrow> ipc_balanced s'"
proof -
  note ok = ipc_okD [OF assms(1,2)]
  have ne: "mq_list (ipc_queues s i) \<noteq> []"
    using assms(3) by (simp add: mq_list_Nil_iff)
  have deq: "mq_ok (mq_dequeue (ipc_queues s i))"
    "mq_list (mq_dequeue (ipc_queues s i)) = tl (pending s i)"
    using mq.invar_deq mq.contents_deq ok(1) ne by (simp_all add: pending_def)
  have "list_all msg_ok (tl (pending s i))"
    using ok(2) by (cases "pending s i") auto
  then show "ipc_ok s'"
    using assms(1) ok deq unfolding s' by (auto simp: ipc_ok_def upd_queue_def pending_def)
  show "pending s' = (pending s)(i := tl (pending s i))"
    using deq unfolding s' by (auto simp: pending_def upd_queue_def fun_eq_iff)
  show "ipc_balanced s'" if "ipc_balanced s"
    using that assms(3) sum_queue_change [OF assms(2), of "ipc_queues s" "mq_dequeue (ipc_queues s i)"]
    unfolding s' by (simp add: ipc_balanced_def upd_queue_def)
qed

lemma stats_only:
  "ipc_ok (s\<lparr>ipc_stats := st\<rparr>) = ipc_ok s" "pending (s\<lparr>ipc_stats := st\<rparr>) = pending s"
  "ipc_balanced (s\<lparr>ipc_stats := st\<rparr>) = ipc_balanced s"
  by (simp_all add: ipc_ok_def ipc_balanced_def pending_def fun_eq_iff)

section \<open>Histories of calls\<close>

text \<open>What a receiver sees of a message: the header fields and the bytes that were sent.\<close>

type_synonym view = "int \<times> int \<times> int \<times> int \<times> u8 list"

definition msg_view :: "ipc_message \<Rightarrow> view" where
  "msg_view m = (im_sender m, im_type m, im_flags m, im_size m, take (nat (im_size m)) (im_data m))"

datatype ipc_call =
    Send "u8 list option" int int int "u8 list option" int int
  | Receive int ipc_message int
  | Peek int ipc_message int

text \<open>
  The bytes a send call hands over: the caller's data, or the contents of the fresh allocation
  when the caller passes the null pointer.
\<close>

definition payload :: "u8 list option \<Rightarrow> u8 list option \<Rightarrow> int \<Rightarrow> u8 list" where
  "payload malloc_result data sz =
     take (nat sz) (case data of Some d \<Rightarrow> d | None \<Rightarrow> (case malloc_result of Some junk \<Rightarrow> junk | None \<Rightarrow> []))"

text \<open>
  A history of calls, each running without interference: the log of accepted messages (with the
  receiver), the log of delivered messages (with the receiver), and the final state.
\<close>

fun ipc_history :: "ipc_call list \<Rightarrow> ipc \<Rightarrow> ((nat \<times> view) list \<times> (nat \<times> view) list \<times> ipc) run" where
  "ipc_history [] s = Done ([], [], s)"
| "ipc_history (Send mal frm to ty data sz flags # cs) s =
     rbind (ipc_send_message mal frm to ty data sz flags (s, [])) (\<lambda>(r, s', _).
     rbind (ipc_history cs s') (\<lambda>(snt, rcv, s'').
       Done (if r = IPC_SUCCESS then (nat to, frm, ty, flags, sz, payload mal data sz) # snt else snt, rcv, s'')))"
| "ipc_history (Receive t buf flags # cs) s =
     rbind (ipc_receive_message t (Some buf) flags (s, [])) (\<lambda>(r, out, s', _).
     rbind (ipc_history cs s') (\<lambda>(snt, rcv, s'').
       Done (snt, if r = IPC_SUCCESS then (nat t, msg_view (the out)) # rcv else rcv, s'')))"
| "ipc_history (Peek t buf flags # cs) s =
     rbind (ipc_peek_message t (Some buf) flags (s, [])) (\<lambda>(r, out, s', _). ipc_history cs s')"

text \<open>
  Callers that respect the interface: buffers of the declared sizes, task identifiers inside the
  table, and non-blocking receives.
\<close>

fun call_ok :: "ipc_call \<Rightarrow> bool" where
  "call_ok (Send mal frm to ty data sz flags) =
     ((case mal of Some junk \<Rightarrow> length junk = nat MAX_MESSAGE_SIZE | None \<Rightarrow> True) \<and>
      (case data of Some d \<Rightarrow> nat sz \<le> length d | None \<Rightarrow> True))"
| "call_ok (Receive t buf flags) =
     (0 \<le> t \<and> t < IPC_MAX_TASKS \<and> length (im_data buf) = nat MAX_MESSAGE_SIZE \<and> flags AND IPC_FLAG_NOWAIT \<noteq> 0)"
| "call_ok (Peek t buf flags) =
     (0 \<le> t \<and> t < IPC_MAX_TASKS \<and> length (im_data buf) = nat MAX_MESSAGE_SIZE)"

definition for_task :: "nat \<Rightarrow> (nat \<times> view) list \<Rightarrow> view list" where
  "for_task i es = map snd (filter (\<lambda>e. fst e = i) es)"

lemma for_task_simps [simp]:
  "for_task i [] = []" "for_task i ((j, v) # es) = (if j = i then v # for_task i es else for_task i es)"
  by (simp_all add: for_task_def)

lemma fill_message_ok:
  assumes "length junk = nat MAX_MESSAGE_SIZE" "case data of Some d \<Rightarrow> nat sz \<le> length d | None \<Rightarrow> True"
    and "0 \<le> sz" "sz \<le> MAX_MESSAGE_SIZE"
  shows "\<exists>msg. fill_message junk frm ty data sz flags = Done msg \<and> msg_ok msg \<and>
     msg_view msg = (frm, ty, flags, sz, payload (Some junk) data sz)"
  using assms
  by (auto simp: fill_message_def memcpy_def msg_ok_def msg_view_def payload_def ipc_consts
      split: option.splits)

lemma copy_message_ok:
  assumes "msg_ok m" "length (im_data buf) = nat MAX_MESSAGE_SIZE"
  shows "\<exists>out. copy_message buf (Some m) = Done out \<and> msg_view out = msg_view m"
  using assms by (auto simp: copy_message_def memcpy_def msg_ok_def msg_view_def ipc_consts)

lemma ipc_peek_effect:
  assumes "ipc_ok s" "0 \<le> t" "t < IPC_MAX_TASKS" "length (im_data buf) = nat MAX_MESSAGE_SIZE"
  shows "\<exists>r out. ipc_peek_message t (Some buf) flags (s, ys) = Done (r, out, s, ys)"
proof -
  have i: "nat t < nat IPC_MAX_TASKS"
    using assms(2,3) by simp
  note ok = ipc_okD [OF assms(1) i]
  show ?thesis
  proof (cases "mq_count (ipc_queues s (nat t)) = 0")
    case True
    with assms ok show ?thesis
      by (simp add: ipc_peek_message_def own_queue_def ipc_eval)
  next
    case False
    then have "mq_front (ipc_queues s (nat t)) = Some (hd (pending s (nat t)))"
      and "msg_ok (hd (pending s (nat t)))"
      using mq_front_Some ok(1,2) mq_list_Nil_iff
      by (auto simp: pending_def list_all_iff)
    with False assms ok show ?thesis
      using copy_message_ok [of "hd (pending s (nat t))" buf]
      by (auto simp: ipc_peek_message_def own_queue_def ipc_eval)
  qed
qed

text \<open>
  One call of a well-behaved caller: it returns, keeps the invariants, and extends the logs as
  the queues change.
\<close>

definition log_step :: "ipc \<Rightarrow> (nat \<times> view) list \<Rightarrow> (nat \<times> view) list \<Rightarrow> ipc \<Rightarrow> bool" where
  "log_step s snt rcv s' \<longleftrightarrow>
     ipc_ok s' \<and> (ipc_balanced s \<longrightarrow> ipc_balanced s') \<and>
     (\<forall>i < nat IPC_MAX_TASKS.
        for_task i rcv @ map msg_view (pending s' i) = map msg_view (pending s i) @ for_task i snt)"

lemma log_step_refl: "ipc_ok s \<Longrightarrow> log_step s [] [] s"
  by (simp add: log_step_def)

lemma send_log:
  assumes "ipc_ok s" "call_ok (Send mal frm to ty data sz flags)"
  shows "\<exists>r s'. ipc_send_message mal frm to ty data sz flags (s, []) = Done (r, s', []) \<and>
     log_step s (if r = IPC_SUCCESS then [(nat to, frm, ty, flags, sz, payload mal data sz)] else []) [] s'"
proof (cases "to < 0 \<or> to \<ge> IPC_MAX_TASKS \<or> sz < 0 \<or> sz > MAX_MESSAGE_SIZE")
  case True
  then show ?thesis
    using log_step_refl [OF assms(1)] by (auto simp: ipc_send_message_def ipc_consts)
next
  case valid: False
  then have i: "nat to < nat IPC_MAX_TASKS"
    by simp
  show ?thesis
  proof (cases mal)
    case None
    with valid assms(1) show ?thesis
      by (auto simp: ipc_send_message_def log_step_def stats_only ipc_consts)
  next
    case (Some junk)
    with assms(2) valid obtain msg where msg: "fill_message junk frm ty data sz flags = Done msg"
      "msg_ok msg" "msg_view msg = (frm, ty, flags, sz, payload mal data sz)"
      using fill_message_ok [where junk = junk and data = data and sz = sz and frm = frm and ty = ty and flags = flags] by auto
    note eff = ipc_send_effect [OF assms(1) _ _ _ _ msg(1), of to "[]"]
    show ?thesis
    proof (cases "mq_count (ipc_queues s (nat to)) < MAX_MESSAGES_PER_QUEUE")
      case True
      note acc = accepted [OF assms(1) i True msg(2) refl]
      show ?thesis
        using valid Some eff True acc msg(3) by (auto simp: log_step_def)
    next
      case False
      with valid Some eff assms(1) show ?thesis
        by (auto simp: log_step_def stats_only ipc_consts)
    qed
  qed
qed

lemma receive_log:
  assumes "ipc_ok s" "call_ok (Receive t buf flags)"
  shows "\<exists>r out s'. ipc_receive_message t (Some buf) flags (s, []) = Done (r, out, s', []) \<and>
     log_step s [] (if r = IPC_SUCCESS then [(nat t, msg_view (the out))] else []) s'"
proof (cases "mq_count (ipc_queues s (nat t)) = 0")
  case True
  then show ?thesis
    using assms ipc_receive_nothing [OF assms(1)] log_step_refl by (auto simp: ipc_consts)
next
  case False
  then have n: "0 < mq_count (ipc_queues s (nat t))"
    by simp
  have i: "nat t < nat IPC_MAX_TASKS"
    using assms(2) by simp
  obtain m ms where ms: "pending s (nat t) = m # ms"
    using n by (metis length_mq_list length_greater_0_conv neq_Nil_conv pending_def)
  with ipc_okD(2) [OF assms(1) i] have "msg_ok m"
    by simp
  with assms(2) obtain out where out: "copy_message buf (Some m) = Done out" "msg_view out = msg_view m"
    using copy_message_ok by auto
  note eff = ipc_receive_effect [OF assms(1) _ _ n, of buf out flags "[]"]
  note del = delivered [OF assms(1) i n refl]
  show ?thesis
    using assms(2) eff out ms del by (auto simp: log_step_def)
qed

lemma peek_log:
  assumes "ipc_ok s" "call_ok (Peek t buf flags)"
  shows "\<exists>r out. ipc_peek_message t (Some buf) flags (s, []) = Done (r, out, s, [])"
  using assms ipc_peek_effect [OF assms(1)] by simp

lemma log_step_trans:
  assumes "log_step s snt rcv s'" "log_step s' snt' rcv' s''"
  shows "log_step s (snt @ snt') (rcv @ rcv') s''"
  using assms by (auto simp: log_step_def for_task_def)

lemma history_log:
  "ipc_ok s \<Longrightarrow> list_all call_ok cs \<Longrightarrow>
     \<exists>snt rcv s'. ipc_history cs s = Done (snt, rcv, s') \<and> log_step s snt rcv s'"
proof (induction cs arbitrary: s)
  case Nil
  then show ?case
    using log_step_refl by simp
next
  case (Cons c cs)
  show ?case
  proof (cases c)
    case (Send mal frm to ty data sz flags)
    with Cons.prems send_log [OF Cons.prems(1)] obtain r s' where
      call: "ipc_send_message mal frm to ty data sz flags (s, []) = Done (r, s', [])" and
      log: "log_step s (if r = IPC_SUCCESS then [(nat to, frm, ty, flags, sz, payload mal data sz)] else []) [] s'"
      by fastforce
    from log have "ipc_ok s'"
      by (simp add: log_step_def)
    with Cons obtain snt rcv s'' where "ipc_history cs s' = Done (snt, rcv, s'')" "log_step s' snt rcv s''"
      by (metis list.pred_inject(2))
    with Send call log_step_trans [OF log] show ?thesis
      by fastforce
  next
    case (Receive t buf flags)
    with Cons.prems receive_log [OF Cons.prems(1)] obtain r out s' where
      call: "ipc_receive_message t (Some buf) flags (s, []) = Done (r, out, s', [])" and
      log: "log_step s [] (if r = IPC_SUCCESS then [(nat t, msg_view (the out))] else []) s'"
      by fastforce
    from log have "ipc_ok s'"
      by (simp add: log_step_def)
    with Cons obtain snt rcv s'' where "ipc_history cs s' = Done (snt, rcv, s'')" "log_step s' snt rcv s''"
      by (metis list.pred_inject(2))
    with Receive call log_step_trans [OF log] show ?thesis
      by fastforce
  next
    case (Peek t buf flags)
    with Cons.prems peek_log [OF Cons.prems(1)] obtain r out where
      "ipc_peek_message t (Some buf) flags (s, []) = Done (r, out, s, [])"
      by fastforce
    with Peek Cons show ?thesis
      by simp
  qed
qed

section \<open>Waiting for a message and flushing a queue\<close>

definition ipc_idle :: "nat \<Rightarrow> ipc \<Rightarrow> bool" where
  "ipc_idle i s \<longleftrightarrow> ipc_ok s \<and> pending s i = []"

lemma pending_Nil_iff: "pending s i = [] \<longleftrightarrow> mq_count (ipc_queues s i) = 0"
  by (simp add: pending_def mq_list_Nil_iff)

lemma queue_lock_free:
  assumes "ipc_ok s" "i < nat IPC_MAX_TASKS"
  shows "upd_queue i (mq_lock_update (\<lambda>_. \<lparr>sl_lock = 0\<rparr>)) s = s"
  using ipc_okD(3) [OF assms] by (simp add: upd_queue_def mq_lock_free_update)

lemma await_message_step:
  assumes "ipc_ok (y s)" "i < nat IPC_MAX_TASKS"
  shows "await_message i (s, y # ys) =
     (if pending (y s) i = [] then await_message i (y s, ys)
      else Done (upd_queue i (mq_lock_update (\<lambda>_. \<lparr>sl_lock = 1\<rparr>)) (y s), ys))"
  using ipc_okD(3) [OF assms] queue_lock_free [OF assms]
  by (subst await_message.simps) (simp add: ipc_eval pending_Nil_iff)

lemma await_message_returns:
  assumes "ipc_idle i s" "i < nat IPC_MAX_TASKS"
    and "list_all (\<lambda>y. \<forall>u. ipc_idle i u \<longrightarrow> ipc_idle i (y u)) quiet"
    and "\<And>u. ipc_idle i u \<Longrightarrow> ipc_ok (wake u) \<and> pending (wake u) i \<noteq> []"
  shows "\<exists>u. ipc_idle i u \<and> await_message i (s, quiet @ wake # rest)
     = Done (upd_queue i (mq_lock_update (\<lambda>_. \<lparr>sl_lock = 1\<rparr>)) (wake u), rest)"
  using assms(1,3)
proof (induction quiet arbitrary: s)
  case Nil
  then show ?case
    using assms(2,4) by (auto simp: await_message_step)
next
  case (Cons y ys)
  then have "ipc_idle i (y s)"
    by simp
  with Cons show ?case
    using assms(2) by (simp add: await_message_step ipc_idle_def)
qed

text \<open>The end of a receive once the waiting is over is the same as that of a receive that found a message.\<close>

lemma ipc_receive_waited:
  assumes "ipc_idle (nat t) s" "0 \<le> t" "t < IPC_MAX_TASKS" "flags AND IPC_FLAG_NOWAIT = 0"
    and "await_message (nat t) (s, ys) = Done (upd_queue (nat t) (mq_lock_update (\<lambda>_. \<lparr>sl_lock = 1\<rparr>)) u, rest)"
    and "ipc_ok u" "pending u (nat t) \<noteq> []"
  shows "ipc_receive_message t (Some buf) flags (s, ys) = ipc_receive_message t (Some buf) flags (u, rest)"
proof -
  have i: "nat t < nat IPC_MAX_TASKS"
    using assms(2,3) by simp
  have s: "ipc_ok s" "mq_count (ipc_queues s (nat t)) = 0"
    using assms(1) by (simp_all add: ipc_idle_def pending_Nil_iff)
  note free = ipc_okD(3) [OF s(1) i] ipc_okD(3) [OF assms(6) i]
  have await: "await_message (nat t) (s\<lparr>ipc_queues := ipc_queues s\<rparr>, ys)
      = Done (u\<lparr>ipc_queues := (ipc_queues u)(nat t := (ipc_queues u (nat t))\<lparr>mq_lock := \<lparr>sl_lock = 1\<rparr>\<rparr>)\<rparr>, rest)"
    using assms(5) by (simp add: upd_queue_def)
  show ?thesis
    using assms(2,3,4,7) s(2) free await
    by (simp add: ipc_receive_message_def own_queue_def ipc_eval pending_Nil_iff)
qed

lemma flush_loop_spec:
  assumes "length (mq_messages q) = MAX_MESSAGES_PER_QUEUE" "i + n \<le> MAX_MESSAGES_PER_QUEUE"
    and "\<And>j. i \<le> j \<Longrightarrow> j < i + n \<Longrightarrow> mq_messages q ! ((mq_head q + j) mod MAX_MESSAGES_PER_QUEUE) \<noteq> None"
  shows "\<exists>ms. length ms = MAX_MESSAGES_PER_QUEUE \<and> flush_loop i n q k = (q\<lparr>mq_messages := ms\<rparr>, k + n)"
  using assms
proof (induction n arbitrary: i q k)
  case 0
  then show ?case
    by (intro exI [of _ "mq_messages q"]) simp
next
  case (Suc n)
  let ?ix = "\<lambda>j. (mq_head q + j) mod MAX_MESSAGES_PER_QUEUE"
  let ?q = "q\<lparr>mq_messages := (mq_messages q)[?ix i := None]\<rparr>"
  have "?ix i \<noteq> ?ix j" if "Suc i \<le> j" "j < Suc i + n" for j
    using mod_offset_neq [of i j MAX_MESSAGES_PER_QUEUE "mq_head q"] that Suc.prems(2) by auto
  then have "\<exists>ms. length ms = MAX_MESSAGES_PER_QUEUE \<and> flush_loop (Suc i) n ?q (k + 1) = (?q\<lparr>mq_messages := ms\<rparr>, k + 1 + n)"
    using Suc.prems by (intro Suc.IH) auto
  moreover have "mq_messages q ! ?ix i \<noteq> None"
    using Suc.prems(3) by simp
  ultimately show ?case
    by (auto simp: Let_def split: option.splits)
qed

lemma mq_ok_slot:
  assumes "mq_ok q" "j < mq_count q"
  shows "mq_messages q ! ((mq_head q + j) mod MAX_MESSAGES_PER_QUEUE) \<noteq> None"
proof -
  have "ring_list (mq_messages q) (mq_head q) (mq_count q) ! j \<noteq> None"
    using assms nth_mem [of j "ring_list (mq_messages q) (mq_head q) (mq_count q)"]
    by (metis length_ring_list mq_ok_def)
  with assms show ?thesis
    by (simp add: mq_ok_def ring_ok_def nth_ring_list)
qed

lemma flush_whole_queue:
  assumes "mq_ok q"
  shows "\<exists>ms. length ms = MAX_MESSAGES_PER_QUEUE \<and> flush_loop 0 (mq_count q) q 0 = (q\<lparr>mq_messages := ms\<rparr>, mq_count q)"
proof -
  have "length (mq_messages q) = MAX_MESSAGES_PER_QUEUE" "0 + mq_count q \<le> MAX_MESSAGES_PER_QUEUE"
    using assms by (simp_all add: mq_ok_def ring_ok_def)
  from flush_loop_spec [OF this, of 0] show ?thesis
    using mq_ok_slot [OF assms] by simp
qed

section \<open>Properties\<close>

text \<open>
  C6: messages arrive once, unchanged and in order. After \<^verbatim>\<open>ipc_init\<close>, any sequence of sends,
  non-blocking receives and peeks by any tasks runs to its end, and for every task the messages
  it has received followed by the ones still queued are exactly the accepted messages addressed
  to it, in the order of acceptance, with sender, type, flags, size and bytes as sent. The
  number of live allocations equals the number of queued messages: nothing leaks and nothing
  is freed twice.
\<close>

theorem ipc_fifo:
  assumes "\<And>i. length (mq_messages (ipc_queues s i)) = MAX_MESSAGES_PER_QUEUE" "ipc_live s = 0"
    and "list_all call_ok cs"
  shows "\<exists>snt rcv s'. ipc_history cs (ipc_init s) = Done (snt, rcv, s') \<and>
     (\<forall>i < nat IPC_MAX_TASKS. for_task i rcv @ map msg_view (pending s' i) = for_task i snt \<and>
        length (pending s' i) \<le> MAX_MESSAGES_PER_QUEUE) \<and>
     ipc_live s' = (\<Sum>i < nat IPC_MAX_TASKS. length (pending s' i))"
proof -
  have ok: "ipc_ok (ipc_init s)" and empty: "\<And>i. i < nat IPC_MAX_TASKS \<Longrightarrow> pending (ipc_init s) i = []"
    using assms(1)
    by (auto simp: ipc_ok_def ipc_init_def mq_ok_def mq_list_def pending_def ring_list_def ring_ok_def ipc_consts)
  have "ipc_balanced (ipc_init s)"
    using assms(2) by (simp add: ipc_balanced_def ipc_init_def ipc_consts)
  moreover obtain snt rcv s' where "ipc_history cs (ipc_init s) = Done (snt, rcv, s')"
    "log_step (ipc_init s) snt rcv s'"
    using history_log [OF ok assms(3)] by blast
  moreover from this(2) have "length (pending s' i) \<le> MAX_MESSAGES_PER_QUEUE" if "i < nat IPC_MAX_TASKS" for i
    using that by (simp add: log_step_def ipc_ok_def mq_ok_def ring_ok_def pending_def)
  ultimately show ?thesis
    using empty by (auto simp: log_step_def ipc_balanced_def pending_def)
qed

definition blank_queue :: message_queue where
  "blank_queue = \<lparr>mq_messages = replicate MAX_MESSAGES_PER_QUEUE None, mq_head = 0, mq_tail = 0, mq_count = 0,
     mq_task_id = 0, mq_lock = \<lparr>sl_lock = 0\<rparr>\<rparr>"

definition blank_ipc :: ipc where
  "blank_ipc = \<lparr>ipc_queues = \<lambda>_. blank_queue, ipc_stats = zero_stats, ipc_live = 0\<rparr>"

definition blank_message :: ipc_message where
  "blank_message = \<lparr>im_sender = 0, im_type = 0, im_flags = 0, im_size = 0, im_data = replicate 256 0\<rparr>"

definition sample_calls :: "ipc_call list" where
  "sample_calls =
     [Send (Some (replicate 256 0)) 1 2 10 (Some [1, 2, 3]) 3 0,
      Send None 1 2 10 (Some [4]) 1 0,
      Send (Some (replicate 256 0)) 3 2 11 (Some [5]) 1 0,
      Peek 2 blank_message 0,
      Receive 2 blank_message 1]"

theorem ipc_fifo_witness:
  "\<exists>snt rcv s'. ipc_history sample_calls (ipc_init blank_ipc) = Done (snt, rcv, s') \<and>
     (\<forall>i < nat IPC_MAX_TASKS. for_task i rcv @ map msg_view (pending s' i) = for_task i snt \<and>
        length (pending s' i) \<le> MAX_MESSAGES_PER_QUEUE) \<and>
     ipc_live s' = (\<Sum>i < nat IPC_MAX_TASKS. length (pending s' i))"
  by (rule ipc_fifo) (simp_all add: blank_ipc_def blank_queue_def blank_message_def sample_calls_def ipc_consts)

text \<open>
  C7: a blocking receive waits and then delivers. On an empty queue \<^verbatim>\<open>ipc_receive_message\<close> without
  \<^verbatim>\<open>IPC_FLAG_NOWAIT\<close> keeps yielding while the queue stays empty; at the first yield after which a
  message is there it returns the oldest one, takes exactly that message out of the queue and
  leaves the lock free.
\<close>

theorem ipc_blocking_receive:
  assumes "ipc_idle (nat t) s" "0 \<le> t" "t < IPC_MAX_TASKS" "flags AND IPC_FLAG_NOWAIT = 0"
    and "length (im_data buf) = nat MAX_MESSAGE_SIZE"
    and "list_all (\<lambda>y. \<forall>u. ipc_idle (nat t) u \<longrightarrow> ipc_idle (nat t) (y u)) quiet"
    and "\<And>u. ipc_idle (nat t) u \<Longrightarrow> ipc_ok (wake u) \<and> pending (wake u) (nat t) \<noteq> []"
  shows "\<exists>u out s'. ipc_idle (nat t) u \<and>
     ipc_receive_message t (Some buf) flags (s, quiet @ wake # rest) = Done (IPC_SUCCESS, Some out, s', rest) \<and>
     msg_view out = msg_view (hd (pending (wake u) (nat t))) \<and> ipc_ok s' \<and>
     pending s' = (pending (wake u))(nat t := tl (pending (wake u) (nat t)))"
proof -
  have i: "nat t < nat IPC_MAX_TASKS"
    using assms(2,3) by simp
  obtain u where u: "ipc_idle (nat t) u" "await_message (nat t) (s, quiet @ wake # rest)
      = Done (upd_queue (nat t) (mq_lock_update (\<lambda>_. \<lparr>sl_lock = 1\<rparr>)) (wake u), rest)"
    using await_message_returns [OF assms(1) i assms(6), of wake rest] assms(7) by blast
  have w: "ipc_ok (wake u)" "pending (wake u) (nat t) \<noteq> []"
    using assms(7) [OF u(1)] by simp_all
  then have n: "0 < mq_count (ipc_queues (wake u) (nat t))"
    by (simp add: pending_Nil_iff)
  have "msg_ok (hd (pending (wake u) (nat t)))"
    using ipc_okD(2) [OF w(1) i] w(2) by (simp add: list_all_iff)
  then obtain out where out: "copy_message buf (Some (hd (pending (wake u) (nat t)))) = Done out"
    "msg_view out = msg_view (hd (pending (wake u) (nat t)))"
    using copy_message_ok assms(5) by blast
  have "ipc_receive_message t (Some buf) flags (s, quiet @ wake # rest)
      = ipc_receive_message t (Some buf) flags (wake u, rest)"
    using ipc_receive_waited [OF assms(1-4) u(2) w] .
  with ipc_receive_effect [OF w(1) assms(2,3) n out(1)] u(1) out(2) delivered(1,2) [OF w(1) i n refl]
  show ?thesis
    by metis
qed

lemma blank_ipc_idle: "ipc_idle i blank_ipc"
  by (simp add: ipc_idle_def ipc_ok_def pending_def mq_ok_def mq_list_def ring_list_def blank_ipc_def
      blank_queue_def ring_ok_def ipc_consts)

text \<open>Another task puts a message into queue 2 while task 2 is waiting.\<close>

definition sample_wake :: "ipc \<Rightarrow> ipc" where
  "sample_wake u = (upd_queue 2 (mq_enqueue blank_message) u)\<lparr>ipc_live := ipc_live u + 1, ipc_stats := ipc_stats u\<rparr>"

lemma sample_wake_delivers:
  assumes "ipc_idle 2 u"
  shows "ipc_ok (sample_wake u) \<and> pending (sample_wake u) 2 \<noteq> []"
proof -
  have "msg_ok blank_message" "mq_count (ipc_queues u 2) < MAX_MESSAGES_PER_QUEUE"
    using assms by (simp_all add: msg_ok_def blank_message_def ipc_idle_def pending_Nil_iff ipc_consts)
  then show ?thesis
    using assms accepted(1,2) [of u 2 blank_message "sample_wake u" "ipc_stats u"]
    by (simp add: ipc_idle_def sample_wake_def ipc_consts)
qed

theorem ipc_blocking_receive_witness:
  "\<exists>u out s'. ipc_idle 2 u \<and>
     ipc_receive_message 2 (Some blank_message) 0 (blank_ipc, [\<lambda>u. u, \<lambda>u. u] @ sample_wake # [])
       = Done (IPC_SUCCESS, Some out, s', []) \<and>
     msg_view out = msg_view (hd (pending (sample_wake u) 2)) \<and> ipc_ok s' \<and>
     pending s' = (pending (sample_wake u))(2 := tl (pending (sample_wake u) 2))"
  using ipc_blocking_receive [of 2 blank_ipc 0 blank_message "[\<lambda>u. u, \<lambda>u. u]" sample_wake "[]"]
    blank_ipc_idle [of 2] sample_wake_delivers
  by (simp add: blank_message_def ipc_consts)

text \<open>
  C8: flushing. \<^verbatim>\<open>ipc_flush_messages\<close> on a valid queue returns the number of messages that were
  waiting, frees each of them, leaves that queue empty and the others as they were; on an
  identifier outside the table it returns an error and changes nothing.
\<close>

theorem ipc_flush_empties:
  assumes "ipc_ok s" "task = (if t = -1 then cur else t)"
  shows "if 0 \<le> task \<and> task < IPC_MAX_TASKS
     then \<exists>s'. ipc_flush_messages cur t (s, ys) = Done (int (length (pending s (nat task))), s', ys) \<and>
          ipc_ok s' \<and> pending s' = (pending s)(nat task := []) \<and>
          ipc_live s' = ipc_live s - length (pending s (nat task))
     else ipc_flush_messages cur t (s, ys) = Done (IPC_ERR_INVALID_PARAM, s, ys)"
proof (cases "0 \<le> task \<and> task < IPC_MAX_TASKS")
  case True
  let ?i = "nat task"
  have i: "?i < nat IPC_MAX_TASKS"
    using True by simp
  note ok = ipc_okD [OF assms(1) i]
  let ?q1 = "(ipc_queues s ?i)\<lparr>mq_lock := \<lparr>sl_lock = 1\<rparr>\<rparr>"
  have "mq_ok ?q1"
    using ok(1) by simp
  from flush_whole_queue [OF this] obtain ms where ms: "length ms = MAX_MESSAGES_PER_QUEUE"
    "flush_loop 0 (mq_count ?q1) ?q1 0 = (?q1\<lparr>mq_messages := ms\<rparr>, mq_count ?q1)"
    by blast
  let ?q = "(ipc_queues s ?i)\<lparr>mq_messages := ms, mq_head := 0, mq_tail := 0, mq_count := 0, mq_lock := \<lparr>sl_lock = 0\<rparr>\<rparr>"
  let ?s' = "s\<lparr>ipc_queues := (ipc_queues s)(?i := ?q), ipc_live := ipc_live s - mq_count (ipc_queues s ?i)\<rparr>"
  have "ipc_flush_messages cur t (s, ys) = Done (int (length (pending s ?i)), ?s', ys)"
    using True ok(3) ms(2) assms(2) by (simp add: ipc_flush_messages_def ipc_eval pending_def)
  moreover have "ipc_ok ?s'" "pending ?s' = (pending s)(?i := [])"
    using assms(1) ms(1)
    by (auto simp: ipc_ok_def mq_ok_def ring_ok_def mq_list_def ring_list_def pending_def fun_eq_iff ipc_consts)
  ultimately show ?thesis
    using True by (auto simp: pending_def)
next
  case False
  then show ?thesis
    using assms(2) by (auto simp: ipc_flush_messages_def Let_def)
qed

theorem ipc_flush_empties_witness:
  "\<exists>s'. ipc_flush_messages 7 (-1) (blank_ipc, []) = Done (int (length (pending blank_ipc 7)), s', []) \<and>
     ipc_ok s' \<and> pending s' = (pending blank_ipc)(7 := []) \<and>
     ipc_live s' = ipc_live blank_ipc - length (pending blank_ipc 7)"
  using ipc_flush_empties [of blank_ipc 7 "-1" 7 "[]"] blank_ipc_idle [of 7]
  by (simp add: ipc_idle_def ipc_consts)

end
