(* ===== verification/C_Text.thy ===== *)
theory C_Text
  imports Prelude
begin

text \<open>
  What the sources use of the formatted input and output of the C library: the conversions
  \<^verbatim>\<open>%d\<close>, \<^verbatim>\<open>%u\<close> and \<^verbatim>\<open>%02x\<close> of \<^verbatim>\<open>sprintf\<close>, and \<^verbatim>\<open>%d\<close>, \<^verbatim>\<open>%u\<close> and \<^verbatim>\<open>%x\<close> of \<^verbatim>\<open>sscanf\<close>, with the
  lemmas that scanning inverts printing.
\<close>

section \<open>Printing numbers\<close>

text \<open>Decimal digits, as \<^verbatim>\<open>snprintf\<close> prints a number with \<^verbatim>\<open>%d\<close>.\<close>

fun nat_digits :: "nat \<Rightarrow> string" where
  "nat_digits n = (if n < 10 then [char_of (48 + n)] else nat_digits (n div 10) @ [char_of (48 + n mod 10)])"

declare nat_digits.simps [simp del]

definition int_digits :: "int \<Rightarrow> string" where
  "int_digits i = (if i < 0 then CHR ''-'' # nat_digits (nat (- i)) else nat_digits (nat i))"

text \<open>A byte as two lower-case hexadecimal digits, \<^verbatim>\<open>%02x\<close>.\<close>

definition hex_digit :: "nat \<Rightarrow> char" where
  "hex_digit d = (if d < 10 then char_of (48 + d) else char_of (87 + d))"

definition hex2 :: "u8 \<Rightarrow> string" where
  "hex2 b = [hex_digit (unat b div 16), hex_digit (unat b mod 16)]"

section \<open>Scanning numbers\<close>

definition is_space :: "char \<Rightarrow> bool" where
  "is_space c \<longleftrightarrow> c = CHR '' '' \<or> (9 \<le> (of_char c :: nat) \<and> (of_char c :: nat) \<le> 13)"

text \<open>The value of a digit in the given base, if the character is one.\<close>

definition digit_val :: "nat \<Rightarrow> char \<Rightarrow> nat option" where
  "digit_val base c =
     (let k = of_char c :: nat;
          d = (if 48 \<le> k \<and> k \<le> 57 then k - 48
               else if 97 \<le> k \<and> k \<le> 102 then k - 87
               else if 65 \<le> k \<and> k \<le> 70 then k - 55 else base)
      in if d < base then Some d else None)"

fun scan_digits :: "nat \<Rightarrow> string \<Rightarrow> nat \<Rightarrow> nat \<times> string" where
  "scan_digits base [] n = (n, [])"
| "scan_digits base (c # cs) n =
     (case digit_val base c of None \<Rightarrow> (n, c # cs) | Some d \<Rightarrow> scan_digits base cs (base * n + d))"

text \<open>At least one digit.\<close>

definition scan_nat :: "nat \<Rightarrow> string \<Rightarrow> (nat \<times> string) option" where
  "scan_nat base cs =
     (case cs of [] \<Rightarrow> None
      | c # _ \<Rightarrow> (case digit_val base c of None \<Rightarrow> None | Some _ \<Rightarrow> Some (scan_digits base cs 0)))"

text \<open>An optional \<^verbatim>\<open>0x\<close> before hexadecimal digits.\<close>

fun skip_0x :: "string \<Rightarrow> string" where
  "skip_0x (a # b # cs) = (if a = CHR ''0'' \<and> (b = CHR ''x'' \<or> b = CHR ''X'') then cs else a # b # cs)"
| "skip_0x cs = cs"

text \<open>
  One conversion: white space is skipped, a sign may precede the digits, and at least one digit
  is needed. The result is the number and the rest of the input.
\<close>

definition scan_num :: "nat \<Rightarrow> string \<Rightarrow> (int \<times> string) option" where
  "scan_num base input =
     (let prefix = (if base = 16 then skip_0x else id);
          number = (\<lambda>sign cs. map_option (\<lambda>(n, rest). (sign * int n, rest)) (scan_nat base (prefix cs)))
      in case dropWhile is_space input of
           [] \<Rightarrow> None
         | c # cs \<Rightarrow> (if c = CHR ''-'' then number (- 1) cs
                     else if c = CHR ''+'' then number 1 cs else number 1 (c # cs)))"

text \<open>An ordinary character of the format matches exactly itself.\<close>

definition scan_char :: "char \<Rightarrow> string \<Rightarrow> string option" where
  "scan_char c cs = (case cs of [] \<Rightarrow> None | d # ds \<Rightarrow> if c = d then Some ds else None)"

text \<open>
  \<open>n\<close> numbers separated by \<open>sep\<close>, as in \<^verbatim>\<open>"%d.%d.%d.%d"\<close>: all of them, or nothing when \<^verbatim>\<open>sscanf\<close>
  converts fewer than \<open>n\<close>. Converting a number that does not fit the type of the variable is
  undefined.
\<close>

definition fits_int :: "int \<Rightarrow> bool" where
  "fits_int v \<longleftrightarrow> - (2 ^ 31) \<le> v \<and> v \<le> INT_MAX"

definition fits_unsigned :: "int \<Rightarrow> bool" where
  "fits_unsigned v \<longleftrightarrow> \<bar>v\<bar> < 2 ^ 32"

fun scan_list :: "(int \<Rightarrow> bool) \<Rightarrow> nat \<Rightarrow> char \<Rightarrow> nat \<Rightarrow> string \<Rightarrow> int list option run" where
  "scan_list fits base sep 0 cs = Done (Some [])"
| "scan_list fits base sep (Suc n) cs =
     (case scan_num base cs of
        None \<Rightarrow> Done None
      | Some (v, rest) \<Rightarrow>
          if \<not> fits v then Fault
          else if n = 0 then Done (Some [v])
          else (case scan_char sep rest of
              None \<Rightarrow> Done None
            | Some rest' \<Rightarrow> rmap (map_option (\<lambda>vs. v # vs)) (scan_list fits base sep n rest')))"

section \<open>Scanning inverts printing\<close>

definition ends_number :: "nat \<Rightarrow> string \<Rightarrow> bool" where
  "ends_number base cs \<longleftrightarrow> (case cs of [] \<Rightarrow> True | c # _ \<Rightarrow> digit_val base c = None)"

lemma digit_val_dec: "d < 10 \<Longrightarrow> digit_val 10 (char_of (48 + d)) = Some d"
  by (simp add: digit_val_def)

lemma scan_digits_end: "ends_number base cs \<Longrightarrow> scan_digits base cs n = (n, cs)"
  by (cases cs) (auto simp: ends_number_def split: option.splits)

lemma scan_digits_nat:
  "scan_digits 10 (nat_digits k @ cs) n = scan_digits 10 cs (10 ^ length (nat_digits k) * n + k)"
proof (induction k arbitrary: n cs rule: nat_digits.induct)
  case (1 k)
  show ?case
  proof (cases "k < 10")
    case True
    then show ?thesis
      by (simp add: nat_digits.simps [of k] digit_val_dec)
  next
    case False
    have "k mod 10 < 10"
      by simp
    moreover have "10 * (k div 10) + k mod 10 = k"
      by simp
    ultimately show ?thesis
      using False 1 [OF False, of "char_of (48 + k mod 10) # cs" n]
      by (simp add: nat_digits.simps [of k] digit_val_dec algebra_simps)
  qed
qed

lemma nat_digits_Cons: "\<exists>c cs d. nat_digits k = c # cs \<and> c = char_of (48 + d) \<and> d < (10::nat)"
proof (induction k rule: nat_digits.induct)
  case (1 k)
  then show ?case
    by (cases "k < 10") (auto simp: nat_digits.simps [of k] intro: exI [of _ k])
qed

lemma scan_num_nat_digits:
  assumes "ends_number 10 cs"
  shows "scan_num 10 (nat_digits k @ cs) = Some (int k, cs)"
proof -
  obtain c ds and d :: nat where k: "nat_digits k = c # ds" "c = char_of (48 + d)" "d < 10"
    using nat_digits_Cons by blast
  then have "(of_char c :: nat) = 48 + d"
    by simp
  then have c: "\<not> is_space c" "c \<noteq> CHR ''-''" "c \<noteq> CHR ''+''"
    using k(3) by (auto simp: is_space_def)
  have "scan_nat 10 (nat_digits k @ cs) = Some (scan_digits 10 (nat_digits k @ cs) 0)"
    unfolding scan_nat_def using k(1) digit_val_dec [OF k(3)] k(2) by simp
  also have "\<dots> = Some (k, cs)"
    using scan_digits_nat [of k cs 0] scan_digits_end [OF assms] by simp
  finally show ?thesis
    using c k(1) by (simp add: scan_num_def)
qed

lemma hex_digit_val: "d < 16 \<Longrightarrow> digit_val 16 (hex_digit d) = Some d"
  by (simp add: digit_val_def hex_digit_def)

lemma hex_digit_plain:
  assumes "d < 16"
  shows "\<not> is_space (hex_digit d)" "hex_digit d \<noteq> CHR ''-''" "hex_digit d \<noteq> CHR ''+''"
    "hex_digit d \<noteq> CHR ''x''" "hex_digit d \<noteq> CHR ''X''"
proof -
  have "(of_char (hex_digit d) :: nat) = (if d < 10 then 48 + d else 87 + d)"
    using assms by (simp add: hex_digit_def)
  then show "\<not> is_space (hex_digit d)" "hex_digit d \<noteq> CHR ''-''" "hex_digit d \<noteq> CHR ''+''"
    "hex_digit d \<noteq> CHR ''x''" "hex_digit d \<noteq> CHR ''X''"
    using assms by (auto simp: is_space_def split: if_splits)
qed

lemma scan_num_hex2:
  assumes "ends_number 16 cs"
  shows "scan_num 16 (hex2 b @ cs) = Some (uint b, cs)"
proof -
  have b: "unat b div 16 < 16" "unat b mod 16 < 16" "unat b div 16 * 16 + unat b mod 16 = unat b"
    using unsigned_less [of b, where 'a = nat] by (simp_all add: less_mult_imp_div_less)
  then have "scan_nat 16 (hex2 b @ cs) = Some (unat b, cs)"
    using scan_digits_end [OF assms]
    by (simp add: scan_nat_def hex2_def hex_digit_val mult.commute)
  with b hex_digit_plain [OF b(1)] hex_digit_plain [OF b(2)] show ?thesis
    by (simp add: scan_num_def hex2_def)
qed

end
