(* ===== verification/Scheduler.thy ===== *)
theory Scheduler
  imports Ring_Buffer Sync C_Text
begin

text \<open>
  The priority scheduler, \<^verbatim>\<open>kernel/scheduler.c\<close>, with the task structure and the two functions of
  \<^verbatim>\<open>kernel/task.c\<close> that it calls.

  Task structures live in an explicit store from addresses to tasks; a pointer to a task is an
  address, and following one that is not allocated is a \<open>Fault\<close>. The ready queues and the
  per-processor queues are arrays of pointers used as ring buffers. The singly linked lists of
  sleeping tasks and of waiting parents are lists in the order of the links; \<^verbatim>\<open>heap_alloc\<close> results
  are arguments. The variables that callers pass for an exit code are cells of \<open>sc_ints\<close>. Calls
  to the assembly routine \<^verbatim>\<open>task_context_switch\<close> and to \<^verbatim>\<open>vmm_destroy_process_space\<close> are recorded
  in \<open>sc_context_switches\<close> and \<open>sc_destroyed_spaces\<close>.
\<close>

section \<open>Data\<close>

type_synonym tptr = nat

definition MAX_TASKS :: nat where "MAX_TASKS = 256"
definition MAX_PRIORITY :: nat where "MAX_PRIORITY = 32"
definition TIME_SLICE_BASE :: u32 where "TIME_SLICE_BASE = 10"
definition TIME_SLICE_PRIORITY_FACTOR :: u32 where "TIME_SLICE_PRIORITY_FACTOR = 2"
definition MAX_CPUS :: nat where "MAX_CPUS = 16"
definition MILLISECONDS_PER_TICK :: nat where "MILLISECONDS_PER_TICK = 10"
definition DEFAULT_STACK_SIZE :: u32 where "DEFAULT_STACK_SIZE = 8192"
definition PRIORITY_NORMAL :: u32 where "PRIORITY_NORMAL = 16"

definition TASK_STATE_UNUSED :: u32 where "TASK_STATE_UNUSED = 0"
definition TASK_STATE_READY :: u32 where "TASK_STATE_READY = 1"
definition TASK_STATE_RUNNING :: u32 where "TASK_STATE_RUNNING = 2"
definition TASK_STATE_BLOCKED :: u32 where "TASK_STATE_BLOCKED = 3"
definition TASK_STATE_SUSPENDED :: u32 where "TASK_STATE_SUSPENDED = 4"
definition TASK_STATE_ZOMBIE :: u32 where "TASK_STATE_ZOMBIE = 5"

definition SCHEDULER_ALGORITHM_ROUND_ROBIN :: int where "SCHEDULER_ALGORITHM_ROUND_ROBIN = 0"
definition SCHEDULER_ALGORITHM_PRIORITY :: int where "SCHEDULER_ALGORITHM_PRIORITY = 1"

lemmas task_states = TASK_STATE_UNUSED_def TASK_STATE_READY_def TASK_STATE_RUNNING_def
  TASK_STATE_BLOCKED_def TASK_STATE_SUSPENDED_def TASK_STATE_ZOMBIE_def

lemmas sched_consts = MAX_TASKS_def MAX_PRIORITY_def TIME_SLICE_BASE_def
  TIME_SLICE_PRIORITY_FACTOR_def MAX_CPUS_def MILLISECONDS_PER_TICK_def DEFAULT_STACK_SIZE_def
  SCHEDULER_ALGORITHM_ROUND_ROBIN_def SCHEDULER_ALGORITHM_PRIORITY_def

record task_context =
  cx_address :: u32
  cx_edi :: u32
  cx_esi :: u32
  cx_ebx :: u32
  cx_ebp :: u32
  cx_eip :: u32

text \<open>
  \<^verbatim>\<open>task_t\<close>, without the fields that no function of \<^verbatim>\<open>scheduler.c\<close> and \<^verbatim>\<open>task.c\<close> uses (the saved
  registers, the kernel and user stacks, the task state segment).
\<close>

record task =
  tk_id :: int
  tk_state :: u32
  tk_flags :: u32
  tk_privilege_level :: u32
  tk_priority :: u32
  tk_time_slice :: int
  tk_stack_size :: u32
  tk_name :: string
  tk_stack :: "u32 option"
  tk_entry_point :: u32
  tk_security_token :: "nat option"
  tk_security_descriptor :: "nat option"
  tk_exit_code :: int
  tk_parent_id :: int
  tk_cpu_time_used :: u64
  tk_creation_time :: u64
  tk_last_run_time :: u64
  tk_context :: "task_context option"

record task_queue =
  tq_tasks :: "tptr option list"
  tq_head :: nat
  tq_tail :: nat
  tq_count :: nat

record sleeping_task =
  st_task :: tptr
  st_wake_time :: u64

record waiting_parent =
  wp_parent_id :: int
  wp_child_id :: int
  wp_exit_code_ptr :: "nat option"
  wp_options :: int

record cpu_state =
  cs_current_task :: "tptr option"
  cs_is_active :: bool
  cs_total_switches :: u64
  cs_idle_ticks :: u64
  cs_local_queue :: task_queue

record sched =
  sc_ready_queues :: "nat \<Rightarrow> task_queue"
  sc_sleeping_tasks :: "sleeping_task list"
  sc_waiting_parents :: "waiting_parent list"
  sc_idle_task :: "tptr option"
  sc_lock :: spinlock
  sc_preemption_enabled :: bool
  sc_total_switches :: u64
  sc_scheduler_ticks :: u64
  sc_next_task_id :: int
  sc_algorithm :: int
  sc_quantum_ms :: u32
  sc_num_cpus :: nat
  sc_cpu_states :: "nat \<Rightarrow> cpu_state"
  sc_smp_lock :: spinlock
  sc_load_balance_counter :: int
  sc_tasks :: "tptr \<rightharpoonup> task"
  sc_ints :: "nat \<Rightarrow> int"
  sc_context_switches :: "(tptr \<times> tptr) list"
  sc_destroyed_spaces :: "int list"

definition sched_lock_ref :: "(sched, spinlock) lref" where
  "sched_lock_ref = \<lparr>lget = sc_lock, lput = \<lambda>v s. s\<lparr>sc_lock := v\<rparr>\<rparr>"

definition smp_lock_ref :: "(sched, spinlock) lref" where
  "smp_lock_ref = \<lparr>lget = sc_smp_lock, lput = \<lambda>v s. s\<lparr>sc_smp_lock := v\<rparr>\<rparr>"

text \<open>Following a task pointer, and writing through one.\<close>

definition deref :: "tptr \<Rightarrow> sched \<Rightarrow> task run" where
  "deref p s = (case sc_tasks s p of None \<Rightarrow> Fault | Some t \<Rightarrow> Done t)"

definition upd_task :: "tptr \<Rightarrow> (task \<Rightarrow> task) \<Rightarrow> sched \<Rightarrow> sched run" where
  "upd_task p f s = rbind (deref p s) (\<lambda>t. Done (s\<lparr>sc_tasks := (sc_tasks s)(p \<mapsto> f t)\<rparr>))"

section \<open>Initialisation\<close>

definition zero_queue :: task_queue where
  "zero_queue = \<lparr>tq_tasks = replicate MAX_TASKS None, tq_head = 0, tq_tail = 0, tq_count = 0\<rparr>"

definition zero_cpu :: cpu_state where
  "zero_cpu = \<lparr>cs_current_task = None, cs_is_active = False, cs_total_switches = 0, cs_idle_ticks = 0,
     cs_local_queue = zero_queue\<rparr>"

text \<open>\<^verbatim>\<open>memset\<close> of the whole structure, then the non-zero fields.\<close>

definition scheduler_init :: "sched \<Rightarrow> sched" where
  "scheduler_init s =
     s\<lparr>sc_ready_queues := \<lambda>_. zero_queue,
       sc_sleeping_tasks := [],
       sc_waiting_parents := [],
       sc_idle_task := None,
       sc_lock := \<lparr>sl_lock = 0\<rparr>,
       sc_preemption_enabled := False,
       sc_total_switches := 0,
       sc_scheduler_ticks := 0,
       sc_next_task_id := 1,
       sc_algorithm := SCHEDULER_ALGORITHM_PRIORITY,
       sc_quantum_ms := TIME_SLICE_BASE,
       sc_num_cpus := 1,
       sc_cpu_states := (\<lambda>_. zero_cpu)(0 := zero_cpu\<lparr>cs_is_active := True\<rparr>),
       sc_smp_lock := \<lparr>sl_lock = 0\<rparr>,
       sc_load_balance_counter := 0\<rparr>"

definition clamp_cpus :: "int \<Rightarrow> nat" where
  "clamp_cpus num_cpus =
     (let num_cpus = (if num_cpus \<le> 0 then 1 else num_cpus)
      in nat (if num_cpus > int MAX_CPUS then int MAX_CPUS else num_cpus))"

definition reset_cpu :: "cpu_state \<Rightarrow> cpu_state" where
  "reset_cpu c =
     c\<lparr>cs_is_active := True, cs_current_task := None, cs_total_switches := 0, cs_idle_ticks := 0,
       cs_local_queue := (cs_local_queue c)\<lparr>tq_head := 0, tq_tail := 0, tq_count := 0\<rparr>\<rparr>"

definition reset_cpus :: "nat \<Rightarrow> sched \<Rightarrow> sched" where
  "reset_cpus n s =
     s\<lparr>sc_num_cpus := n,
       sc_cpu_states := (\<lambda>i. if i < n then reset_cpu (sc_cpu_states s i) else sc_cpu_states s i)\<rparr>"

definition scheduler_init_smp :: "int \<Rightarrow> sched world \<Rightarrow> sched world run" where
  "scheduler_init_smp num_cpus w =
     rbind (spinlock_acquire (Some smp_lock_ref) w) (\<lambda>(s, ys).
       Done (spinlock_release (Some smp_lock_ref) (reset_cpus (clamp_cpus num_cpus) s), ys))"

section \<open>Queues\<close>

definition tq_push :: "tptr option \<Rightarrow> task_queue \<Rightarrow> task_queue" where
  "tq_push task q =
     q\<lparr>tq_tasks := (tq_tasks q)[tq_tail q := task],
       tq_tail := (tq_tail q + 1) mod MAX_TASKS,
       tq_count := tq_count q + 1\<rparr>"

definition tq_first :: "task_queue \<Rightarrow> tptr option" where
  "tq_first q = tq_tasks q ! tq_head q"

definition tq_pop :: "task_queue \<Rightarrow> task_queue" where
  "tq_pop q = q\<lparr>tq_head := (tq_head q + 1) mod MAX_TASKS, tq_count := tq_count q - 1\<rparr>"

text \<open>The queue a priority selects: the unsigned priority converted to a signed value and clamped.\<close>

definition clamp_priority :: "u32 \<Rightarrow> nat" where
  "clamp_priority priority =
     (let p = sint priority;
          p = (if p \<ge> int MAX_PRIORITY then int MAX_PRIORITY - 1 else p);
          p = (if p < 0 then 0 else p)
      in nat p)"

definition scheduler_add_task :: "tptr option \<Rightarrow> sched \<Rightarrow> sched run" where
  "scheduler_add_task task s =
     (case task of
        None \<Rightarrow> Done s
      | Some p \<Rightarrow>
          rbind (deref p s) (\<lambda>t.
            let priority = clamp_priority (tk_priority t);
                queue = sc_ready_queues s priority
            in if tq_count queue < MAX_TASKS
               then Done (s\<lparr>sc_ready_queues := (sc_ready_queues s)(priority := tq_push task queue)\<rparr>)
               else Done s))"

text \<open>
  The search of one queue for a task identifier, from position \<open>i\<close>, with \<open>n\<close> positions left: the
  position and the pointer found.
\<close>

fun tq_search :: "(tptr \<rightharpoonup> task) \<Rightarrow> int \<Rightarrow> task_queue \<Rightarrow> nat \<Rightarrow> nat \<Rightarrow> (nat \<times> tptr) option run" where
  "tq_search store task_id q i 0 = Done None"
| "tq_search store task_id q i (Suc n) =
     (case tq_tasks q ! ((tq_head q + i) mod MAX_TASKS) of
        None \<Rightarrow> tq_search store task_id q (i + 1) n
      | Some p \<Rightarrow>
          (case store p of
             None \<Rightarrow> Fault
           | Some t \<Rightarrow> if tk_id t = task_id then Done (Some (i, p)) else tq_search store task_id q (i + 1) n))"

fun ready_search ::
  "(tptr \<rightharpoonup> task) \<Rightarrow> int \<Rightarrow> (nat \<Rightarrow> task_queue) \<Rightarrow> nat \<Rightarrow> nat \<Rightarrow> (nat \<times> nat \<times> tptr) option run" where
  "ready_search store task_id queues priority 0 = Done None"
| "ready_search store task_id queues priority (Suc n) =
     rbind (tq_search store task_id (queues priority) 0 (tq_count (queues priority))) (\<lambda>found.
       case found of
         Some (i, p) \<Rightarrow> Done (Some (priority, i, p))
       | None \<Rightarrow> ready_search store task_id queues (priority + 1) n)"

text \<open>Moving the later entries one place forward: \<open>n\<close> entries from position \<open>j\<close>.\<close>

fun tq_shift :: "nat \<Rightarrow> nat \<Rightarrow> task_queue \<Rightarrow> task_queue" where
  "tq_shift j 0 q = q"
| "tq_shift j (Suc n) q =
     (let curr_idx = (tq_head q + j) mod MAX_TASKS;
          next_idx = (tq_head q + j + 1) mod MAX_TASKS
      in tq_shift (j + 1) n (q\<lparr>tq_tasks := (tq_tasks q)[curr_idx := tq_tasks q ! next_idx]\<rparr>))"

definition tq_remove :: "nat \<Rightarrow> task_queue \<Rightarrow> task_queue" where
  "tq_remove i q =
     (let q = tq_shift i (tq_count q - 1 - i) q
      in q\<lparr>tq_count := tq_count q - 1, tq_tail := (tq_tail q + MAX_TASKS - 1) mod MAX_TASKS\<rparr>)"

definition scheduler_remove_task_from_ready_queue :: "int \<Rightarrow> sched \<Rightarrow> sched run" where
  "scheduler_remove_task_from_ready_queue task_id s =
     rbind (ready_search (sc_tasks s) task_id (sc_ready_queues s) 0 MAX_PRIORITY) (\<lambda>found.
       case found of
         None \<Rightarrow> Done s
       | Some (priority, i, p) \<Rightarrow>
           Done (s\<lparr>sc_ready_queues :=
             (sc_ready_queues s)(priority := tq_remove i (sc_ready_queues s priority))\<rparr>))"

fun next_task_loop :: "nat \<Rightarrow> nat \<Rightarrow> sched \<Rightarrow> tptr option \<times> sched" where
  "next_task_loop priority 0 s = (sc_idle_task s, s)"
| "next_task_loop priority (Suc n) s =
     (let queue = sc_ready_queues s priority in
      if tq_count queue > 0
      then (tq_first queue, s\<lparr>sc_ready_queues := (sc_ready_queues s)(priority := tq_pop queue)\<rparr>)
      else next_task_loop (priority + 1) n s)"

definition scheduler_get_next_task :: "sched \<Rightarrow> tptr option \<times> sched" where
  "scheduler_get_next_task s = next_task_loop 0 MAX_PRIORITY s"

definition scheduler_register_idle_task :: "tptr \<Rightarrow> sched \<Rightarrow> sched run" where
  "scheduler_register_idle_task idle_task s =
     upd_task idle_task (\<lambda>t. t\<lparr>tk_state := TASK_STATE_READY, tk_priority := of_nat MAX_PRIORITY - 1\<rparr>)
       (s\<lparr>sc_idle_task := Some idle_task\<rparr>)"

section \<open>Finding tasks\<close>

definition scheduler_get_current_cpu :: nat where
  "scheduler_get_current_cpu = 0"

definition scheduler_get_current_task :: "sched \<Rightarrow> tptr option" where
  "scheduler_get_current_task s = cs_current_task (sc_cpu_states s scheduler_get_current_cpu)"

fun cpu_search :: "(tptr \<rightharpoonup> task) \<Rightarrow> int \<Rightarrow> (nat \<Rightarrow> cpu_state) \<Rightarrow> nat \<Rightarrow> nat \<Rightarrow> tptr option run" where
  "cpu_search store task_id cpus i 0 = Done None"
| "cpu_search store task_id cpus i (Suc n) =
     (case cs_current_task (cpus i) of
        None \<Rightarrow> cpu_search store task_id cpus (i + 1) n
      | Some p \<Rightarrow>
          (case store p of
             None \<Rightarrow> Fault
           | Some t \<Rightarrow> if tk_id t = task_id then Done (Some p) else cpu_search store task_id cpus (i + 1) n))"

fun sleep_search :: "(tptr \<rightharpoonup> task) \<Rightarrow> int \<Rightarrow> sleeping_task list \<Rightarrow> tptr option run" where
  "sleep_search store task_id [] = Done None"
| "sleep_search store task_id (e # es) =
     (case store (st_task e) of
        None \<Rightarrow> Fault
      | Some t \<Rightarrow> if tk_id t = task_id then Done (Some (st_task e)) else sleep_search store task_id es)"

definition scheduler_find_task_by_id :: "int \<Rightarrow> sched \<Rightarrow> tptr option run" where
  "scheduler_find_task_by_id task_id s =
     rbind (cpu_search (sc_tasks s) task_id (sc_cpu_states s) 0 (sc_num_cpus s)) (\<lambda>running.
     case running of
       Some p \<Rightarrow> Done (Some p)
     | None \<Rightarrow>
         rbind (ready_search (sc_tasks s) task_id (sc_ready_queues s) 0 MAX_PRIORITY) (\<lambda>ready.
         case ready of
           Some (_, _, p) \<Rightarrow> Done (Some p)
         | None \<Rightarrow> sleep_search (sc_tasks s) task_id (sc_sleeping_tasks s)))"

section \<open>Creating tasks\<close>

text \<open>
  \<^verbatim>\<open>task_setup_context\<close>: a context at the top of the stack. \<^verbatim>\<open>sizeof(task_context_t)\<close> is 20.
\<close>

definition task_setup_context :: "tptr \<Rightarrow> sched \<Rightarrow> sched run" where
  "task_setup_context p s =
     rbind (deref p s) (\<lambda>t.
       case tk_stack t of
         None \<Rightarrow> Done s
       | Some stack \<Rightarrow>
           upd_task p (\<lambda>t. t\<lparr>tk_context := Some
             \<lparr>cx_address = stack + tk_stack_size t - 20, cx_edi = 0, cx_esi = 0, cx_ebx = 0,
              cx_ebp = stack + tk_stack_size t - 20 - 32, cx_eip = tk_entry_point t\<rparr>\<rparr>) s)"

definition task_name_of :: "string option \<Rightarrow> int \<Rightarrow> string" where
  "task_name_of name task_id =
     take 63 (case name of Some nm \<Rightarrow> nm | None \<Rightarrow> ''Task_'' @ int_digits task_id)"

text \<open>The identifier of the current task, 0 when there is none.\<close>

definition current_id :: "sched \<Rightarrow> int run" where
  "current_id s =
     (case scheduler_get_current_task s of
        None \<Rightarrow> Done 0
      | Some c \<Rightarrow> rbind (deref c s) (\<lambda>t. Done (tk_id t)))"

definition initial_task :: "int \<Rightarrow> int \<Rightarrow> u32 option \<Rightarrow> u32 \<Rightarrow> string option \<Rightarrow> u32 \<Rightarrow> u32 \<Rightarrow> task" where
  "initial_task task_id parent stack_mem entry_point name priority flags =
     \<lparr>tk_id = task_id, tk_state = TASK_STATE_READY, tk_flags = flags, tk_privilege_level = 0,
      tk_priority = priority, tk_time_slice = 0, tk_stack_size = DEFAULT_STACK_SIZE,
      tk_name = task_name_of name task_id, tk_stack = stack_mem, tk_entry_point = entry_point,
      tk_security_token = None, tk_security_descriptor = None, tk_exit_code = 0,
      tk_parent_id = parent, tk_cpu_time_used = 0, tk_creation_time = 0,
      tk_last_run_time = 0, tk_context = None\<rparr>"

text \<open>\<open>task_mem\<close> and \<open>stack_mem\<close> are what the two \<^verbatim>\<open>heap_alloc\<close> calls return.\<close>

definition scheduler_create_task ::
  "tptr option \<Rightarrow> u32 option \<Rightarrow> u32 \<Rightarrow> string option \<Rightarrow> u32 \<Rightarrow> u32 \<Rightarrow> sched world \<Rightarrow> (int \<times> sched world) run" where
  "scheduler_create_task task_mem stack_mem entry_point name priority flags w =
     rbind (spinlock_acquire (Some sched_lock_ref) w) (\<lambda>(s, ys).
       case task_mem of
         None \<Rightarrow> Done (-1, spinlock_release (Some sched_lock_ref) s, ys)
       | Some p \<Rightarrow>
           (let task_id = sc_next_task_id s;
                s = s\<lparr>sc_next_task_id := i32 (task_id + 1)\<rparr>
            in rbind (current_id s) (\<lambda>parent.
               let new = initial_task task_id parent stack_mem entry_point name priority flags
               in if stack_mem = None
                  then Done (-1, spinlock_release (Some sched_lock_ref) (s\<lparr>sc_tasks := (sc_tasks s)(p := None)\<rparr>), ys)
                  else rbind (rbind (task_setup_context p (s\<lparr>sc_tasks := (sc_tasks s)(p \<mapsto> new)\<rparr>))
                                (scheduler_add_task (Some p))) (\<lambda>s.
                         Done (task_id, spinlock_release (Some sched_lock_ref) s, ys)))))"

section \<open>Blocking, sleeping and waking\<close>

text \<open>Make a blocked task ready; used by every wake-up path.\<close>

definition wake_if_blocked :: "tptr \<Rightarrow> sched \<Rightarrow> sched run" where
  "wake_if_blocked p s =
     rbind (deref p s) (\<lambda>t.
       if tk_state t = TASK_STATE_BLOCKED
       then rbind (upd_task p (\<lambda>t. t\<lparr>tk_state := TASK_STATE_READY\<rparr>) s) (scheduler_add_task (Some p))
       else Done s)"

definition scheduler_unblock_task :: "int \<Rightarrow> sched world \<Rightarrow> sched world run" where
  "scheduler_unblock_task task_id w =
     rbind (spinlock_acquire (Some sched_lock_ref) w) (\<lambda>(s, ys).
     rbind (scheduler_find_task_by_id task_id s) (\<lambda>task.
     rbind (case task of None \<Rightarrow> Done s | Some p \<Rightarrow> wake_if_blocked p s) (\<lambda>s.
       Done (spinlock_release (Some sched_lock_ref) s, ys))))"

text \<open>Insertion before the first entry that wakes later.\<close>

fun insert_sleeping :: "sleeping_task \<Rightarrow> sleeping_task list \<Rightarrow> sleeping_task list" where
  "insert_sleeping e [] = [e]"
| "insert_sleeping e (x # xs) =
     (if st_wake_time x > st_wake_time e then e # x # xs else x # insert_sleeping e xs)"

definition scheduler_add_sleeping_task :: "bool \<Rightarrow> tptr option \<Rightarrow> u64 \<Rightarrow> sched \<Rightarrow> sched run" where
  "scheduler_add_sleeping_task alloc_ok task wake_time_ms s =
     (case task of
        None \<Rightarrow> Done s
      | Some p \<Rightarrow>
          (let wake_time = sc_scheduler_ticks s + wake_time_ms div of_nat MILLISECONDS_PER_TICK in
           if \<not> alloc_ok then Done s
           else upd_task p (\<lambda>t. t\<lparr>tk_state := TASK_STATE_BLOCKED\<rparr>)
                  (s\<lparr>sc_sleeping_tasks :=
                       insert_sleeping \<lparr>st_task = p, st_wake_time = wake_time\<rparr> (sc_sleeping_tasks s)\<rparr>)))"

text \<open>One pass over the sleeping list: the entries that stay, and the state with the others woken.\<close>

fun check_sleeping_loop :: "sleeping_task list \<Rightarrow> sched \<Rightarrow> (sleeping_task list \<times> sched) run" where
  "check_sleeping_loop [] s = Done ([], s)"
| "check_sleeping_loop (e # es) s =
     (if st_wake_time e \<le> sc_scheduler_ticks s
      then rbind (wake_if_blocked (st_task e) s) (check_sleeping_loop es)
      else rbind (check_sleeping_loop es s) (\<lambda>(kept, s). Done (e # kept, s)))"

definition scheduler_check_sleeping_tasks :: "sched \<Rightarrow> sched run" where
  "scheduler_check_sleeping_tasks s =
     rbind (check_sleeping_loop (sc_sleeping_tasks s) s) (\<lambda>(kept, s). Done (s\<lparr>sc_sleeping_tasks := kept\<rparr>))"

section \<open>Scheduling\<close>

definition scheduler_smp_get_target_cpu :: "sched \<Rightarrow> nat" where
  "scheduler_smp_get_target_cpu s =
     (if sc_num_cpus s \<le> 1 then 0
      else fst (foldl (\<lambda>(target_cpu, min_tasks) i.
                         let cpu_tasks = int (tq_count (cs_local_queue (sc_cpu_states s i))) in
                         if cs_is_active (sc_cpu_states s i) \<and> cpu_tasks < min_tasks
                         then (i, cpu_tasks) else (target_cpu, min_tasks))
                  (0, INT_MAX) [0..<sc_num_cpus s]))"

text \<open>The scan of \<^verbatim>\<open>scheduler_load_balance\<close>: (max tasks, max cpu, min tasks, min cpu).\<close>

fun scan_step :: "sched \<Rightarrow> int \<times> nat \<times> int \<times> nat \<Rightarrow> nat \<Rightarrow> int \<times> nat \<times> int \<times> nat" where
  "scan_step s (max_tasks, max_cpu, min_tasks, min_cpu) i =
     (if cs_is_active (sc_cpu_states s i)
      then (let cpu_tasks = int (tq_count (cs_local_queue (sc_cpu_states s i))) in
            (if cpu_tasks > max_tasks then cpu_tasks else max_tasks,
             if cpu_tasks > max_tasks then i else max_cpu,
             if cpu_tasks < min_tasks then cpu_tasks else min_tasks,
             if cpu_tasks < min_tasks then i else min_cpu))
      else (max_tasks, max_cpu, min_tasks, min_cpu))"

definition balance_scan :: "sched \<Rightarrow> int \<times> nat \<times> int \<times> nat" where
  "balance_scan s = foldl (scan_step s) (0, 0, INT_MAX, 0) [0..<sc_num_cpus s]"

definition upd_local :: "nat \<Rightarrow> (task_queue \<Rightarrow> task_queue) \<Rightarrow> sched \<Rightarrow> sched" where
  "upd_local i f s =
     s\<lparr>sc_cpu_states := (sc_cpu_states s)
       (i := (sc_cpu_states s i)\<lparr>cs_local_queue := f (cs_local_queue (sc_cpu_states s i))\<rparr>)\<rparr>"

definition local_queue :: "nat \<Rightarrow> sched \<Rightarrow> task_queue" where
  "local_queue i s = cs_local_queue (sc_cpu_states s i)"

text \<open>
  The log message of a migration reads the task's fields, so the pointer is followed.
\<close>

definition scheduler_load_balance :: "sched \<Rightarrow> sched run" where
  "scheduler_load_balance s =
     (if sc_num_cpus s \<le> 1 then Done s
      else
        (let (max_tasks, max_cpu, min_tasks, min_cpu) = balance_scan s in
         if max_tasks > min_tasks + 2 \<and> max_cpu \<noteq> min_cpu \<and> tq_count (local_queue max_cpu s) > 0
         then (let task = tq_first (local_queue max_cpu s);
                   s = upd_local max_cpu tq_pop s
               in if tq_count (local_queue min_cpu s) < MAX_TASKS
                  then (case task of
                          None \<Rightarrow> Fault
                        | Some p \<Rightarrow> rbind (deref p s) (\<lambda>_. Done (upd_local min_cpu (tq_push task) s)))
                  else Done (upd_local max_cpu (tq_push task) s))
         else Done s))"

text \<open>The time slice: unsigned 32-bit arithmetic, stored in a signed variable.\<close>

definition time_slice_for :: "int \<Rightarrow> u32 \<Rightarrow> u32 \<Rightarrow> int" where
  "time_slice_for algorithm quantum_ms priority =
     sint (if algorithm = SCHEDULER_ALGORITHM_ROUND_ROBIN
           then quantum_ms div of_nat MILLISECONDS_PER_TICK
           else quantum_ms div of_nat MILLISECONDS_PER_TICK
                + (of_nat MAX_PRIORITY - 1 - priority) * TIME_SLICE_PRIORITY_FACTOR)"

text \<open>The running task goes back into its queue.\<close>

definition requeue_current :: "sched \<Rightarrow> sched run" where
  "requeue_current s =
     (case scheduler_get_current_task s of
        None \<Rightarrow> Done s
      | Some p \<Rightarrow>
          rbind (deref p s) (\<lambda>t.
            if tk_state t = TASK_STATE_RUNNING
            then rbind (upd_task p (\<lambda>t. t\<lparr>tk_state := TASK_STATE_READY\<rparr>) s) (scheduler_add_task (Some p))
            else Done s))"

text \<open>The bookkeeping for the chosen task.\<close>

definition dispatch :: "tptr \<Rightarrow> sched \<Rightarrow> sched run" where
  "dispatch p s =
     rbind (upd_task p (\<lambda>t. t
       \<lparr>tk_state := TASK_STATE_RUNNING,
        tk_time_slice := time_slice_for (sc_algorithm s) (sc_quantum_ms s) (tk_priority t),
        tk_last_run_time := sc_scheduler_ticks s,
        tk_cpu_time_used := (if Some p \<noteq> sc_idle_task s then tk_cpu_time_used t + 1 else tk_cpu_time_used t)\<rparr>) s)
       (\<lambda>s. let cpu_id = scheduler_get_current_cpu;
                c = sc_cpu_states s cpu_id
            in Done (s\<lparr>sc_cpu_states := (sc_cpu_states s)(cpu_id := c
                         \<lparr>cs_current_task := Some p,
                          cs_total_switches := cs_total_switches c + 1,
                          cs_idle_ticks := (if Some p \<noteq> sc_idle_task s then cs_idle_ticks c else cs_idle_ticks c + 1)\<rparr>),
                       sc_total_switches := sc_total_switches s + 1,
                       sc_load_balance_counter := i32 (sc_load_balance_counter s + 1)\<rparr>))"

definition task_switch_to :: "tptr option \<Rightarrow> sched \<Rightarrow> sched run" where
  "task_switch_to new_task s =
     (case new_task of
        None \<Rightarrow> Done s
      | Some q \<Rightarrow>
          (case scheduler_get_current_task s of
             None \<Rightarrow> Done s
           | Some p \<Rightarrow>
               if p = q then Done s
               else rbind (deref p s) (\<lambda>_. rbind (deref q s) (\<lambda>_.
                      Done (s\<lparr>sc_context_switches := sc_context_switches s @ [(p, q)]\<rparr>)))))"

text \<open>The rest of \<^verbatim>\<open>scheduler_schedule\<close> from the choice of the next task on, with the lock held.\<close>

definition balance_if_due :: "sched \<Rightarrow> sched run" where
  "balance_if_due s =
     (if sc_num_cpus s > 1 \<and> sc_load_balance_counter s \<ge> 100
      then scheduler_load_balance (s\<lparr>sc_load_balance_counter := 0\<rparr>) else Done s)"

definition switch_to_next :: "sched \<Rightarrow> sched run" where
  "switch_to_next s =
     (case scheduler_get_next_task s of
        (None, s) \<Rightarrow> Done (spinlock_release (Some sched_lock_ref) s)
      | (Some p, s) \<Rightarrow>
          rbind (rbind (dispatch p s) balance_if_due) (\<lambda>s.
            task_switch_to (Some p) (spinlock_release (Some sched_lock_ref) s)))"

definition scheduler_schedule :: "sched world \<Rightarrow> sched world run" where
  "scheduler_schedule w =
     (if \<not> sc_preemption_enabled (fst w) then Done w
      else
        rbind (spinlock_acquire (Some sched_lock_ref) w) (\<lambda>(s, ys).
        rbind (rbind (rbind (requeue_current s) scheduler_check_sleeping_tasks) switch_to_next) (\<lambda>s.
          Done (s, ys))))"

definition scheduler_tick :: "sched world \<Rightarrow> sched world run" where
  "scheduler_tick w =
     (let (s, ys) = w;
          s = s\<lparr>sc_scheduler_ticks := sc_scheduler_ticks s + 1\<rparr>
      in if \<not> sc_preemption_enabled s then Done (s, ys)
         else (case scheduler_get_current_task s of
                 None \<Rightarrow> Done (s, ys)
               | Some p \<Rightarrow>
                   rbind (upd_task p (\<lambda>t. if tk_time_slice t > 0 then t\<lparr>tk_time_slice := tk_time_slice t - 1\<rparr> else t) s) (\<lambda>s.
                   rbind (deref p s) (\<lambda>t.
                     if tk_time_slice t = 0 then scheduler_schedule (s, ys) else Done (s, ys)))))"

definition scheduler_enable_preemption :: "sched \<Rightarrow> sched" where
  "scheduler_enable_preemption s = s\<lparr>sc_preemption_enabled := True\<rparr>"

definition scheduler_disable_preemption :: "sched \<Rightarrow> sched" where
  "scheduler_disable_preemption s = s\<lparr>sc_preemption_enabled := False\<rparr>"

definition scheduler_yield :: "sched world \<Rightarrow> sched world run" where
  "scheduler_yield w = (if sc_preemption_enabled (fst w) then scheduler_schedule w else Done w)"

definition scheduler_block_current_task :: "sched world \<Rightarrow> sched world run" where
  "scheduler_block_current_task w =
     (case scheduler_get_current_task (fst w) of
        None \<Rightarrow> Done w
      | Some p \<Rightarrow>
          rbind (spinlock_acquire (Some sched_lock_ref) w) (\<lambda>(s, ys).
          rbind (upd_task p (\<lambda>t. t\<lparr>tk_state := TASK_STATE_BLOCKED\<rparr>) s) (\<lambda>s.
            scheduler_schedule (spinlock_release (Some sched_lock_ref) s, ys))))"

definition scheduler_sleep :: "bool \<Rightarrow> u32 \<Rightarrow> sched world \<Rightarrow> (int \<times> sched world) run" where
  "scheduler_sleep alloc_ok milliseconds w =
     (if milliseconds = 0 then rbind (scheduler_yield w) (\<lambda>w. Done (0, w))
      else
        rbind (spinlock_acquire (Some sched_lock_ref) w) (\<lambda>(s, ys).
        case scheduler_get_current_task s of
          None \<Rightarrow> Done (-1, spinlock_release (Some sched_lock_ref) s, ys)
        | Some p \<Rightarrow>
            rbind (scheduler_add_sleeping_task alloc_ok (Some p) (ucast milliseconds) s) (\<lambda>s.
            rbind (scheduler_schedule (spinlock_release (Some sched_lock_ref) s, ys)) (\<lambda>w.
              Done (0, w)))))"

text \<open>The search of \<^verbatim>\<open>scheduler_wake_task\<close>: the pointer and the list without its entry.\<close>

fun take_sleeping :: "(tptr \<rightharpoonup> task) \<Rightarrow> int \<Rightarrow> sleeping_task list \<Rightarrow> (tptr \<times> sleeping_task list) option run" where
  "take_sleeping store task_id [] = Done None"
| "take_sleeping store task_id (e # es) =
     (case store (st_task e) of
        None \<Rightarrow> Fault
      | Some t \<Rightarrow>
          if tk_id t = task_id then Done (Some (st_task e, es))
          else rbind (take_sleeping store task_id es) (\<lambda>found.
                 Done (map_option (\<lambda>(p, rest). (p, e # rest)) found)))"

definition scheduler_wake_task :: "int \<Rightarrow> sched world \<Rightarrow> (int \<times> sched world) run" where
  "scheduler_wake_task task_id w =
     rbind (spinlock_acquire (Some sched_lock_ref) w) (\<lambda>(s, ys).
     rbind (take_sleeping (sc_tasks s) task_id (sc_sleeping_tasks s)) (\<lambda>found.
       case found of
         None \<Rightarrow> Done (-1, spinlock_release (Some sched_lock_ref) s, ys)
       | Some (p, rest) \<Rightarrow>
           rbind (wake_if_blocked p s) (\<lambda>s.
             Done (0, spinlock_release (Some sched_lock_ref) (s\<lparr>sc_sleeping_tasks := rest\<rparr>), ys))))"

section \<open>Waiting for a child\<close>

definition scheduler_add_waiting_parent :: "bool \<Rightarrow> int \<Rightarrow> int \<Rightarrow> nat option \<Rightarrow> int \<Rightarrow> sched \<Rightarrow> sched" where
  "scheduler_add_waiting_parent alloc_ok parent_id child_id exit_code_ptr options s =
     (if \<not> alloc_ok then s
      else s\<lparr>sc_waiting_parents :=
        \<lparr>wp_parent_id = parent_id, wp_child_id = child_id, wp_exit_code_ptr = exit_code_ptr, wp_options = options\<rparr>
        # sc_waiting_parents s\<rparr>)"

definition store_int :: "nat option \<Rightarrow> int \<Rightarrow> sched \<Rightarrow> sched" where
  "store_int ptr v s = (case ptr of None \<Rightarrow> s | Some a \<Rightarrow> s\<lparr>sc_ints := (sc_ints s)(a := v)\<rparr>)"

fun waiting_loop :: "int \<Rightarrow> int \<Rightarrow> waiting_parent list \<Rightarrow> sched \<Rightarrow> (waiting_parent list \<times> sched) run" where
  "waiting_loop task_id exit_code [] s = Done ([], s)"
| "waiting_loop task_id exit_code (e # es) s =
     (if wp_child_id e = task_id
      then rbind (scheduler_find_task_by_id (wp_parent_id e) s) (\<lambda>parent.
             let s = store_int (wp_exit_code_ptr e) exit_code s
             in rbind (case parent of None \<Rightarrow> Done s | Some p \<Rightarrow> wake_if_blocked p s)
                  (waiting_loop task_id exit_code es))
      else rbind (waiting_loop task_id exit_code es s) (\<lambda>(kept, s). Done (e # kept, s)))"

definition scheduler_check_waiting_parents :: "int \<Rightarrow> int \<Rightarrow> sched \<Rightarrow> sched run" where
  "scheduler_check_waiting_parents task_id exit_code s =
     rbind (waiting_loop task_id exit_code (sc_waiting_parents s) s) (\<lambda>(kept, s).
       Done (s\<lparr>sc_waiting_parents := kept\<rparr>))"

definition scheduler_waitpid ::
  "bool \<Rightarrow> int \<Rightarrow> nat option \<Rightarrow> int \<Rightarrow> sched world \<Rightarrow> (int \<times> sched world) run" where
  "scheduler_waitpid alloc_ok task_id exit_code options w =
     rbind (spinlock_acquire (Some sched_lock_ref) w) (\<lambda>(s, ys).
     let unlocked = (\<lambda>r s. Done (r, spinlock_release (Some sched_lock_ref) s, ys)) in
     case scheduler_get_current_task s of
       None \<Rightarrow> unlocked (-1) s
     | Some cur \<Rightarrow>
         rbind (scheduler_find_task_by_id task_id s) (\<lambda>child.
         case child of
           None \<Rightarrow> unlocked (-1) s
         | Some c \<Rightarrow>
             rbind (deref c s) (\<lambda>ct. rbind (deref cur s) (\<lambda>t.
               if tk_parent_id ct \<noteq> tk_id t then unlocked (-2) s
               else if tk_state ct = TASK_STATE_ZOMBIE
               then unlocked task_id
                      ((store_int exit_code (tk_exit_code ct) s)\<lparr>sc_tasks := (sc_tasks s)(c := None)\<rparr>)
               else if options AND 1 \<noteq> 0 then unlocked 0 s
               else rbind (upd_task cur (\<lambda>t. t\<lparr>tk_state := TASK_STATE_BLOCKED\<rparr>)
                             (scheduler_add_waiting_parent alloc_ok (tk_id t) task_id exit_code options s)) (\<lambda>s.
                    rbind (scheduler_schedule (spinlock_release (Some sched_lock_ref) s, ys)) (\<lambda>w.
                      Done (task_id, w)))))))"

definition mark_terminated :: "int \<Rightarrow> int \<Rightarrow> tptr \<Rightarrow> sched \<Rightarrow> sched run" where
  "mark_terminated task_id exit_code p s =
     rbind (rbind (upd_task p (\<lambda>t. t\<lparr>tk_state := TASK_STATE_ZOMBIE, tk_exit_code := exit_code\<rparr>) s)
              (scheduler_remove_task_from_ready_queue task_id)) (\<lambda>s.
       scheduler_check_waiting_parents task_id exit_code
         (s\<lparr>sc_destroyed_spaces := sc_destroyed_spaces s @ [task_id]\<rparr>))"

text \<open>The end of \<^verbatim>\<open>scheduler_terminate_task\<close>: schedule if the current task has ended itself.\<close>

definition leave_if_current :: "int \<Rightarrow> sched \<Rightarrow> (sched \<Rightarrow> sched) list \<Rightarrow> (int \<times> sched world) run" where
  "leave_if_current task_id s ys =
     rbind (case scheduler_get_current_task s of
              None \<Rightarrow> Done False
            | Some c \<Rightarrow> rbind (deref c s) (\<lambda>t. Done (tk_id t = task_id))) (\<lambda>is_current.
     let s = spinlock_release (Some sched_lock_ref) s
     in if is_current then rbind (scheduler_schedule (s, ys)) (\<lambda>w. Done (0, w)) else Done (0, s, ys))"

definition scheduler_terminate_task :: "int \<Rightarrow> int \<Rightarrow> sched world \<Rightarrow> (int \<times> sched world) run" where
  "scheduler_terminate_task task_id exit_code w =
     rbind (spinlock_acquire (Some sched_lock_ref) w) (\<lambda>(s, ys).
     rbind (scheduler_find_task_by_id task_id s) (\<lambda>task.
     case task of
       None \<Rightarrow> Done (-1, spinlock_release (Some sched_lock_ref) s, ys)
     | Some p \<Rightarrow> rbind (mark_terminated task_id exit_code p s) (\<lambda>s. leave_if_current task_id s ys)))"

section \<open>Configuration and reporting\<close>

record scheduler_stats =
  ss_total_tasks :: int
  ss_total_task_switches :: u64
  ss_total_ticks :: u64
  ss_current_task_id :: int
  ss_ready_tasks :: int
  ss_blocked_tasks :: int
  ss_sleeping_tasks :: int
  ss_zombie_tasks :: int

definition scheduler_get_stats :: "scheduler_stats option \<Rightarrow> sched world \<Rightarrow> (scheduler_stats option \<times> sched world) run" where
  "scheduler_get_stats stats w =
     (case stats of
        None \<Rightarrow> Done (None, w)
      | Some _ \<Rightarrow>
          rbind (spinlock_acquire (Some sched_lock_ref) w) (\<lambda>(s, ys).
          let ready = (\<Sum>i \<leftarrow> [0..<MAX_PRIORITY]. int (tq_count (sc_ready_queues s i)));
              sleeping = int (length (sc_sleeping_tasks s));
              running = int (length (filter (\<lambda>i. cs_current_task (sc_cpu_states s i) \<noteq> None) [0..<sc_num_cpus s]))
          in rbind (current_id s) (\<lambda>current_task_id.
             Done (Some \<lparr>ss_total_tasks = ready + sleeping + running, ss_total_task_switches = sc_total_switches s,
                         ss_total_ticks = sc_scheduler_ticks s, ss_current_task_id = current_task_id,
                         ss_ready_tasks = ready, ss_blocked_tasks = 0, ss_sleeping_tasks = sleeping,
                         ss_zombie_tasks = 0\<rparr>,
                   spinlock_release (Some sched_lock_ref) s, ys))))"

record cpu_scheduler_info =
  ci_cpu_id :: int
  ci_current_task :: "tptr option"
  ci_is_active :: bool
  ci_total_switches :: u64
  ci_idle_ticks :: u64

definition scheduler_get_cpu_info ::
  "int \<Rightarrow> cpu_scheduler_info option \<Rightarrow> sched world \<Rightarrow> (cpu_scheduler_info option \<times> sched world) run" where
  "scheduler_get_cpu_info cpu_id info w =
     (if info = None \<or> cpu_id < 0 \<or> cpu_id \<ge> int (sc_num_cpus (fst w)) then Done (info, w)
      else rbind (spinlock_acquire (Some smp_lock_ref) w) (\<lambda>(s, ys).
        let c = sc_cpu_states s (nat cpu_id)
        in Done (Some \<lparr>ci_cpu_id = cpu_id, ci_current_task = cs_current_task c, ci_is_active = cs_is_active c,
                       ci_total_switches = cs_total_switches c, ci_idle_ticks = cs_idle_ticks c\<rparr>,
                 spinlock_release (Some smp_lock_ref) s, ys)))"

definition scheduler_get_cpu_count :: "sched \<Rightarrow> int" where
  "scheduler_get_cpu_count s = int (sc_num_cpus s)"

definition scheduler_set_task_priority :: "int \<Rightarrow> u32 \<Rightarrow> sched world \<Rightarrow> (int \<times> sched world) run" where
  "scheduler_set_task_priority task_id priority w =
     (let priority = (if priority \<ge> of_nat MAX_PRIORITY then of_nat MAX_PRIORITY - 1 else priority) in
      rbind (spinlock_acquire (Some sched_lock_ref) w) (\<lambda>(s, ys).
      rbind (scheduler_find_task_by_id task_id s) (\<lambda>task.
      case task of
        None \<Rightarrow> Done (-1, spinlock_release (Some sched_lock_ref) s, ys)
      | Some p \<Rightarrow>
          rbind (upd_task p (\<lambda>t. t\<lparr>tk_priority := priority\<rparr>) s) (\<lambda>s.
            Done (0, spinlock_release (Some sched_lock_ref) s, ys)))))"

text \<open>Into the queue of the processor, or back into the ready queues when that one is full.\<close>

definition place_task :: "nat \<Rightarrow> tptr \<Rightarrow> sched \<Rightarrow> (int \<times> sched) run" where
  "place_task cpu_id p s =
     (if tq_count (local_queue cpu_id s) < MAX_TASKS
      then Done (0, spinlock_release (Some sched_lock_ref) (upd_local cpu_id (tq_push (Some p)) s))
      else rbind (scheduler_add_task (Some p) s) (\<lambda>s.
             Done (-3, spinlock_release (Some sched_lock_ref) s)))"

definition scheduler_migrate_task :: "int \<Rightarrow> int \<Rightarrow> sched world \<Rightarrow> (int \<times> sched world) run" where
  "scheduler_migrate_task task_id cpu_id w =
     (if cpu_id < 0 \<or> cpu_id \<ge> int (sc_num_cpus (fst w)) \<or> \<not> cs_is_active (sc_cpu_states (fst w) (nat cpu_id))
      then Done (-1, w)
      else
        rbind (spinlock_acquire (Some sched_lock_ref) w) (\<lambda>(s, ys).
        rbind (scheduler_find_task_by_id task_id s) (\<lambda>task.
        case task of
          None \<Rightarrow> Done (-2, spinlock_release (Some sched_lock_ref) s, ys)
        | Some p \<Rightarrow>
            rbind (rbind (scheduler_remove_task_from_ready_queue task_id s) (place_task (nat cpu_id) p))
              (\<lambda>(r, s). Done (r, s, ys)))))"

definition scheduler_set_algorithm :: "int \<Rightarrow> sched \<Rightarrow> int \<times> sched" where
  "scheduler_set_algorithm algorithm s =
     (if algorithm < 0 \<or> algorithm > 3 then (-1, s) else (0, s\<lparr>sc_algorithm := algorithm\<rparr>))"

definition scheduler_set_quantum :: "u32 \<Rightarrow> sched \<Rightarrow> sched" where
  "scheduler_set_quantum quantum_ms s = s\<lparr>sc_quantum_ms := quantum_ms\<rparr>"

end
