(* ===== verification/Scheduler_Laws.thy ===== *)
theory Scheduler_Laws
  imports Scheduler
begin

text \<open>
  The laws of the scheduler's queues: each one is a bounded queue, and the array of ready queues
  behaves like one list ordered by priority, the run queue.
\<close>

section \<open>One queue\<close>

definition tq_list :: "task_queue \<Rightarrow> tptr option list" where
  "tq_list q = ring_list (tq_tasks q) (tq_head q) (tq_count q)"

definition tq_ok :: "task_queue \<Rightarrow> bool" where
  "tq_ok q \<longleftrightarrow> ring_ok (tq_tasks q) MAX_TASKS (tq_head q) (tq_tail q) (tq_count q)"

lemma length_tq_list [simp]: "length (tq_list q) = tq_count q"
  by (simp add: tq_list_def)

lemma tq_list_Nil_iff: "tq_list q = [] \<longleftrightarrow> tq_count q = 0"
  by (metis length_0_conv length_tq_list)

interpretation tq: bounded_fifo tq_ok tq_list "\<lambda>_. MAX_TASKS" tq_push tq_first tq_pop
proof unfold_locales
  fix q x
  assume "tq_ok q"
  then have ring: "ring_ok (tq_tasks q) MAX_TASKS (tq_head q) (tq_tail q) (tq_count q)"
    by (simp add: tq_ok_def)
  then show "length (tq_list q) \<le> MAX_TASKS"
    by (simp add: ring_ok_def)
  {
    assume "length (tq_list q) < MAX_TASKS"
    then show "tq_ok (tq_push x q)" "tq_list (tq_push x q) = tq_list q @ [x]"
      using ring_list_snoc [OF ring] ring_ok_snoc [OF ring]
      by (simp_all add: tq_ok_def tq_list_def tq_push_def)
  }
  {
    assume "tq_list q \<noteq> []"
    then have n: "0 < tq_count q"
      by (simp add: tq_list_Nil_iff)
    then show "tq_ok (tq_pop q)" "tq_list (tq_pop q) = tl (tq_list q)" "tq_first q = hd (tq_list q)"
      using ring_list_tl [OF ring n] ring_ok_tl(2) [OF ring n] ring_list_hd [OF ring n]
      by (simp_all add: tq_ok_def tq_list_def tq_pop_def tq_first_def)
  }
qed simp_all

lemma tq_shift_frame [simp]:
  "tq_head (tq_shift j n q) = tq_head q" "tq_tail (tq_shift j n q) = tq_tail q"
  "tq_count (tq_shift j n q) = tq_count q" "length (tq_tasks (tq_shift j n q)) = length (tq_tasks q)"
  by (induction n arbitrary: j q) (simp_all add: Let_def)

lemma tq_shift_slot:
  assumes "length (tq_tasks q) = MAX_TASKS" "j + n < MAX_TASKS" "k < MAX_TASKS"
  shows "tq_tasks (tq_shift j n q) ! ((tq_head q + k) mod MAX_TASKS) =
     tq_tasks q ! ((tq_head q + (if j \<le> k \<and> k < j + n then k + 1 else k)) mod MAX_TASKS)"
  using assms
proof (induction n arbitrary: j q)
  case 0
  have "\<not> (j \<le> k \<and> k < j + 0)"
    by simp
  then show ?case
    by (simp only: tq_shift.simps if_False)
next
  case (Suc n)
  let ?ix = "\<lambda>k. (tq_head q + k) mod MAX_TASKS"
  let ?q = "q\<lparr>tq_tasks := (tq_tasks q)[?ix j := tq_tasks q ! ?ix (Suc j)]\<rparr>"
  have neq: "?ix j \<noteq> ?ix m" if "m < MAX_TASKS" "m \<noteq> j" for m
    using mod_offset_neq [of j m MAX_TASKS "tq_head q"] mod_offset_neq [of m j MAX_TASKS "tq_head q"] that Suc.prems(2)
    by (cases "j < m") auto
  have "tq_tasks (tq_shift (Suc j) n ?q) ! ?ix k =
      tq_tasks ?q ! ?ix (if Suc j \<le> k \<and> k < Suc j + n then k + 1 else k)"
    using Suc.IH [of ?q "Suc j"] Suc.prems by simp
  also have "\<dots> = tq_tasks q ! ?ix (if j \<le> k \<and> k < j + Suc n then k + 1 else k)"
  proof -
    consider "k = j" | "k \<noteq> j" "Suc j \<le> k \<and> k < Suc j + n" | "k \<noteq> j" "\<not> (j \<le> k \<and> k < j + Suc n)"
      by linarith
    then show ?thesis
    proof cases
      case 1
      with Suc.prems(1) show ?thesis
        by (simp add: MAX_TASKS_def)
    next
      case 2
      then have "?ix j \<noteq> ?ix (k + 1)"
        using Suc.prems(2) by (intro neq) linarith+
      then have "tq_tasks ?q ! ?ix (k + 1) = tq_tasks q ! ?ix (k + 1)"
        by simp
      with 2 show ?thesis
        by simp
    next
      case 3
      then have "?ix j \<noteq> ?ix k"
        using Suc.prems(3) by (intro neq)
      then have "tq_tasks ?q ! ?ix k = tq_tasks q ! ?ix k"
        by simp
      moreover have "\<not> (Suc j \<le> k \<and> k < Suc j + n)"
        using 3(2) by linarith
      ultimately show ?thesis
        using 3(2) by (simp only: if_False)
    qed
  qed
  finally show ?case
    by (simp add: Let_def)
qed

lemma tq_remove_spec:
  assumes "tq_ok q" "i < tq_count q"
  shows "tq_ok (tq_remove i q)" "tq_list (tq_remove i q) = take i (tq_list q) @ drop (Suc i) (tq_list q)"
proof -
  note ring = assms(1) [unfolded tq_ok_def ring_ok_def]
  have len: "length (tq_tasks q) = MAX_TASKS" and n: "tq_count q \<le> MAX_TASKS"
    using ring by simp_all
  have sh: "i + (tq_count q - 1 - i) < MAX_TASKS"
    using n assms(2) by simp
  show "tq_list (tq_remove i q) = take i (tq_list q) @ drop (Suc i) (tq_list q)"
  proof (rule nth_equalityI)
    show "length (tq_list (tq_remove i q)) = length (take i (tq_list q) @ drop (Suc i) (tq_list q))"
      using assms(2) by (simp add: tq_remove_def Let_def)
  next
    fix k
    assume "k < length (tq_list (tq_remove i q))"
    then have k: "k < tq_count q - 1"
      by (simp add: tq_remove_def Let_def)
    then have "tq_list (tq_remove i q) ! k = tq_tasks (tq_shift i (tq_count q - 1 - i) q) ! ((tq_head q + k) mod MAX_TASKS)"
      using len by (simp add: tq_list_def tq_remove_def Let_def nth_ring_list)
    also have "\<dots> = tq_tasks q ! ((tq_head q + (if i \<le> k then k + 1 else k)) mod MAX_TASKS)"
      using tq_shift_slot [OF len sh, of k] k n assms(2) by auto
    also have "\<dots> = (take i (tq_list q) @ drop (Suc i) (tq_list q)) ! k"
      using k assms(2) len by (auto simp: tq_list_def nth_append nth_ring_list)
    finally show "tq_list (tq_remove i q) ! k = (take i (tq_list q) @ drop (Suc i) (tq_list q)) ! k" .
  qed
  have "(tq_tail q + MAX_TASKS - 1) mod MAX_TASKS = (tq_head q + (tq_count q - 1)) mod MAX_TASKS"
  proof -
    have "(tq_tail q + MAX_TASKS - 1) mod MAX_TASKS = ((tq_head q + tq_count q) mod MAX_TASKS + (MAX_TASKS - 1)) mod MAX_TASKS"
      using ring by simp
    also have "\<dots> = (tq_head q + tq_count q + (MAX_TASKS - 1)) mod MAX_TASKS"
      by (rule mod_add_left_eq)
    also have "tq_head q + tq_count q + (MAX_TASKS - 1) = tq_head q + (tq_count q - 1) + MAX_TASKS"
      using assms(2) by (simp add: MAX_TASKS_def)
    finally show ?thesis
      by simp
  qed
  moreover have "tq_count q - Suc 0 \<le> MAX_TASKS"
    using n by linarith
  ultimately show "tq_ok (tq_remove i q)"
    using ring assms(2) by (simp add: tq_ok_def ring_ok_def tq_remove_def Let_def)
qed

section \<open>The run queue\<close>

text \<open>The pointers of all ready queues, from the highest priority to the lowest.\<close>

definition run_queue :: "sched \<Rightarrow> tptr option list" where
  "run_queue s = concat (map (\<lambda>i. tq_list (sc_ready_queues s i)) [0..<MAX_PRIORITY])"

definition ahead :: "nat \<Rightarrow> sched \<Rightarrow> tptr option list" where
  "ahead i s = concat (map (\<lambda>i. tq_list (sc_ready_queues s i)) [0..<i])"

definition behind :: "nat \<Rightarrow> sched \<Rightarrow> tptr option list" where
  "behind i s = concat (map (\<lambda>i. tq_list (sc_ready_queues s i)) [Suc i..<MAX_PRIORITY])"

lemma run_queue_split:
  assumes "i < MAX_PRIORITY"
  shows "run_queue s = ahead i s @ tq_list (sc_ready_queues s i) @ behind i s"
proof -
  have "[0..<MAX_PRIORITY] = [0..<i] @ i # [Suc i..<MAX_PRIORITY]"
    using upt_add_eq_append [of 0 i "MAX_PRIORITY - i"] upt_conv_Cons [OF assms] assms by simp
  then show ?thesis
    by (simp add: run_queue_def ahead_def behind_def)
qed

lemma run_queue_update:
  assumes "i < MAX_PRIORITY"
  shows "run_queue (s\<lparr>sc_ready_queues := (sc_ready_queues s)(i := q)\<rparr>) = ahead i s @ tq_list q @ behind i s"
proof -
  let ?s = "s\<lparr>sc_ready_queues := (sc_ready_queues s)(i := q)\<rparr>"
  have "ahead i ?s = ahead i s" "behind i ?s = behind i s"
    by (auto simp: ahead_def behind_def intro!: arg_cong [where f = concat])
  then show ?thesis
    using run_queue_split [OF assms, of ?s] by simp
qed

lemma clamp_priority_less [simp]: "clamp_priority p < MAX_PRIORITY"
  by (auto simp: clamp_priority_def Let_def MAX_PRIORITY_def)

lemma clamp_priority_id:
  assumes "p < of_nat MAX_PRIORITY"
  shows "clamp_priority p = unat p"
proof -
  have "uint p < 32"
    using assms by (simp add: MAX_PRIORITY_def word_less_def)
  moreover from this have "sint p = uint p"
    unfolding sint_uint by (intro signed_take_bit_int_eq_self) (simp_all add: order_trans [of _ 0])
  ultimately show ?thesis
    by (simp add: clamp_priority_def MAX_PRIORITY_def)
qed

definition queues_ok :: "sched \<Rightarrow> bool" where
  "queues_ok s \<longleftrightarrow> (\<forall>i < MAX_PRIORITY. tq_ok (sc_ready_queues s i))"

text \<open>Taking the next task takes the head of the run queue.\<close>

lemma next_task_loop_spec:
  "(\<forall>i. pr \<le> i \<and> i < pr + n \<longrightarrow> tq_count (sc_ready_queues s i) = 0) \<and>
     next_task_loop pr n s = (sc_idle_task s, s) \<or>
   (\<exists>i. pr \<le> i \<and> i < pr + n \<and> (\<forall>j. pr \<le> j \<and> j < i \<longrightarrow> tq_count (sc_ready_queues s j) = 0) \<and>
      tq_count (sc_ready_queues s i) > 0 \<and>
      next_task_loop pr n s = (tq_first (sc_ready_queues s i),
        s\<lparr>sc_ready_queues := (sc_ready_queues s)(i := tq_pop (sc_ready_queues s i))\<rparr>))"
proof (induction n arbitrary: pr)
  case 0
  then show ?case by auto
next
  case (Suc n)
  show ?case
  proof (cases "tq_count (sc_ready_queues s pr) > 0")
    case True
    then show ?thesis
      by (intro disjI2 exI [of _ pr]) (simp add: Let_def fun_upd_def)
  next
    case False
    then have step: "next_task_loop pr (Suc n) s = next_task_loop (Suc pr) n s" and z: "tq_count (sc_ready_queues s pr) = 0"
      by (simp_all add: Let_def)
    have ge: "j = pr \<or> Suc pr \<le> j" if "pr \<le> j" for j
      using that by auto
    from Suc.IH [of "Suc pr"] show ?thesis
      unfolding step using z ge by (metis Suc_leD add_Suc_shift)
  qed
qed

lemma ahead_Nil: "(\<forall>j < i. tq_count (sc_ready_queues s j) = 0) \<Longrightarrow> ahead i s = []"
  by (simp add: ahead_def tq_list_Nil_iff)

lemma get_next_task_spec:
  assumes "queues_ok s"
  shows "if run_queue s = [] then scheduler_get_next_task s = (sc_idle_task s, s)
     else \<exists>s'. scheduler_get_next_task s = (hd (run_queue s), s') \<and> run_queue s' = tl (run_queue s) \<and> queues_ok s' \<and>
       s' = s\<lparr>sc_ready_queues := sc_ready_queues s'\<rparr>"
proof -
  consider (none) "\<forall>i < MAX_PRIORITY. tq_count (sc_ready_queues s i) = 0"
      "scheduler_get_next_task s = (sc_idle_task s, s)"
    | (some) i where "i < MAX_PRIORITY" "\<forall>j < i. tq_count (sc_ready_queues s j) = 0"
      "tq_count (sc_ready_queues s i) > 0"
      "scheduler_get_next_task s = (tq_first (sc_ready_queues s i),
        s\<lparr>sc_ready_queues := (sc_ready_queues s)(i := tq_pop (sc_ready_queues s i))\<rparr>)"
    using next_task_loop_spec [of 0 MAX_PRIORITY s] by (auto simp: scheduler_get_next_task_def)
  then show ?thesis
  proof cases
    case none
    then have "run_queue s = []"
      by (auto simp: run_queue_def tq_list_Nil_iff)
    with none show ?thesis
      by simp
  next
    case some
    let ?q = "sc_ready_queues s i"
    have ok: "tq_ok ?q" and ne: "tq_list ?q \<noteq> []"
      using assms some by (simp_all add: queues_ok_def tq_list_Nil_iff)
    have rq: "run_queue s = tq_list ?q @ behind i s"
      using run_queue_split [OF some(1)] ahead_Nil [OF some(2)] by simp
    have "run_queue (s\<lparr>sc_ready_queues := (sc_ready_queues s)(i := tq_pop ?q)\<rparr>) = tl (tq_list ?q) @ behind i s"
      using run_queue_update [OF some(1)] ahead_Nil [OF some(2)] tq.contents_deq [OF ok ne] by simp
    moreover have "queues_ok (s\<lparr>sc_ready_queues := (sc_ready_queues s)(i := tq_pop ?q)\<rparr>)"
      using assms tq.invar_deq [OF ok ne] by (auto simp: queues_ok_def)
    ultimately show ?thesis
      using rq ne some(4) tq.front_hd [OF ok ne] by simp
  qed
qed

text \<open>Adding a task puts it behind the tasks of its own and of higher priority.\<close>

lemma add_task_spec:
  assumes "queues_ok s" "sc_tasks s p = Some t" "i = clamp_priority (tk_priority t)"
    and "tq_count (sc_ready_queues s i) < MAX_TASKS"
  shows "\<exists>s'. scheduler_add_task (Some p) s = Done s' \<and> queues_ok s' \<and>
     run_queue s' = ahead i s @ tq_list (sc_ready_queues s i) @ [Some p] @ behind i s \<and>
     s' = s\<lparr>sc_ready_queues := (sc_ready_queues s)(i := tq_push (Some p) (sc_ready_queues s i))\<rparr>"
proof -
  have i: "i < MAX_PRIORITY"
    using assms(3) by simp
  then have ok: "tq_ok (sc_ready_queues s i)"
    using assms(1) by (simp add: queues_ok_def)
  let ?s = "s\<lparr>sc_ready_queues := (sc_ready_queues s)(i := tq_push (Some p) (sc_ready_queues s i))\<rparr>"
  have "scheduler_add_task (Some p) s = Done ?s"
    using assms by (simp add: scheduler_add_task_def deref_def Let_def)
  moreover have "queues_ok ?s"
    using assms(1,4) tq.invar_enq [OF ok] by (auto simp: queues_ok_def)
  moreover have "run_queue ?s = ahead i s @ tq_list (sc_ready_queues s i) @ [Some p] @ behind i s"
    using run_queue_update [OF i] tq.contents_enq [OF ok] assms(4) by simp
  ultimately show ?thesis
    by blast
qed

end
