(* ===== verification/Scheduler_Safety.thy ===== *)
theory Scheduler_Safety
  imports Scheduler_Laws
begin

text \<open>
  Memory safety of the scheduler: a well-formedness invariant on the scheduler's structures, and
  that each operation returns, keeps it, and never follows a pointer to a task that is not
  allocated.
\<close>

section \<open>Well-formed states\<close>

definition live :: "sched \<Rightarrow> tptr \<Rightarrow> bool" where
  "live s p \<longleftrightarrow> sc_tasks s p \<noteq> None"

definition queue_live :: "sched \<Rightarrow> task_queue \<Rightarrow> bool" where
  "queue_live s q \<longleftrightarrow> tq_ok q \<and> (\<forall>x \<in> set (tq_list q). \<exists>p. x = Some p \<and> live s p)"

definition cpu_live :: "sched \<Rightarrow> cpu_state \<Rightarrow> bool" where
  "cpu_live s c \<longleftrightarrow> queue_live s (cs_local_queue c) \<and> (\<forall>p. cs_current_task c = Some p \<longrightarrow> live s p)"

definition sched_wf :: "sched \<Rightarrow> bool" where
  "sched_wf s \<longleftrightarrow>
     (\<forall>i < MAX_PRIORITY. queue_live s (sc_ready_queues s i)) \<and>
     (\<forall>i < MAX_CPUS. cpu_live s (sc_cpu_states s i)) \<and>
     (\<forall>e \<in> set (sc_sleeping_tasks s). live s (st_task e)) \<and>
     (\<forall>p. sc_idle_task s = Some p \<longrightarrow> live s p) \<and>
     0 < sc_num_cpus s \<and> sc_num_cpus s \<le> MAX_CPUS"

lemma sched_wfD:
  assumes "sched_wf s"
  shows "i < MAX_PRIORITY \<Longrightarrow> queue_live s (sc_ready_queues s i)"
    and "i < MAX_CPUS \<Longrightarrow> cpu_live s (sc_cpu_states s i)"
    and "e \<in> set (sc_sleeping_tasks s) \<Longrightarrow> live s (st_task e)"
    and "sc_idle_task s = Some p \<Longrightarrow> live s p"
    and "0 < sc_num_cpus s" "sc_num_cpus s \<le> MAX_CPUS"
  using assms by (simp_all add: sched_wf_def)

text \<open>The liveness predicates read the task store only.\<close>

lemma live_cong: "sc_tasks s' = sc_tasks s \<Longrightarrow> live s' = live s"
  by (simp add: live_def fun_eq_iff)

lemma queue_live_cong: "sc_tasks s' = sc_tasks s \<Longrightarrow> queue_live s' = queue_live s"
  using live_cong [of s' s] by (intro ext) (simp add: queue_live_def)

lemma cpu_live_cong: "sc_tasks s' = sc_tasks s \<Longrightarrow> cpu_live s' = cpu_live s"
  using live_cong [of s' s] queue_live_cong [of s' s] by (intro ext) (simp add: cpu_live_def)

lemma sched_wf_cong:
  assumes "sc_tasks s' = sc_tasks s" "sc_ready_queues s' = sc_ready_queues s" "sc_cpu_states s' = sc_cpu_states s"
    and "sc_sleeping_tasks s' = sc_sleeping_tasks s" "sc_idle_task s' = sc_idle_task s" "sc_num_cpus s' = sc_num_cpus s"
  shows "sched_wf s' = sched_wf s"
  unfolding sched_wf_def assms live_cong [OF assms(1)] queue_live_cong [OF assms(1)] cpu_live_cong [OF assms(1)] ..

lemma sched_wf_fields [simp]:
  "sched_wf (s\<lparr>sc_lock := a\<rparr>) = sched_wf s"
  "sched_wf (s\<lparr>sc_smp_lock := a\<rparr>) = sched_wf s"
  "sched_wf (s\<lparr>sc_preemption_enabled := b\<rparr>) = sched_wf s"
  "sched_wf (s\<lparr>sc_scheduler_ticks := c\<rparr>) = sched_wf s"
  "sched_wf (s\<lparr>sc_next_task_id := d\<rparr>) = sched_wf s"
  "sched_wf (s\<lparr>sc_algorithm := d\<rparr>) = sched_wf s"
  "sched_wf (s\<lparr>sc_quantum_ms := f\<rparr>) = sched_wf s"
  "sched_wf (s\<lparr>sc_load_balance_counter := d\<rparr>) = sched_wf s"
  "sched_wf (s\<lparr>sc_waiting_parents := g\<rparr>) = sched_wf s"
  "sched_wf (s\<lparr>sc_ints := h\<rparr>) = sched_wf s"
  "sched_wf (s\<lparr>sc_context_switches := k\<rparr>) = sched_wf s"
  "sched_wf (s\<lparr>sc_destroyed_spaces := l\<rparr>) = sched_wf s"
  by (rule sched_wf_cong; simp)+

text \<open>
  What an operation keeps: the invariant, the allocated tasks, the locks.
\<close>

definition keeps :: "sched \<Rightarrow> sched \<Rightarrow> bool" where
  "keeps s s' \<longleftrightarrow>
     sched_wf s' \<and> (\<forall>p. live s p \<longrightarrow> live s' p) \<and> sc_lock s' = sc_lock s \<and> sc_smp_lock s' = sc_smp_lock s"

lemma keeps_refl: "sched_wf s \<Longrightarrow> keeps s s"
  by (simp add: keeps_def)

lemma keeps_trans: "keeps s s' \<Longrightarrow> keeps s' s'' \<Longrightarrow> keeps s s''"
  by (simp add: keeps_def)

lemma keepsD: "keeps s s' \<Longrightarrow> sched_wf s'" "keeps s s' \<Longrightarrow> live s p \<Longrightarrow> live s' p"
  by (simp_all add: keeps_def)

text \<open>Operations in sequence: what the first one keeps is there for the second.\<close>

lemma keeps_then:
  assumes "returns m (keeps s)" "\<And>s'. keeps s s' \<Longrightarrow> returns (f s') (keeps s')"
  shows "returns (rbind m f) (keeps s)"
  unfolding returns_rbind
  by (rule returns_mono [OF assms(1)], rule returns_mono [OF assms(2)]) (auto intro: keeps_trans)

lemma deref_live: "live s p \<Longrightarrow> \<exists>t. deref p s = Done t \<and> sc_tasks s p = Some t"
  by (auto simp: live_def deref_def)

lemma live_store [simp]: "live (s\<lparr>sc_tasks := (sc_tasks s)(p \<mapsto> t)\<rparr>) q \<longleftrightarrow> q = p \<or> live s q"
  by (simp add: live_def)

lemma sched_wf_store:
  assumes "sched_wf s"
  shows "sched_wf (s\<lparr>sc_tasks := (sc_tasks s)(p \<mapsto> t)\<rparr>)"
proof -
  have "queue_live s q \<Longrightarrow> queue_live (s\<lparr>sc_tasks := (sc_tasks s)(p \<mapsto> t)\<rparr>) q" for q
    by (fastforce simp: queue_live_def)
  with assms show ?thesis
    unfolding sched_wf_def cpu_live_def by simp
qed

lemma upd_task_keeps:
  assumes "sched_wf s" "live s p"
  shows "returns (upd_task p f s) (keeps s)"
  using deref_live [OF assms(2)] sched_wf_store [OF assms(1)] by (auto simp: upd_task_def keeps_def)

lemma sched_wf_queue:
  assumes "sched_wf s" "queue_live s q"
  shows "sched_wf (s\<lparr>sc_ready_queues := (sc_ready_queues s)(i := q)\<rparr>)"
  using assms
  by (simp add: sched_wf_def live_cong [of "s\<lparr>sc_ready_queues := (sc_ready_queues s)(i := q)\<rparr>" s]
      queue_live_cong [of "s\<lparr>sc_ready_queues := (sc_ready_queues s)(i := q)\<rparr>" s]
      cpu_live_cong [of "s\<lparr>sc_ready_queues := (sc_ready_queues s)(i := q)\<rparr>" s])

lemma live_queue_upd [simp]: "live (s\<lparr>sc_ready_queues := qs\<rparr>) = live s"
  by (rule live_cong) simp

lemma keeps_queue:
  assumes "sched_wf s" "queue_live s q"
  shows "keeps s (s\<lparr>sc_ready_queues := (sc_ready_queues s)(i := q)\<rparr>)"
  using sched_wf_queue [OF assms] by (simp add: keeps_def)

lemma queue_live_push:
  assumes "queue_live s q" "tq_count q < MAX_TASKS" "live s p"
  shows "queue_live s (tq_push (Some p) q)"
  using assms tq.invar_enq [of q] tq.contents_enq [of q] by (simp add: queue_live_def)

lemma queue_live_pop:
  assumes "queue_live s q" "0 < tq_count q"
  shows "queue_live s (tq_pop q)" "\<exists>p. tq_first q = Some p \<and> live s p"
proof -
  have ne: "tq_list q \<noteq> []" and ok: "tq_ok q"
    using assms by (simp_all add: queue_live_def tq_list_Nil_iff)
  show "queue_live s (tq_pop q)"
    using assms(1) tq.invar_deq [OF ok ne] tq.contents_deq [OF ok ne] ne
    by (auto simp: queue_live_def dest: list.set_sel(2))
  show "\<exists>p. tq_first q = Some p \<and> live s p"
    using assms(1) tq.front_hd [OF ok ne] hd_in_set [OF ne] by (simp add: queue_live_def)
qed

lemma queue_live_remove:
  assumes "queue_live s q" "i < tq_count q"
  shows "queue_live s (tq_remove i q)"
  using assms tq_remove_spec [of q i]
  by (auto simp: queue_live_def dest: in_set_takeD in_set_dropD)

section \<open>Queues and searches\<close>

lemma add_task_keeps:
  assumes "sched_wf s" "live s p"
  shows "returns (scheduler_add_task (Some p) s) (keeps s)"
proof -
  obtain t where t: "deref p s = Done t"
    using deref_live [OF assms(2)] by blast
  let ?i = "clamp_priority (tk_priority t)"
  have q: "queue_live s (sc_ready_queues s ?i)"
    using sched_wfD(1) [OF assms(1)] by simp
  show ?thesis
    using t keeps_refl [OF assms(1)] keeps_queue [OF assms(1) queue_live_push [OF q _ assms(2)]]
    by (simp add: scheduler_add_task_def Let_def)
qed

lemma wake_keeps:
  assumes "sched_wf s" "live s p"
  shows "returns (wake_if_blocked p s) (keeps s)"
proof -
  obtain t where t: "deref p s = Done t"
    using deref_live [OF assms(2)] by blast
  have "returns (rbind (upd_task p (\<lambda>t. t\<lparr>tk_state := TASK_STATE_READY\<rparr>) s) (scheduler_add_task (Some p))) (keeps s)"
    by (rule keeps_then [OF upd_task_keeps [OF assms]], rule add_task_keeps)
      (use assms in \<open>auto dest: keepsD\<close>)
  with t keeps_refl [OF assms(1)] show ?thesis
    by (simp add: wake_if_blocked_def)
qed

text \<open>The result of a search by identifier: nothing, or a live task with that identifier.\<close>

definition has_id :: "sched \<Rightarrow> int \<Rightarrow> tptr \<Rightarrow> bool" where
  "has_id s task_id p \<longleftrightarrow> (\<exists>t. sc_tasks s p = Some t \<and> tk_id t = task_id)"

fun found_ok :: "sched \<Rightarrow> int \<Rightarrow> tptr option \<Rightarrow> bool" where
  "found_ok s task_id None = True"
| "found_ok s task_id (Some p) = has_id s task_id p"

fun at_ok :: "sched \<Rightarrow> int \<Rightarrow> task_queue \<Rightarrow> (nat \<times> tptr) option \<Rightarrow> bool" where
  "at_ok s task_id q None = True"
| "at_ok s task_id q (Some (j, p)) = (j < tq_count q \<and> tq_list q ! j = Some p \<and> has_id s task_id p)"

fun ready_at_ok :: "sched \<Rightarrow> int \<Rightarrow> (nat \<times> nat \<times> tptr) option \<Rightarrow> bool" where
  "ready_at_ok s task_id None = True"
| "ready_at_ok s task_id (Some (i, j, p)) =
     (i < MAX_PRIORITY \<and> at_ok s task_id (sc_ready_queues s i) (Some (j, p)))"

lemma has_id_live: "has_id s task_id p \<Longrightarrow> live s p"
  by (auto simp: has_id_def live_def)

lemma tq_search_spec:
  assumes "queue_live s q" "i + n \<le> tq_count q"
  shows "returns (tq_search (sc_tasks s) task_id q i n) (at_ok s task_id q)"
  using assms(2)
proof (induction n arbitrary: i)
  case 0
  then show ?case by simp
next
  case (Suc n)
  have len: "length (tq_tasks q) = MAX_TASKS"
    using assms(1) by (simp add: queue_live_def tq_ok_def ring_ok_def)
  have i: "i < tq_count q"
    using Suc.prems by simp
  then have slot: "tq_tasks q ! ((tq_head q + i) mod MAX_TASKS) = tq_list q ! i"
    using len by (simp add: tq_list_def nth_ring_list)
  have "tq_list q ! i \<in> set (tq_list q)"
    using i by simp
  then obtain p t where "tq_list q ! i = Some p" "sc_tasks s p = Some t"
    using assms(1) by (auto simp: queue_live_def live_def)
  with slot i Suc show ?case
    by (simp add: has_id_def)
qed

lemma ready_search_spec:
  assumes "sched_wf s" "pr + n \<le> MAX_PRIORITY"
  shows "returns (ready_search (sc_tasks s) task_id (sc_ready_queues s) pr n) (ready_at_ok s task_id)"
  using assms(2)
proof (induction n arbitrary: pr)
  case 0
  then show ?case by simp
next
  case (Suc n)
  then have "queue_live s (sc_ready_queues s pr)"
    using sched_wfD(1) [OF assms(1)] by simp
  then have found: "returns (tq_search (sc_tasks s) task_id (sc_ready_queues s pr) 0 (tq_count (sc_ready_queues s pr)))
      (at_ok s task_id (sc_ready_queues s pr))"
    by (rule tq_search_spec) simp
  have rest: "returns (ready_search (sc_tasks s) task_id (sc_ready_queues s) (pr + 1) n) (ready_at_ok s task_id)"
    using Suc by simp
  show ?case
    unfolding ready_search.simps returns_rbind
    by (rule returns_mono [OF found]) (use rest Suc.prems in \<open>auto split: option.splits\<close>)
qed

lemma cpu_search_spec:
  assumes "sched_wf s" "i + n \<le> MAX_CPUS"
  shows "returns (cpu_search (sc_tasks s) task_id (sc_cpu_states s) i n) (found_ok s task_id)"
  using assms(2)
proof (induction n arbitrary: i)
  case 0
  then show ?case by simp
next
  case (Suc n)
  then have "cpu_live s (sc_cpu_states s i)"
    using sched_wfD(2) [OF assms(1)] by simp
  with Suc show ?case
    by (auto simp: cpu_live_def live_def has_id_def split: option.splits)
qed

lemma sleep_search_spec:
  assumes "\<forall>e \<in> set es. live s (st_task e)"
  shows "returns (sleep_search (sc_tasks s) task_id es) (found_ok s task_id)"
  using assms by (induction es) (auto simp: live_def has_id_def split: option.splits)

lemma find_task_spec:
  assumes "sched_wf s"
  shows "returns (scheduler_find_task_by_id task_id s) (found_ok s task_id)"
proof -
  have sl: "returns (sleep_search (sc_tasks s) task_id (sc_sleeping_tasks s)) (found_ok s task_id)"
    using sleep_search_spec sched_wfD(3) [OF assms] by blast
  have rd: "returns (ready_search (sc_tasks s) task_id (sc_ready_queues s) 0 MAX_PRIORITY) (ready_at_ok s task_id)"
    using ready_search_spec [OF assms, of 0] by simp
  have cpu: "returns (cpu_search (sc_tasks s) task_id (sc_cpu_states s) 0 (sc_num_cpus s)) (found_ok s task_id)"
    using cpu_search_spec [OF assms, of 0] sched_wfD(6) [OF assms] by simp
  have "returns (ready_search (sc_tasks s) task_id (sc_ready_queues s) 0 MAX_PRIORITY) (\<lambda>ready.
      returns (case ready of Some (_, _, p) \<Rightarrow> Done (Some p)
        | None \<Rightarrow> sleep_search (sc_tasks s) task_id (sc_sleeping_tasks s)) (found_ok s task_id))"
    by (rule returns_mono [OF rd]) (use sl in \<open>auto split: option.splits\<close>)
  then show ?thesis
    unfolding scheduler_find_task_by_id_def returns_rbind
    by (intro returns_mono [OF cpu]) (auto split: option.splits)
qed

lemma remove_keeps:
  assumes "sched_wf s"
  shows "returns (scheduler_remove_task_from_ready_queue task_id s) (keeps s)"
proof -
  have rd: "returns (ready_search (sc_tasks s) task_id (sc_ready_queues s) 0 MAX_PRIORITY) (ready_at_ok s task_id)"
    using ready_search_spec [OF assms, of 0] by simp
  show ?thesis
    unfolding scheduler_remove_task_from_ready_queue_def returns_rbind
    by (rule returns_mono [OF rd])
      (use assms in \<open>auto intro!: keeps_refl keeps_queue queue_live_remove sched_wfD(1) split: option.splits\<close>)
qed

section \<open>Choosing a task\<close>

lemma sched_wf_sleeping:
  assumes "sched_wf s" "\<forall>e \<in> set es. live s (st_task e)"
  shows "sched_wf (s\<lparr>sc_sleeping_tasks := es\<rparr>)"
proof -
  let ?s = "s\<lparr>sc_sleeping_tasks := es\<rparr>"
  have "live ?s = live s" "queue_live ?s = queue_live s" "cpu_live ?s = cpu_live s"
    using live_cong [of ?s s] queue_live_cong [of ?s s] cpu_live_cong [of ?s s] by simp_all
  with assms show ?thesis
    by (simp add: sched_wf_def)
qed

lemma sched_wf_cpu:
  assumes "sched_wf s" "cpu_live s c"
  shows "sched_wf (s\<lparr>sc_cpu_states := (sc_cpu_states s)(i := c)\<rparr>)"
proof -
  let ?s = "s\<lparr>sc_cpu_states := (sc_cpu_states s)(i := c)\<rparr>"
  have "live ?s = live s" "queue_live ?s = queue_live s" "cpu_live ?s = cpu_live s"
    using live_cong [of ?s s] queue_live_cong [of ?s s] cpu_live_cong [of ?s s] by simp_all
  with assms show ?thesis
    by (simp add: sched_wf_def)
qed

lemma live_fields [simp]:
  "live (s\<lparr>sc_lock := a\<rparr>) = live s"
  "live (s\<lparr>sc_smp_lock := a\<rparr>) = live s"
  "live (s\<lparr>sc_cpu_states := cs\<rparr>) = live s"
  "live (s\<lparr>sc_sleeping_tasks := es\<rparr>) = live s"
  "live (s\<lparr>sc_scheduler_ticks := c\<rparr>) = live s"
  "live (s\<lparr>sc_total_switches := c\<rparr>) = live s"
  "live (s\<lparr>sc_load_balance_counter := d\<rparr>) = live s"
  "live (s\<lparr>sc_next_task_id := d\<rparr>) = live s"
  "live (s\<lparr>sc_waiting_parents := g\<rparr>) = live s"
  "live (s\<lparr>sc_ints := h\<rparr>) = live s"
  "live (s\<lparr>sc_context_switches := k\<rparr>) = live s"
  "live (s\<lparr>sc_destroyed_spaces := l\<rparr>) = live s"
  by (simp_all add: live_def fun_eq_iff)

lemma sched_wf_total [simp]: "sched_wf (s\<lparr>sc_total_switches := c\<rparr>) = sched_wf s"
  by (rule sched_wf_cong) simp_all

lemma check_sleeping_loop_keeps:
  assumes "sched_wf s" "\<forall>e \<in> set es. live s (st_task e)"
  shows "returns (check_sleeping_loop es s) (\<lambda>(kept, s'). keeps s s' \<and> set kept \<subseteq> set es)"
  using assms
proof (induction es arbitrary: s)
  case Nil
  then show ?case by (simp add: keeps_refl)
next
  case (Cons e es)
  have "returns (wake_if_blocked (st_task e) s) (\<lambda>s1.
      returns (check_sleeping_loop es s1) (\<lambda>(kept, s'). keeps s s' \<and> set kept \<subseteq> set (e # es)))"
  proof (rule returns_mono [OF wake_keeps])
    fix s1
    assume k: "keeps s s1"
    show "returns (check_sleeping_loop es s1) (\<lambda>(kept, s'). keeps s s' \<and> set kept \<subseteq> set (e # es))"
      by (rule returns_mono [OF Cons.IH])
        (use k Cons.prems in \<open>auto dest: keepsD intro: keeps_trans\<close>)
  qed (use Cons.prems in simp_all)
  moreover have "returns (check_sleeping_loop es s) (\<lambda>(kept, s').
      returns (Done (e # kept, s')) (\<lambda>(kept, s'). keeps s s' \<and> set kept \<subseteq> set (e # es)))"
    by (rule returns_mono [OF Cons.IH]) (use Cons.prems in auto)
  ultimately show ?case
    by (auto simp: case_prod_unfold)
qed

lemma check_sleeping_keeps:
  assumes "sched_wf s"
  shows "returns (scheduler_check_sleeping_tasks s) (keeps s)"
proof -
  have "\<forall>e \<in> set (sc_sleeping_tasks s). live s (st_task e)"
    using sched_wfD(3) [OF assms] by blast
  then have *: "returns (check_sleeping_loop (sc_sleeping_tasks s) s)
      (\<lambda>(kept, s'). keeps s s' \<and> set kept \<subseteq> set (sc_sleeping_tasks s))"
    using check_sleeping_loop_keeps [OF assms] by blast
  show ?thesis
    unfolding scheduler_check_sleeping_tasks_def returns_rbind
  proof (rule returns_mono [OF *], clarify)
    fix kept s'
    assume k: "keeps s s'" and sub: "set kept \<subseteq> set (sc_sleeping_tasks s)"
    have "\<forall>e \<in> set kept. live s' (st_task e)"
      using sub sched_wfD(3) [OF assms] k by (auto dest: keepsD)
    with k have "keeps s' (s'\<lparr>sc_sleeping_tasks := kept\<rparr>)"
      by (simp add: keeps_def sched_wf_sleeping)
    with k show "returns (Done (s'\<lparr>sc_sleeping_tasks := kept\<rparr>)) (keeps s)"
      using keeps_trans by simp
  qed
qed

lemma get_next_task_keeps:
  assumes "sched_wf s" "scheduler_get_next_task s = (r, s')"
  shows "keeps s s'" "r = Some p \<Longrightarrow> live s' p"
proof -
  consider "s' = s" "r = sc_idle_task s"
    | i where "i < MAX_PRIORITY" "tq_count (sc_ready_queues s i) > 0" "r = tq_first (sc_ready_queues s i)"
      "s' = s\<lparr>sc_ready_queues := (sc_ready_queues s)(i := tq_pop (sc_ready_queues s i))\<rparr>"
    using next_task_loop_spec [of 0 MAX_PRIORITY s] assms(2) by (auto simp: scheduler_get_next_task_def)
  then have "keeps s s' \<and> (\<forall>p. r = Some p \<longrightarrow> live s' p)"
  proof cases
    case 1
    then show ?thesis
      using assms(1) sched_wfD(4) [OF assms(1)] by (simp add: keeps_refl)
  next
    case 2
    note q = sched_wfD(1) [OF assms(1) 2(1)]
    show ?thesis
      using queue_live_pop [OF q 2(2)] keeps_queue [OF assms(1)] 2 by auto
  qed
  then show "keeps s s'" "r = Some p \<Longrightarrow> live s' p"
    by simp_all
qed

lemma current_live:
  assumes "sched_wf s" "scheduler_get_current_task s = Some p"
  shows "live s p"
  using sched_wfD(2) [OF assms(1), of 0] assms(2)
  by (simp add: scheduler_get_current_task_def scheduler_get_current_cpu_def cpu_live_def MAX_CPUS_def)

lemma requeue_keeps:
  assumes "sched_wf s"
  shows "returns (requeue_current s) (keeps s)"
proof (cases "scheduler_get_current_task s")
  case None
  with assms show ?thesis
    by (simp add: requeue_current_def keeps_refl)
next
  case (Some p)
  note l = current_live [OF assms Some]
  obtain t where t: "deref p s = Done t"
    using deref_live [OF l] by blast
  have "returns (rbind (upd_task p (\<lambda>t. t\<lparr>tk_state := TASK_STATE_READY\<rparr>) s) (scheduler_add_task (Some p))) (keeps s)"
    by (rule keeps_then [OF upd_task_keeps [OF assms l]], rule add_task_keeps)
      (use l in \<open>auto dest: keepsD\<close>)
  with t Some keeps_refl [OF assms] show ?thesis
    by (simp add: requeue_current_def)
qed

lemma dispatch_keeps:
  assumes "sched_wf s" "live s p"
  shows "returns (dispatch p s) (\<lambda>s'. keeps s s' \<and> scheduler_get_current_task s' = Some p)"
  unfolding dispatch_def returns_rbind Let_def
proof (rule returns_mono [OF upd_task_keeps [OF assms]])
  fix s1
  assume k: "keeps s s1"
  let ?c = "sc_cpu_states s1 scheduler_get_current_cpu"
  have "cpu_live s1 ?c"
    using sched_wfD(2) [OF keepsD(1) [OF k], of 0] by (simp add: scheduler_get_current_cpu_def MAX_CPUS_def)
  then have "cpu_live s1 (?c\<lparr>cs_current_task := Some p, cs_total_switches := a, cs_idle_ticks := b\<rparr>)" for a b
    using keepsD(2) [OF k assms(2)] by (simp add: cpu_live_def)
  then have "sched_wf (s1\<lparr>sc_cpu_states := (sc_cpu_states s1)(scheduler_get_current_cpu :=
      ?c\<lparr>cs_current_task := Some p, cs_total_switches := a, cs_idle_ticks := b\<rparr>)\<rparr>)" for a b
    by (intro sched_wf_cpu keepsD(1) [OF k])
  then show "returns (Done (s1\<lparr>sc_cpu_states := (sc_cpu_states s1)(scheduler_get_current_cpu := ?c
        \<lparr>cs_current_task := Some p, cs_total_switches := cs_total_switches ?c + 1,
         cs_idle_ticks := if Some p \<noteq> sc_idle_task s1 then cs_idle_ticks ?c else cs_idle_ticks ?c + 1\<rparr>),
        sc_total_switches := sc_total_switches s1 + 1,
        sc_load_balance_counter := i32 (sc_load_balance_counter s1 + 1)\<rparr>))
      (\<lambda>s'. keeps s s' \<and> scheduler_get_current_task s' = Some p)"
    using k by (simp add: keeps_def scheduler_get_current_task_def)
qed

lemma task_switch_keeps:
  assumes "sched_wf s" "live s q"
  shows "returns (task_switch_to (Some q) s) (keeps s)"
proof (cases "scheduler_get_current_task s")
  case None
  with assms show ?thesis
    by (simp add: task_switch_to_def keeps_refl)
next
  case (Some p)
  note l = current_live [OF assms(1) Some]
  obtain t where t: "deref p s = Done t"
    using deref_live [OF l] by blast
  obtain u where u: "deref q s = Done u"
    using deref_live [OF assms(2)] by blast
  from t u Some assms show ?thesis
    by (simp add: task_switch_to_def keeps_def)
qed

section \<open>Load balancing\<close>

definition load :: "sched \<Rightarrow> nat \<Rightarrow> int" where
  "load s i = int (tq_count (local_queue i s))"

text \<open>The scan finds active processors of extreme load, or keeps its initial values.\<close>

definition scan_ok :: "sched \<Rightarrow> nat set \<Rightarrow> int \<times> nat \<times> int \<times> nat \<Rightarrow> bool" where
  "scan_ok s A = (\<lambda>(mx, i, mn, j).
     (mx = 0 \<and> i = 0 \<or> i \<in> A \<and> mx = load s i) \<and> (mn = INT_MAX \<and> j = 0 \<or> j \<in> A \<and> mn = load s j) \<and>
     (\<forall>k \<in> A. load s k \<le> mx \<and> mn \<le> load s k))"

lemma scan_ok_insert:
  assumes "scan_ok s A (mx, i, mn, j)"
  shows "scan_ok s (insert n A)
     (if load s n > mx then load s n else mx, if load s n > mx then n else i,
      if load s n < mn then load s n else mn, if load s n < mn then n else j)"
proof -
  have "\<forall>k \<in> insert n A. load s k \<le> (if load s n > mx then load s n else mx) \<and>
      (if load s n < mn then load s n else mn) \<le> load s k"
    using assms by (fastforce simp: scan_ok_def)
  then show ?thesis
    using assms unfolding scan_ok_def prod.case
    by (cases "load s n > mx"; cases "load s n < mn") (simp_all, blast+)
qed

lemma balance_scan_ok: "scan_ok s {i. i < sc_num_cpus s \<and> cs_is_active (sc_cpu_states s i)} (balance_scan s)"
proof -
  let ?A = "\<lambda>n. {i. i < n \<and> cs_is_active (sc_cpu_states s i)}"
  have "scan_ok s (?A n) (foldl (scan_step s) (0, 0, INT_MAX, 0) [0..<n])" for n
  proof (induction n)
    case 0
    then show ?case by (simp add: scan_ok_def)
  next
    case (Suc n)
    obtain mx i mn j where acc: "foldl (scan_step s) (0, 0, INT_MAX, 0) [0..<n] = (mx, i, mn, j)"
      by (metis prod_cases4)
    have A: "?A (Suc n) = (if cs_is_active (sc_cpu_states s n) then insert n (?A n) else ?A n)"
      by (auto simp: less_Suc_eq)
    have load: "int (tq_count (cs_local_queue (sc_cpu_states s n))) = load s n"
      by (simp add: load_def local_queue_def)
    show ?case
      using Suc.IH scan_ok_insert [of s "?A n" mx i mn j n] acc
      unfolding A by (cases "cs_is_active (sc_cpu_states s n)") (simp_all add: Let_def load)
  qed
  then show ?thesis
    unfolding balance_scan_def .
qed

lemma sched_wf_local:
  assumes "sched_wf s" "queue_live s (f (local_queue i s))" "i < MAX_CPUS"
  shows "sched_wf (upd_local i f s)"
  using assms sched_wfD(2) [OF assms(1,3)]
  by (auto simp: upd_local_def cpu_live_def local_queue_def intro!: sched_wf_cpu)

lemma upd_local_frame [simp]:
  "sc_lock (upd_local i f s) = sc_lock s" "sc_smp_lock (upd_local i f s) = sc_smp_lock s"
  "live (upd_local i f s) = live s" "sc_num_cpus (upd_local i f s) = sc_num_cpus s"
  "sc_tasks (upd_local i f s) = sc_tasks s"
  by (simp_all add: upd_local_def)

lemma local_queue_upd [simp]:
  "local_queue i (upd_local j f s) = (if i = j then f (local_queue j s) else local_queue i s)"
  by (simp add: local_queue_def upd_local_def)

text \<open>
  Either nothing happens, or the oldest task of a processor \<open>i\<close> with the most tasks becomes the
  last one of a processor \<open>j\<close> with the fewest, which has at least three less.
\<close>

lemma load_balance_spec:
  assumes "sched_wf s"
  shows "scheduler_load_balance s = Done s \<or>
     (\<exists>i j p. i < sc_num_cpus s \<and> j < sc_num_cpus s \<and> load s j + 2 < load s i \<and>
        cs_is_active (sc_cpu_states s i) \<and> cs_is_active (sc_cpu_states s j) \<and>
        (\<forall>k < sc_num_cpus s. cs_is_active (sc_cpu_states s k) \<longrightarrow> load s j \<le> load s k \<and> load s k \<le> load s i) \<and>
        tq_first (local_queue i s) = Some p \<and> live s p \<and> tq_count (local_queue j s) < MAX_TASKS \<and>
        scheduler_load_balance s = Done (upd_local j (tq_push (Some p)) (upd_local i tq_pop s)))"
proof -
  obtain mx i mn j where scan: "balance_scan s = (mx, i, mn, j)"
    by (metis prod_cases4)
  have ok: "scan_ok s {i. i < sc_num_cpus s \<and> cs_is_active (sc_cpu_states s i)} (mx, i, mn, j)"
    using balance_scan_ok [of s] scan by simp
  show ?thesis
  proof (cases "sc_num_cpus s > 1 \<and> mx > mn + 2 \<and> i \<noteq> j \<and> tq_count (local_queue i s) > 0")
    case False
    then show ?thesis
      using scan by (auto simp: scheduler_load_balance_def)
  next
    case True
    have small: "load s k \<le> 256" if "k < sc_num_cpus s" for k
      using sched_wfD(2) [OF assms, of k] sched_wfD(6) [OF assms] that
      by (simp add: cpu_live_def queue_live_def tq_ok_def ring_ok_def load_def local_queue_def MAX_TASKS_def)
    have mn0: "0 \<le> mn"
      using ok by (auto simp: scan_ok_def load_def INT_MAX_def)
    with True ok have i: "i < sc_num_cpus s" "mx = load s i" "cs_is_active (sc_cpu_states s i)"
      by (auto simp: scan_ok_def)
    with True ok small [OF i(1)] have j: "j < sc_num_cpus s" "mn = load s j" "cs_is_active (sc_cpu_states s j)"
      by (auto simp: scan_ok_def INT_MAX_def)
    have q: "queue_live s (local_queue i s)"
      using sched_wfD(2) [OF assms, of i] sched_wfD(6) [OF assms] i(1) by (simp add: cpu_live_def local_queue_def)
    have "0 < tq_count (local_queue i s)"
      using True by simp
    then obtain p where p: "tq_first (local_queue i s) = Some p" "live s p"
      using queue_live_pop(2) [OF q] by blast
    obtain t where t: "sc_tasks s p = Some t"
      using p(2) by (auto simp: live_def)
    have room: "tq_count (local_queue j s) < MAX_TASKS"
      using small [OF i(1)] True i(2) j(2) by (simp add: load_def MAX_TASKS_def)
    have "scheduler_load_balance s = Done (upd_local j (tq_push (Some p)) (upd_local i tq_pop s))"
      using True scan p t room by (simp add: scheduler_load_balance_def deref_def)
    then show ?thesis
      using True i j p ok room by (intro disjI2 exI [of _ i] exI [of _ j] exI [of _ p]) (auto simp: scan_ok_def)
  qed
qed

lemma load_balance_keeps:
  assumes "sched_wf s"
  shows "returns (scheduler_load_balance s) (keeps s)"
  using load_balance_spec [OF assms]
proof (elim disjE exE conjE)
  fix i j p
  assume i: "i < sc_num_cpus s" and j: "j < sc_num_cpus s" and gap: "load s j + 2 < load s i"
    and p: "live s p" and room: "tq_count (local_queue j s) < MAX_TASKS"
    and res: "scheduler_load_balance s = Done (upd_local j (tq_push (Some p)) (upd_local i tq_pop s))"
  have bound: "i < MAX_CPUS" "j < MAX_CPUS"
    using i j sched_wfD(6) [OF assms] by simp_all
  have q: "queue_live s (local_queue i s)" "queue_live s (local_queue j s)"
    using sched_wfD(2) [OF assms] bound by (simp_all add: cpu_live_def local_queue_def)
  have ne: "i \<noteq> j" "0 < tq_count (local_queue i s)"
    using gap by (auto simp: load_def)
  have "sched_wf (upd_local i tq_pop s)" (is "sched_wf ?s")
    using sched_wf_local [OF assms, of tq_pop i] queue_live_pop(1) [OF q(1) ne(2)] bound by simp
  moreover have "queue_live ?s = queue_live s"
    by (rule queue_live_cong) simp
  ultimately have "sched_wf (upd_local j (tq_push (Some p)) ?s)"
    using sched_wf_local [of ?s "tq_push (Some p)" j] queue_live_push [OF q(2) room p] ne bound by simp
  with res show ?thesis
    by (simp add: keeps_def)
qed (simp add: assms keeps_refl)

section \<open>Scheduling\<close>

interpretation sched_lock: spinlock_cell sched_lock_ref
  by unfold_locales (simp_all add: sched_lock_ref_def)

interpretation smp_lock: spinlock_cell smp_lock_ref
  by unfold_locales (simp_all add: smp_lock_ref_def)

definition lock_free :: "sched \<Rightarrow> bool" where
  "lock_free s \<longleftrightarrow> sl_lock (sc_lock s) = 0"

lemma acquire_lock:
  "lock_free s \<Longrightarrow> spinlock_acquire (Some sched_lock_ref) (s, ys) = Done (s\<lparr>sc_lock := \<lparr>sl_lock = 1\<rparr>\<rparr>, ys)"
  using sched_lock.acquire_free [of s ys] by (simp add: sched_lock_ref_def lock_free_def)

lemma release_lock: "spinlock_release (Some sched_lock_ref) s = s\<lparr>sc_lock := \<lparr>sl_lock = 0\<rparr>\<rparr>"
  by (simp add: sched_lock_ref_def)

lemma keeps_locked:
  assumes "lock_free s" "keeps (s\<lparr>sc_lock := l\<rparr>) s'"
  shows "keeps s (s'\<lparr>sc_lock := \<lparr>sl_lock = 0\<rparr>\<rparr>)"
  using assms by (simp add: keeps_def lock_free_def spinlock_free_iff)

lemma keeps_lock_free: "keeps s s' \<Longrightarrow> lock_free s \<Longrightarrow> lock_free s'"
  by (simp add: keeps_def lock_free_def)

abbreviation wkeeps :: "sched \<Rightarrow> (sched \<Rightarrow> sched) list \<Rightarrow> sched world \<Rightarrow> bool" where
  "wkeeps s ys \<equiv> \<lambda>(s', ys'). keeps s s' \<and> ys' = ys"

lemma balance_keeps:
  assumes "sched_wf s"
  shows "returns (balance_if_due s) (keeps s)"
proof -
  have "returns (scheduler_load_balance (s\<lparr>sc_load_balance_counter := 0\<rparr>)) (keeps (s\<lparr>sc_load_balance_counter := 0\<rparr>))"
    using assms by (simp add: load_balance_keeps)
  then have "returns (scheduler_load_balance (s\<lparr>sc_load_balance_counter := 0\<rparr>)) (keeps s)"
    by (rule returns_mono) (simp add: keeps_def)
  with assms show ?thesis
    by (simp add: balance_if_due_def keeps_refl)
qed

lemma dispatch_balance_keeps:
  assumes "sched_wf s" "live s p"
  shows "returns (rbind (dispatch p s) balance_if_due) (keeps s)"
  by (rule keeps_then [OF returns_mono [OF dispatch_keeps [OF assms]]])
    (auto intro: balance_keeps dest: keepsD)

lemma switch_to_next_keeps:
  assumes "lock_free s" "keeps (s\<lparr>sc_lock := \<lparr>sl_lock = 1\<rparr>\<rparr>) s2"
  shows "returns (switch_to_next s2) (keeps s)"
proof -
  obtain r s3 where next_task: "scheduler_get_next_task s2 = (r, s3)"
    by (cases "scheduler_get_next_task s2")
  note next_keeps = get_next_task_keeps [OF keepsD(1) [OF assms(2)] next_task]
  note k3 = keeps_trans [OF assms(2) next_keeps(1)]
  show ?thesis
  proof (cases r)
    case None
    with next_task keeps_locked [OF assms(1) k3] show ?thesis
      by (simp add: switch_to_next_def release_lock del: spinlock_release.simps)
  next
    case (Some p)
    note l = next_keeps(2) [OF Some]
    have "returns (task_switch_to (Some p) (s4\<lparr>sc_lock := \<lparr>sl_lock = 0\<rparr>\<rparr>)) (keeps s)" if "keeps s3 s4" for s4
    proof -
      have k4: "keeps s (s4\<lparr>sc_lock := \<lparr>sl_lock = 0\<rparr>\<rparr>)"
        using keeps_locked [OF assms(1) keeps_trans [OF k3 that]] .
      show ?thesis
        by (rule returns_mono [OF task_switch_keeps [OF keepsD(1) [OF k4]]])
          (use keepsD(2) [OF that l] k4 keeps_trans in auto)
    qed
    then have "returns (rbind (rbind (dispatch p s3) balance_if_due) (\<lambda>s4.
        task_switch_to (Some p) (s4\<lparr>sc_lock := \<lparr>sl_lock = 0\<rparr>\<rparr>))) (keeps s)"
      unfolding returns_rbind [of "rbind (dispatch p s3) balance_if_due"]
      by (intro returns_mono [OF dispatch_balance_keeps [OF keepsD(1) [OF k3] l]])
    with next_task Some show ?thesis
      by (simp add: switch_to_next_def release_lock del: spinlock_release.simps)
  qed
qed

lemma schedule_keeps:
  assumes "sched_wf s" "lock_free s"
  shows "returns (scheduler_schedule (s, ys)) (wkeeps s ys)"
proof -
  let ?s1 = "s\<lparr>sc_lock := \<lparr>sl_lock = 1\<rparr>\<rparr>"
  have "returns (rbind (requeue_current ?s1) scheduler_check_sleeping_tasks) (keeps ?s1)"
    by (rule keeps_then) (use assms in \<open>auto intro: requeue_keeps check_sleeping_keeps dest: keepsD\<close>)
  then have "returns (rbind (requeue_current ?s1) scheduler_check_sleeping_tasks)
      (\<lambda>s2. returns (switch_to_next s2) (keeps s))"
    by (rule returns_mono) (rule switch_to_next_keeps [OF assms(2)])
  then show ?thesis
    using assms(1)
    by (simp add: scheduler_schedule_def acquire_lock [OF assms(2)] keeps_refl del: spinlock_acquire.simps)
qed

section \<open>The public operations\<close>

abbreviation rkeeps :: "sched \<Rightarrow> (sched \<Rightarrow> sched) list \<Rightarrow> 'a \<times> sched world \<Rightarrow> bool" where
  "rkeeps s ys \<equiv> \<lambda>(r, s', ys'). keeps s s' \<and> ys' = ys"

text \<open>Results with the state: an update of the state under the lock, and then the release.\<close>

lemmas locked = acquire_lock release_lock

declare spinlock_acquire.simps [simp del] spinlock_release.simps [simp del]

lemma keeps_set_lock: "sched_wf s \<Longrightarrow> sched_wf (s\<lparr>sc_lock := l\<rparr>)"
  by simp

lemma find_lock [simp]: "scheduler_find_task_by_id task_id (s\<lparr>sc_lock := l\<rparr>) = scheduler_find_task_by_id task_id s"
  by (simp add: scheduler_find_task_by_id_def cong: option.case_cong)

lemma current_lock [simp]: "scheduler_get_current_task (s\<lparr>sc_lock := l\<rparr>) = scheduler_get_current_task s"
  by (simp add: scheduler_get_current_task_def)

lemma keeps_unlocked:
  assumes "lock_free s" "returns m (keeps (s\<lparr>sc_lock := l\<rparr>))"
  shows "returns m (\<lambda>s'. keeps s (s'\<lparr>sc_lock := \<lparr>sl_lock = 0\<rparr>\<rparr>))"
  by (rule returns_mono [OF assms(2)]) (rule keeps_locked [OF assms(1)])

lemma keeps_unlocked_refl: "sched_wf s \<Longrightarrow> lock_free s \<Longrightarrow> keeps s (s\<lparr>sc_lock := \<lparr>sl_lock = 0\<rparr>\<rparr>)"
  by (simp add: keeps_def lock_free_def spinlock_free_iff)

lemma tick_keeps:
  assumes "sched_wf s" "lock_free s"
  shows "returns (scheduler_tick (s, ys)) (wkeeps s ys)"
proof (cases "sc_preemption_enabled s \<and> scheduler_get_current_task s \<noteq> None")
  case False
  with assms show ?thesis
    by (auto simp: scheduler_tick_def Let_def keeps_def scheduler_get_current_task_def)
next
  case True
  then obtain p where pre: "sc_preemption_enabled s" and p: "scheduler_get_current_task s = Some p"
    by blast
  let ?s = "s\<lparr>sc_scheduler_ticks := sc_scheduler_ticks s + 1\<rparr>"
  have k: "keeps s ?s"
    using assms(1) by (simp add: keeps_def)
  have l: "live ?s p"
    using current_live [OF assms(1) p] by simp
  have "returns (upd_task p (\<lambda>t. if tk_time_slice t > 0 then t\<lparr>tk_time_slice := tk_time_slice t - 1\<rparr> else t) ?s)
      (\<lambda>s1. returns (rbind (deref p s1) (\<lambda>t. if tk_time_slice t = 0 then scheduler_schedule (s1, ys) else Done (s1, ys))) (wkeeps s ys))"
  proof (rule returns_mono [OF upd_task_keeps [OF keepsD(1) [OF k] l]])
    fix s1
    assume k1: "keeps ?s s1"
    obtain t where t: "deref p s1 = Done t"
      using deref_live [OF keepsD(2) [OF k1 l]] by blast
    note k2 = keeps_trans [OF k k1]
    have "returns (scheduler_schedule (s1, ys)) (wkeeps s ys)"
      by (rule returns_mono [OF schedule_keeps [OF keepsD(1) [OF k2] keeps_lock_free [OF k2 assms(2)]]])
        (use k2 in \<open>auto intro: keeps_trans\<close>)
    with t k2 show "returns (rbind (deref p s1) (\<lambda>t. if tk_time_slice t = 0 then scheduler_schedule (s1, ys) else Done (s1, ys))) (wkeeps s ys)"
      by simp
  qed
  with pre p show ?thesis
    by (simp add: scheduler_tick_def Let_def scheduler_get_current_task_def)
qed

text \<open>A change under the lock, followed by \<^verbatim>\<open>scheduler_schedule\<close>.\<close>

lemma then_schedule:
  assumes "lock_free s" "returns m (keeps (s\<lparr>sc_lock := l\<rparr>))"
  shows "returns (rbind m (\<lambda>s'. scheduler_schedule (s'\<lparr>sc_lock := \<lparr>sl_lock = 0\<rparr>\<rparr>, ys))) (wkeeps s ys)"
  unfolding returns_rbind
proof (rule returns_mono [OF keeps_unlocked [OF assms]])
  fix s'
  assume k: "keeps s (s'\<lparr>sc_lock := \<lparr>sl_lock = 0\<rparr>\<rparr>)"
  show "returns (scheduler_schedule (s'\<lparr>sc_lock := \<lparr>sl_lock = 0\<rparr>\<rparr>, ys)) (wkeeps s ys)"
    by (rule returns_mono [OF schedule_keeps [OF keepsD(1) [OF k] keeps_lock_free [OF k assms(1)]]])
      (use k in \<open>auto intro: keeps_trans\<close>)
qed

lemma block_current_keeps:
  assumes "sched_wf s" "lock_free s"
  shows "returns (scheduler_block_current_task (s, ys)) (wkeeps s ys)"
proof (cases "scheduler_get_current_task s")
  case None
  with assms show ?thesis
    by (simp add: scheduler_block_current_task_def keeps_refl)
next
  case (Some p)
  have "returns (upd_task p (\<lambda>t. t\<lparr>tk_state := TASK_STATE_BLOCKED\<rparr>) (s\<lparr>sc_lock := \<lparr>sl_lock = 1\<rparr>\<rparr>))
      (keeps (s\<lparr>sc_lock := \<lparr>sl_lock = 1\<rparr>\<rparr>))"
    using assms current_live [OF assms(1) Some] by (simp add: upd_task_keeps)
  from then_schedule [OF assms(2) this] Some show ?thesis
    by (simp add: scheduler_block_current_task_def locked assms(2))
qed

lemma find_then_keeps:
  assumes "sched_wf s" "\<And>p. has_id s task_id p \<Longrightarrow> live s p \<Longrightarrow> returns (f (Some p)) Q" "returns (f None) Q"
  shows "returns (rbind (scheduler_find_task_by_id task_id s) f) Q"
  unfolding returns_rbind
proof (rule returns_mono [OF find_task_spec [OF assms(1)]])
  fix r
  assume "found_ok s task_id r"
  then show "returns (f r) Q"
    using assms(2,3) has_id_live by (cases r) auto
qed

lemma unblock_keeps:
  assumes "sched_wf s" "lock_free s"
  shows "returns (scheduler_unblock_task task_id (s, ys)) (wkeeps s ys)"
proof -
  let ?s1 = "s\<lparr>sc_lock := \<lparr>sl_lock = 1\<rparr>\<rparr>"
  have wf: "sched_wf ?s1"
    using assms(1) by simp
  have "returns (rbind (scheduler_find_task_by_id task_id ?s1) (\<lambda>task.
      case task of None \<Rightarrow> Done ?s1 | Some p \<Rightarrow> wake_if_blocked p ?s1)) (keeps ?s1)"
    by (rule find_then_keeps [OF wf]) (use wf in \<open>simp_all add: keeps_refl wake_keeps\<close>)
  from keeps_unlocked [OF assms(2) this] show ?thesis
    by (simp add: scheduler_unblock_task_def locked assms(2))
qed

lemma set_insert_sleeping: "set (insert_sleeping e es) = insert e (set es)"
  by (induction es) auto

lemma add_sleeping_keeps:
  assumes "sched_wf s" "live s p"
  shows "returns (scheduler_add_sleeping_task alloc_ok (Some p) ms s) (keeps s)"
proof -
  let ?s = "s\<lparr>sc_sleeping_tasks := insert_sleeping \<lparr>st_task = p,
      st_wake_time = sc_scheduler_ticks s + ms div of_nat MILLISECONDS_PER_TICK\<rparr> (sc_sleeping_tasks s)\<rparr>"
  have wf: "sched_wf ?s"
    using assms sched_wfD(3) [OF assms(1)] by (intro sched_wf_sleeping) (auto simp: set_insert_sleeping)
  have "returns (upd_task p (\<lambda>t. t\<lparr>tk_state := TASK_STATE_BLOCKED\<rparr>) ?s) (keeps ?s)"
    using wf assms(2) by (simp add: upd_task_keeps)
  then have "returns (upd_task p (\<lambda>t. t\<lparr>tk_state := TASK_STATE_BLOCKED\<rparr>) ?s) (keeps s)"
    by (rule returns_mono) (simp add: keeps_def)
  with assms(1) show ?thesis
    by (simp add: scheduler_add_sleeping_task_def keeps_refl Let_def)
qed

lemma sleep_keeps:
  assumes "sched_wf s" "lock_free s"
  shows "returns (scheduler_sleep alloc_ok ms (s, ys)) (rkeeps s ys)"
proof (cases "ms = 0")
  case True
  have "returns (scheduler_yield (s, ys)) (wkeeps s ys)"
    using assms schedule_keeps by (simp add: scheduler_yield_def keeps_refl)
  then show ?thesis
    using True by (auto simp: scheduler_sleep_def elim!: returns_mono)
next
  case ms: False
  show ?thesis
  proof (cases "scheduler_get_current_task s")
    case None
    with assms ms show ?thesis
      by (simp add: scheduler_sleep_def locked keeps_unlocked_refl)
  next
    case (Some p)
    let ?s1 = "s\<lparr>sc_lock := \<lparr>sl_lock = 1\<rparr>\<rparr>"
    have "returns (scheduler_add_sleeping_task alloc_ok (Some p) (ucast ms) ?s1) (keeps ?s1)"
      using assms(1) current_live [OF assms(1) Some] by (simp add: add_sleeping_keeps)
    from then_schedule [OF assms(2) this, of ys] show ?thesis
      using ms Some by (simp add: scheduler_sleep_def locked assms(2) case_prod_unfold)
  qed
qed

lemma take_sleeping_spec:
  assumes "\<forall>e \<in> set es. live s (st_task e)"
  shows "returns (take_sleeping (sc_tasks s) task_id es) (\<lambda>r.
     case r of None \<Rightarrow> True | Some (p, rest) \<Rightarrow> live s p \<and> set rest \<subseteq> set es)"
  using assms
proof (induction es)
  case Nil
  then show ?case by simp
next
  case (Cons e es)
  then obtain t where t: "sc_tasks s (st_task e) = Some t"
    by (auto simp: live_def)
  have "returns (take_sleeping (sc_tasks s) task_id es) (\<lambda>r.
     case map_option (\<lambda>(p, rest). (p, e # rest)) r of None \<Rightarrow> True | Some (p, rest) \<Rightarrow> live s p \<and> set rest \<subseteq> set (e # es))"
    by (rule returns_mono [OF Cons.IH]) (use Cons.prems in \<open>auto split: option.splits\<close>)
  with t Cons.prems show ?case
    by auto
qed

lemma wake_task_keeps:
  assumes "sched_wf s" "lock_free s"
  shows "returns (scheduler_wake_task task_id (s, ys)) (rkeeps s ys)"
proof -
  let ?s1 = "s\<lparr>sc_lock := \<lparr>sl_lock = 1\<rparr>\<rparr>"
  have sleepers: "\<forall>e \<in> set (sc_sleeping_tasks ?s1). live ?s1 (st_task e)"
    using sched_wfD(3) [OF assms(1)] by simp
  have "returns (take_sleeping (sc_tasks ?s1) task_id (sc_sleeping_tasks ?s1)) (\<lambda>found. returns (
       case found of
         None \<Rightarrow> Done (-1, spinlock_release (Some sched_lock_ref) ?s1, ys)
       | Some (p, rest) \<Rightarrow>
           rbind (wake_if_blocked p ?s1) (\<lambda>s.
             Done (0, spinlock_release (Some sched_lock_ref) (s\<lparr>sc_sleeping_tasks := rest\<rparr>), ys))) (rkeeps s ys))"
  proof (rule returns_mono [OF take_sleeping_spec [OF sleepers]])
    fix found
    assume ok: "case found of None \<Rightarrow> True | Some (p, rest) \<Rightarrow> live ?s1 p \<and> set rest \<subseteq> set (sc_sleeping_tasks ?s1)"
    have woken: "returns (wake_if_blocked p ?s1) (\<lambda>s'. keeps s (s'\<lparr>sc_sleeping_tasks := rest, sc_lock := \<lparr>sl_lock = 0\<rparr>\<rparr>))"
      if "live ?s1 p" "set rest \<subseteq> set (sc_sleeping_tasks ?s1)" for p rest
    proof (rule returns_mono [OF wake_keeps])
      fix s2
      assume k: "keeps ?s1 s2"
      have "\<forall>e \<in> set rest. live s2 (st_task e)"
        using that(2) sleepers keepsD(2) [OF k] by blast
      then have "keeps s2 (s2\<lparr>sc_sleeping_tasks := rest\<rparr>)"
        using sched_wf_sleeping [OF keepsD(1) [OF k]] by (simp add: keeps_def)
      from keeps_locked [OF assms(2) keeps_trans [OF k this]]
      show "keeps s (s2\<lparr>sc_sleeping_tasks := rest, sc_lock := \<lparr>sl_lock = 0\<rparr>\<rparr>)" .
    qed (use assms that in simp_all)
    with ok assms show "returns (
       case found of
         None \<Rightarrow> Done (-1, spinlock_release (Some sched_lock_ref) ?s1, ys)
       | Some (p, rest) \<Rightarrow>
           rbind (wake_if_blocked p ?s1) (\<lambda>s.
             Done (0, spinlock_release (Some sched_lock_ref) (s\<lparr>sc_sleeping_tasks := rest\<rparr>), ys))) (rkeeps s ys)"
      by (auto simp: release_lock keeps_unlocked_refl split: option.splits)
  qed
  then show ?thesis
    by (simp add: scheduler_wake_task_def acquire_lock [OF assms(2)])
qed

lemma keeps_store_int: "sched_wf s \<Longrightarrow> keeps s (store_int ptr v s)"
  by (cases ptr) (simp_all add: store_int_def keeps_def)

lemma waiting_loop_keeps:
  assumes "sched_wf s"
  shows "returns (waiting_loop task_id exit_code es s) (\<lambda>(kept, s'). keeps s s')"
  using assms
proof (induction es arbitrary: s)
  case Nil
  then show ?case by (simp add: keeps_refl)
next
  case (Cons e es)
  let ?s1 = "store_int (wp_exit_code_ptr e) exit_code s"
  have k1: "keeps s ?s1"
    using keeps_store_int [OF Cons.prems] .
  have rest: "returns (rbind m (waiting_loop task_id exit_code es)) (\<lambda>(kept, s'). keeps s s')"
    if m: "returns m (keeps ?s1)" for m
    unfolding returns_rbind
  proof (rule returns_mono [OF m])
    fix s2
    assume "keeps ?s1 s2"
    with k1 have k2: "keeps s s2"
      by (rule keeps_trans)
    show "returns (waiting_loop task_id exit_code es s2) (\<lambda>(kept, s'). keeps s s')"
      by (rule returns_mono [OF Cons.IH [OF keepsD(1) [OF k2]]]) (use k2 in \<open>auto intro: keeps_trans\<close>)
  qed
  show ?case
  proof (cases "wp_child_id e = task_id")
    case True
    have "returns (rbind (scheduler_find_task_by_id (wp_parent_id e) s) (\<lambda>parent.
        rbind (case parent of None \<Rightarrow> Done ?s1 | Some p \<Rightarrow> wake_if_blocked p ?s1) (waiting_loop task_id exit_code es)))
        (\<lambda>(kept, s'). keeps s s')"
      by (rule find_then_keeps [OF Cons.prems]; rule rest)
        (use k1 in \<open>auto intro!: wake_keeps keeps_refl dest: keepsD\<close>)
    with True show ?thesis
      by (simp add: Let_def)
  next
    case False
    have "returns (waiting_loop task_id exit_code es s) (\<lambda>r. returns (case r of (kept, s) \<Rightarrow> Done (e # kept, s)) (\<lambda>(kept, s'). keeps s s'))"
      by (rule returns_mono [OF Cons.IH [OF Cons.prems]]) auto
    with False show ?thesis
      by simp
  qed
qed

lemma check_waiting_keeps:
  assumes "sched_wf s"
  shows "returns (scheduler_check_waiting_parents task_id exit_code s) (keeps s)"
  unfolding scheduler_check_waiting_parents_def returns_rbind
  by (rule returns_mono [OF waiting_loop_keeps [OF assms]]) (auto simp: keeps_def)

lemma mark_terminated_keeps:
  assumes "sched_wf s" "live s p"
  shows "returns (mark_terminated task_id exit_code p s) (keeps s)"
  unfolding mark_terminated_def
proof (rule keeps_then)
  show "returns (rbind (upd_task p (\<lambda>t. t\<lparr>tk_state := TASK_STATE_ZOMBIE, tk_exit_code := exit_code\<rparr>) s)
      (scheduler_remove_task_from_ready_queue task_id)) (keeps s)"
    by (rule keeps_then [OF upd_task_keeps [OF assms]]) (rule remove_keeps, erule keepsD)
next
  fix s2
  assume "keeps s s2"
  then have "sched_wf s2"
    by (rule keepsD)
  then show "returns (scheduler_check_waiting_parents task_id exit_code
      (s2\<lparr>sc_destroyed_spaces := sc_destroyed_spaces s2 @ [task_id]\<rparr>)) (keeps s2)"
    by (intro returns_mono [OF check_waiting_keeps]) (simp_all add: keeps_def)
qed

lemma leave_if_current_keeps:
  assumes "lock_free s" and k: "keeps (s\<lparr>sc_lock := \<lparr>sl_lock = 1\<rparr>\<rparr>) s2"
  shows "returns (leave_if_current task_id s2 ys) (rkeeps s ys)"
proof -
  have k2: "keeps s (s2\<lparr>sc_lock := \<lparr>sl_lock = 0\<rparr>\<rparr>)"
    using keeps_locked [OF assms] .
  have sch: "returns (scheduler_schedule (s2\<lparr>sc_lock := \<lparr>sl_lock = 0\<rparr>\<rparr>, ys)) (wkeeps s ys)"
    by (rule returns_mono [OF schedule_keeps [OF keepsD(1) [OF k2] keeps_lock_free [OF k2 assms(1)]]])
      (use k2 in \<open>auto intro: keeps_trans\<close>)
  have "returns (case scheduler_get_current_task s2 of
                None \<Rightarrow> Done False
              | Some c \<Rightarrow> rbind (deref c s2) (\<lambda>t. Done (tk_id t = task_id))) (\<lambda>_. True)"
    using current_live [OF keepsD(1) [OF k]] deref_live by (fastforce split: option.splits)
  then show ?thesis
    unfolding leave_if_current_def returns_rbind
    by (rule returns_mono) (use sch k2 in \<open>auto simp: release_lock Let_def elim!: returns_mono\<close>)
qed

lemma terminate_keeps:
  assumes "sched_wf s" "lock_free s"
  shows "returns (scheduler_terminate_task task_id exit_code (s, ys)) (rkeeps s ys)"
proof -
  let ?s1 = "s\<lparr>sc_lock := \<lparr>sl_lock = 1\<rparr>\<rparr>"
  have wf: "sched_wf ?s1"
    using assms(1) by simp
  have "returns (rbind (mark_terminated task_id exit_code p ?s1) (\<lambda>s. leave_if_current task_id s ys)) (rkeeps s ys)"
    if "live ?s1 p" for p
    unfolding returns_rbind
    by (rule returns_mono [OF mark_terminated_keeps [OF wf that]]) (rule leave_if_current_keeps [OF assms(2)])
  then have "returns (rbind (scheduler_find_task_by_id task_id ?s1) (\<lambda>task. case task of
       None \<Rightarrow> Done (-1, spinlock_release (Some sched_lock_ref) ?s1, ys)
     | Some p \<Rightarrow> rbind (mark_terminated task_id exit_code p ?s1) (\<lambda>s. leave_if_current task_id s ys))) (rkeeps s ys)"
    by (intro find_then_keeps [OF wf]) (use assms in \<open>auto simp: release_lock keeps_unlocked_refl\<close>)
  then show ?thesis
    by (simp add: scheduler_terminate_task_def acquire_lock [OF assms(2)])
qed

lemma set_priority_keeps:
  assumes "sched_wf s" "lock_free s"
  shows "returns (scheduler_set_task_priority task_id priority (s, ys)) (rkeeps s ys)"
proof -
  let ?s1 = "s\<lparr>sc_lock := \<lparr>sl_lock = 1\<rparr>\<rparr>"
  have wf: "sched_wf ?s1"
    using assms(1) by simp
  have upd: "returns (upd_task p f ?s1) (\<lambda>s'. keeps s (s'\<lparr>sc_lock := \<lparr>sl_lock = 0\<rparr>\<rparr>))" if "live ?s1 p" for p f
    using keeps_unlocked [OF assms(2) upd_task_keeps [OF wf that]] .
  have "returns (rbind (scheduler_find_task_by_id task_id ?s1) (\<lambda>task. case task of
        None \<Rightarrow> Done (-1, spinlock_release (Some sched_lock_ref) ?s1, ys)
      | Some p \<Rightarrow>
          rbind (upd_task p (\<lambda>t. t\<lparr>tk_priority :=
              if priority \<ge> of_nat MAX_PRIORITY then of_nat MAX_PRIORITY - 1 else priority\<rparr>) ?s1) (\<lambda>s.
            Done (0, spinlock_release (Some sched_lock_ref) s, ys)))) (rkeeps s ys)"
    by (rule find_then_keeps [OF wf]) (use assms upd in \<open>auto simp: release_lock keeps_unlocked_refl\<close>)
  then show ?thesis
    by (simp add: scheduler_set_task_priority_def acquire_lock [OF assms(2)] Let_def)
qed

lemma push_local_keeps:
  assumes "sched_wf s" "live s p" "i < sc_num_cpus s" "tq_count (local_queue i s) < MAX_TASKS"
  shows "keeps s (upd_local i (tq_push (Some p)) s)"
proof -
  have i: "i < MAX_CPUS"
    using assms(3) sched_wfD(6) [OF assms(1)] by simp
  have "queue_live s (local_queue i s)"
    using sched_wfD(2) [OF assms(1) i] by (simp add: cpu_live_def local_queue_def)
  then have "sched_wf (upd_local i (tq_push (Some p)) s)"
    using sched_wf_local [OF assms(1), of "tq_push (Some p)" i] queue_live_push assms(2,4) i by blast
  then show ?thesis
    by (simp add: keeps_def)
qed

lemma place_task_keeps:
  assumes "lock_free s" "keeps (s\<lparr>sc_lock := l\<rparr>) s2" "live s2 p" "cpu < sc_num_cpus s2"
  shows "returns (place_task cpu p s2) (\<lambda>(r, s'). keeps s s')"
proof -
  note wf2 = keepsD(1) [OF assms(2)]
  have "returns (scheduler_add_task (Some p) s2) (keeps (s\<lparr>sc_lock := l\<rparr>))"
    by (rule returns_mono [OF add_task_keeps [OF wf2 assms(3)]]) (rule keeps_trans [OF assms(2)])
  from keeps_unlocked [OF assms(1) this]
  have "returns (scheduler_add_task (Some p) s2) (\<lambda>s'. keeps s (s'\<lparr>sc_lock := \<lparr>sl_lock = 0\<rparr>\<rparr>))" .
  moreover have "keeps s ((upd_local cpu (tq_push (Some p)) s2)\<lparr>sc_lock := \<lparr>sl_lock = 0\<rparr>\<rparr>)"
    if "tq_count (local_queue cpu s2) < MAX_TASKS"
    by (rule keeps_locked [OF assms(1) keeps_trans [OF assms(2) push_local_keeps [OF wf2 assms(3,4) that]]])
  ultimately show ?thesis
    by (simp add: place_task_def release_lock)
qed

lemma remove_num_cpus:
  assumes "sched_wf s"
  shows "returns (scheduler_remove_task_from_ready_queue task_id s) (\<lambda>s2. keeps s s2 \<and> sc_num_cpus s2 = sc_num_cpus s)"
proof -
  have "sc_num_cpus s2 = sc_num_cpus s" if "scheduler_remove_task_from_ready_queue task_id s = Done s2" for s2
    using that by (auto simp: scheduler_remove_task_from_ready_queue_def split: option.splits)
  with remove_keeps [OF assms, of task_id] show ?thesis
    unfolding returns_def by blast
qed

lemma migrate_keeps:
  assumes "sched_wf s" "lock_free s"
  shows "returns (scheduler_migrate_task task_id cpu_id (s, ys)) (rkeeps s ys)"
proof (cases "cpu_id < 0 \<or> cpu_id \<ge> int (sc_num_cpus s) \<or> \<not> cs_is_active (sc_cpu_states s (nat cpu_id))")
  case True
  with assms show ?thesis
    by (simp add: scheduler_migrate_task_def keeps_refl)
next
  case False
  let ?s1 = "s\<lparr>sc_lock := \<lparr>sl_lock = 1\<rparr>\<rparr>"
  have cpu: "nat cpu_id < sc_num_cpus ?s1" and wf: "sched_wf ?s1"
    using False assms(1) by (simp_all add: nat_less_iff)
  have "returns (rbind (scheduler_remove_task_from_ready_queue task_id ?s1) (place_task (nat cpu_id) p)) (\<lambda>(r, s'). keeps s s')"
    if "live ?s1 p" for p
    unfolding returns_rbind
    by (rule returns_mono [OF remove_num_cpus [OF wf]], rule place_task_keeps [OF assms(2)])
      (use cpu that in \<open>auto dest: keepsD\<close>)
  then have "returns (rbind (rbind (scheduler_remove_task_from_ready_queue task_id ?s1) (place_task (nat cpu_id) p))
      (\<lambda>(r, s). Done (r, s, ys))) (rkeeps s ys)" if "live ?s1 p" for p
    using that by (subst returns_rbind) (rule returns_mono, blast, auto)
  then have "returns (rbind (scheduler_find_task_by_id task_id ?s1) (\<lambda>task. case task of
        None \<Rightarrow> Done (-2, spinlock_release (Some sched_lock_ref) ?s1, ys)
      | Some p \<Rightarrow> rbind (rbind (scheduler_remove_task_from_ready_queue task_id ?s1) (place_task (nat cpu_id) p))
          (\<lambda>(r, s). Done (r, s, ys)))) (rkeeps s ys)"
    by (intro find_then_keeps [OF wf]) (use assms in \<open>auto simp: release_lock keeps_unlocked_refl\<close>)
  with False show ?thesis
    by (simp add: scheduler_migrate_task_def acquire_lock [OF assms(2)] cong: option.case_cong)
qed

end
