(* ===== verification/Scheduler_Calls.thy ===== *)
theory Scheduler_Calls
  imports Scheduler_Safety
begin

text \<open>
  Every public operation of the scheduler as one step, and the memory safety of all sequences of
  calls from \<^verbatim>\<open>scheduler_init\<close>.
\<close>

section \<open>Setting up\<close>

lemma current_id_returns: "sched_wf s \<Longrightarrow> \<exists>i. current_id s = Done i"
  using current_live deref_live
  by (cases "scheduler_get_current_task s") (fastforce simp: current_id_def)+

lemma enter_keeps:
  assumes "sched_wf s"
  shows "returns (rbind (task_setup_context p (s\<lparr>sc_tasks := (sc_tasks s)(p \<mapsto> new)\<rparr>)) (scheduler_add_task (Some p))) (keeps s)"
proof -
  let ?s = "s\<lparr>sc_tasks := (sc_tasks s)(p \<mapsto> new)\<rparr>"
  have wf: "sched_wf ?s" and l: "live ?s p"
    using sched_wf_store [OF assms] by simp_all
  have "returns (task_setup_context p ?s) (keeps ?s)"
  proof (cases "tk_stack new")
    case None
    then show ?thesis
      using keeps_refl [OF wf] by (simp add: task_setup_context_def deref_def)
  next
    case (Some st)
    then show ?thesis
      using upd_task_keeps [OF wf l] by (simp add: task_setup_context_def deref_def)
  qed
  then have "returns (rbind (task_setup_context p ?s) (scheduler_add_task (Some p))) (keeps ?s)"
  proof (rule keeps_then)
    fix s'
    assume k: "keeps ?s s'"
    show "returns (scheduler_add_task (Some p) s') (keeps s')"
      by (rule add_task_keeps [OF keepsD(1) [OF k] keepsD(2) [OF k l]])
  qed
  then show ?thesis
    by (rule returns_mono) (auto simp: keeps_def)
qed

lemma create_task_keeps:
  assumes "sched_wf s" "lock_free s" "\<And>p. task_mem = Some p \<Longrightarrow> sc_tasks s p = None"
  shows "returns (scheduler_create_task task_mem stack_mem entry_point name priority flags (s, ys)) (rkeeps s ys)"
proof (cases task_mem)
  case None
  with assms show ?thesis
    by (simp add: scheduler_create_task_def locked keeps_unlocked_refl)
next
  case (Some p)
  let ?s1 = "s\<lparr>sc_lock := \<lparr>sl_lock = 1\<rparr>\<rparr>"
  let ?s2 = "?s1\<lparr>sc_next_task_id := i32 (sc_next_task_id s + 1)\<rparr>"
  have wf: "sched_wf ?s2" and k2: "keeps ?s1 ?s2"
    using assms(1) by (simp_all add: keeps_def)
  have free: "?s2\<lparr>sc_tasks := (sc_tasks s)(p := None)\<rparr> = ?s2"
    using assms(3) [OF Some] by (simp add: fun_upd_idem)
  obtain i where i: "current_id ?s2 = Done i"
    using current_id_returns [OF wf] by blast
  show ?thesis
  proof (cases stack_mem)
    case None
    with Some i free keeps_locked [OF assms(2) k2] show ?thesis
      by (simp add: scheduler_create_task_def locked assms(2) Let_def)
  next
    case stack: (Some st)
    let ?new = "initial_task (sc_next_task_id s) i stack_mem entry_point name priority flags"
    let ?m = "rbind (task_setup_context p (?s2\<lparr>sc_tasks := (sc_tasks ?s2)(p \<mapsto> ?new)\<rparr>)) (scheduler_add_task (Some p))"
    have "returns ?m (keeps ?s1)"
      by (rule returns_mono [OF enter_keeps [OF wf]]) (rule keeps_trans [OF k2])
    from keeps_unlocked [OF assms(2) this]
    have "returns ?m (\<lambda>s'. keeps s (s'\<lparr>sc_lock := \<lparr>sl_lock = 0\<rparr>\<rparr>))" .
    with Some stack i show ?thesis
      by (simp add: scheduler_create_task_def locked assms(2) Let_def)
  qed
qed

lemma register_idle_keeps:
  assumes "sched_wf s" "live s p"
  shows "returns (scheduler_register_idle_task p s) (keeps s)"
proof -
  let ?s = "s\<lparr>sc_idle_task := Some p\<rparr>"
  have eqs: "live ?s = live s" "queue_live ?s = queue_live s" "cpu_live ?s = cpu_live s"
    using live_cong [of ?s s] queue_live_cong [of ?s s] cpu_live_cong [of ?s s] by simp_all
  then have "sched_wf ?s"
    using assms by (simp add: sched_wf_def)
  then have "returns (scheduler_register_idle_task p s) (keeps ?s)"
    unfolding scheduler_register_idle_task_def using assms(2) eqs by (intro upd_task_keeps) simp_all
  then show ?thesis
    by (rule returns_mono) (simp add: keeps_def eqs)
qed

lemma clamp_cpus_bounds: "0 < clamp_cpus n" "clamp_cpus n \<le> MAX_CPUS"
  by (auto simp: clamp_cpus_def Let_def MAX_CPUS_def)

lemma reset_cpu_live:
  assumes "cpu_live s c"
  shows "cpu_live s (reset_cpu c)"
  using assms by (simp add: reset_cpu_def cpu_live_def queue_live_def tq_ok_def tq_list_def ring_ok_def)

lemma reset_cpus_keeps:
  assumes "sched_wf s" "0 < n" "n \<le> MAX_CPUS"
  shows "keeps s (reset_cpus n s)"
proof -
  let ?s = "reset_cpus n s"
  have tasks: "sc_tasks ?s = sc_tasks s"
    by (simp add: reset_cpus_def)
  note eqs = live_cong [OF tasks] queue_live_cong [OF tasks] cpu_live_cong [OF tasks]
  have "sched_wf ?s"
    using assms reset_cpu_live unfolding sched_wf_def eqs by (simp add: reset_cpus_def)
  then show ?thesis
    using eqs by (simp add: keeps_def reset_cpus_def)
qed

lemma init_smp_keeps:
  assumes "sched_wf s" "sl_lock (sc_smp_lock s) = 0"
  shows "returns (scheduler_init_smp n (s, ys)) (wkeeps s ys)"
proof -
  let ?s1 = "s\<lparr>sc_smp_lock := \<lparr>sl_lock = 1\<rparr>\<rparr>"
  have "keeps ?s1 (reset_cpus (clamp_cpus n) ?s1)"
    using reset_cpus_keeps clamp_cpus_bounds assms(1) by simp
  then have "keeps s ((reset_cpus (clamp_cpus n) ?s1)\<lparr>sc_smp_lock := \<lparr>sl_lock = 0\<rparr>\<rparr>)"
    using assms(2) by (simp add: keeps_def spinlock_free_iff)
  moreover have "spinlock_acquire (Some smp_lock_ref) (s, ys) = Done (?s1, ys)"
    using smp_lock.acquire_free [of s ys] assms(2) by (simp add: smp_lock_ref_def)
  ultimately show ?thesis
    by (simp add: scheduler_init_smp_def smp_lock_ref_def spinlock_release.simps)
qed

text \<open>
  The task to wait for has not already ended. \<^verbatim>\<open>scheduler_waitpid\<close> frees the structure of a task that
  has, and leaves pointers to it behind.
\<close>

definition no_reap :: "int \<Rightarrow> sched \<Rightarrow> bool" where
  "no_reap task_id s =
     (case scheduler_find_task_by_id task_id s of
        Done (Some p) \<Rightarrow> (case sc_tasks s p of None \<Rightarrow> True | Some t \<Rightarrow> tk_state t \<noteq> TASK_STATE_ZOMBIE)
      | _ \<Rightarrow> True)"

lemma add_waiting_keeps: "sched_wf s \<Longrightarrow> keeps s (scheduler_add_waiting_parent alloc_ok a b c d s)"
  by (simp add: scheduler_add_waiting_parent_def keeps_def)

lemma waitpid_keeps:
  assumes "sched_wf s" "lock_free s" "no_reap task_id s"
  shows "returns (scheduler_waitpid alloc_ok task_id exit_code options (s, ys)) (rkeeps s ys)"
proof (cases "scheduler_get_current_task s")
  case None
  with assms show ?thesis
    by (simp add: scheduler_waitpid_def locked keeps_unlocked_refl)
next
  case cur: (Some c)
  let ?s1 = "s\<lparr>sc_lock := \<lparr>sl_lock = 1\<rparr>\<rparr>"
  have wf: "sched_wf ?s1"
    using assms(1) by simp
  obtain t where t: "deref c ?s1 = Done t" "live ?s1 c"
    using current_live [OF assms(1) cur] deref_live [of ?s1 c] by auto
  obtain r where r: "scheduler_find_task_by_id task_id s = Done r" "found_ok s task_id r"
    using find_task_spec [OF assms(1)] unfolding returns_def by blast
  show ?thesis
  proof (cases r)
    case None
    with assms cur r t show ?thesis
      by (simp add: scheduler_waitpid_def locked keeps_unlocked_refl)
  next
    case (Some p)
    then obtain pt where pt: "sc_tasks s p = Some pt"
      using r(2) by (auto simp: has_id_def)
    then have "tk_state pt \<noteq> TASK_STATE_ZOMBIE"
      using assms(3) r(1) Some by (simp add: no_reap_def)
    moreover
    let ?w = "scheduler_add_waiting_parent alloc_ok (tk_id t) task_id exit_code options ?s1"
    note kw = add_waiting_keeps [OF wf]
    have "returns (upd_task c (\<lambda>t. t\<lparr>tk_state := TASK_STATE_BLOCKED\<rparr>) ?w) (keeps ?s1)"
      by (rule returns_mono [OF upd_task_keeps [OF keepsD(1) [OF kw] keepsD(2) [OF kw t(2)]]]) (rule keeps_trans [OF kw])
    from then_schedule [OF assms(2) this, of ys] have "returns (upd_task c (\<lambda>t. t\<lparr>tk_state := TASK_STATE_BLOCKED\<rparr>) ?w)
        (\<lambda>s'. returns (scheduler_schedule (s'\<lparr>sc_lock := \<lparr>sl_lock = 0\<rparr>\<rparr>, ys)) (wkeeps s ys))"
      by simp
    ultimately show ?thesis
      using assms cur r Some t pt
      by (simp add: scheduler_waitpid_def locked keeps_unlocked_refl deref_def case_prod_unfold)
  qed
qed

section \<open>All calls\<close>

datatype sched_call =
    InitSmp int
  | RegisterIdle tptr
  | CreateTask "tptr option" "u32 option" u32 "string option" u32 u32
  | Schedule
  | Tick
  | Preemption bool
  | Yield
  | BlockCurrent
  | Unblock int
  | Sleep bool u32
  | WakeTask int
  | Waitpid bool int "nat option" int
  | Terminate int int
  | SetPriority int u32
  | Migrate int int
  | SetAlgorithm int
  | SetQuantum u32

text \<open>The state after a call that no other processor interferes with.\<close>

fun sched_exec :: "sched_call \<Rightarrow> sched \<Rightarrow> sched run" where
  "sched_exec (InitSmp n) s = rmap fst (scheduler_init_smp n (s, []))"
| "sched_exec (RegisterIdle p) s = scheduler_register_idle_task p s"
| "sched_exec (CreateTask task_mem stack_mem entry nm prio flags) s =
     rmap (\<lambda>(_, s, _). s) (scheduler_create_task task_mem stack_mem entry nm prio flags (s, []))"
| "sched_exec Schedule s = rmap fst (scheduler_schedule (s, []))"
| "sched_exec Tick s = rmap fst (scheduler_tick (s, []))"
| "sched_exec (Preemption b) s =
     Done (if b then scheduler_enable_preemption s else scheduler_disable_preemption s)"
| "sched_exec Yield s = rmap fst (scheduler_yield (s, []))"
| "sched_exec BlockCurrent s = rmap fst (scheduler_block_current_task (s, []))"
| "sched_exec (Unblock i) s = rmap fst (scheduler_unblock_task i (s, []))"
| "sched_exec (Sleep alloc ms) s = rmap (\<lambda>(_, s, _). s) (scheduler_sleep alloc ms (s, []))"
| "sched_exec (WakeTask i) s = rmap (\<lambda>(_, s, _). s) (scheduler_wake_task i (s, []))"
| "sched_exec (Waitpid alloc i ptr opts) s = rmap (\<lambda>(_, s, _). s) (scheduler_waitpid alloc i ptr opts (s, []))"
| "sched_exec (Terminate i code) s = rmap (\<lambda>(_, s, _). s) (scheduler_terminate_task i code (s, []))"
| "sched_exec (SetPriority i prio) s = rmap (\<lambda>(_, s, _). s) (scheduler_set_task_priority i prio (s, []))"
| "sched_exec (Migrate i cpu) s = rmap (\<lambda>(_, s, _). s) (scheduler_migrate_task i cpu (s, []))"
| "sched_exec (SetAlgorithm a) s = Done (snd (scheduler_set_algorithm a s))"
| "sched_exec (SetQuantum q) s = Done (scheduler_set_quantum q s)"

fun sched_calls :: "sched_call list \<Rightarrow> sched \<Rightarrow> sched run" where
  "sched_calls [] s = Done s"
| "sched_calls (c # cs) s = rbind (sched_exec c s) (sched_calls cs)"

text \<open>
  What the callers and the allocator guarantee: fresh memory for a new task, an allocated idle
  task, and no wait for a task that has already ended.
\<close>

fun call_allowed :: "sched_call \<Rightarrow> sched \<Rightarrow> bool" where
  "call_allowed (CreateTask (Some p) stack_mem entry nm prio flags) s = (sc_tasks s p = None)"
| "call_allowed (RegisterIdle p) s = (sc_tasks s p \<noteq> None)"
| "call_allowed (Waitpid alloc i ptr opts) s = no_reap i s"
| "call_allowed c s = True"

fun calls_allowed :: "sched_call list \<Rightarrow> sched \<Rightarrow> bool" where
  "calls_allowed [] s = True"
| "calls_allowed (c # cs) s =
     (call_allowed c s \<and> (case sched_exec c s of Done s' \<Rightarrow> calls_allowed cs s' | _ \<Rightarrow> True))"

definition sched_ok :: "sched \<Rightarrow> bool" where
  "sched_ok s \<longleftrightarrow> sched_wf s \<and> lock_free s \<and> sl_lock (sc_smp_lock s) = 0"

lemma wkeeps_state: "returns m (wkeeps s ys) \<Longrightarrow> returns m (\<lambda>w. keeps s (fst w))"
  by (erule returns_mono) auto

lemma rkeeps_state: "returns m (rkeeps s ys) \<Longrightarrow> returns m (\<lambda>w. keeps s (case w of (_, s, _) \<Rightarrow> s))"
  by (erule returns_mono) auto

lemma yield_keeps:
  assumes "sched_wf s" "lock_free s"
  shows "returns (scheduler_yield (s, ys)) (wkeeps s ys)"
  using assms schedule_keeps by (simp add: scheduler_yield_def keeps_refl)

lemma config_keeps:
  assumes "sched_wf s"
  shows "keeps s (scheduler_enable_preemption s)" "keeps s (scheduler_disable_preemption s)"
    "keeps s (snd (scheduler_set_algorithm a s))" "keeps s (scheduler_set_quantum q s)"
  using assms
  by (simp_all add: scheduler_enable_preemption_def scheduler_disable_preemption_def scheduler_set_algorithm_def
      scheduler_set_quantum_def keeps_def live_def)

lemma sched_exec_keeps:
  assumes "sched_ok s" "call_allowed c s"
  shows "returns (sched_exec c s) (keeps s)"
proof -
  have ok: "sched_wf s" "lock_free s" "sl_lock (sc_smp_lock s) = 0"
    using assms(1) by (simp_all add: sched_ok_def)
  show ?thesis
  proof (cases c)
    case (CreateTask task_mem stack_mem entry nm prio flags)
    have "returns (scheduler_create_task task_mem stack_mem entry nm prio flags (s, [])) (rkeeps s [])"
      by (rule create_task_keeps [OF ok(1,2)]) (use CreateTask assms(2) in simp)
    from rkeeps_state [OF this] CreateTask show ?thesis
      by simp
  next
    case (RegisterIdle p)
    with assms(2) ok register_idle_keeps [of s p] show ?thesis
      by (simp add: live_def)
  next
    case (Waitpid alloc i ptr opts)
    with assms(2) rkeeps_state [OF waitpid_keeps [OF ok(1,2)]] show ?thesis
      by simp
  qed (use ok in \<open>simp_all add: wkeeps_state [OF init_smp_keeps] wkeeps_state [OF schedule_keeps]
      wkeeps_state [OF tick_keeps] wkeeps_state [OF yield_keeps] wkeeps_state [OF block_current_keeps]
      wkeeps_state [OF unblock_keeps] rkeeps_state [OF sleep_keeps] rkeeps_state [OF wake_task_keeps]
      rkeeps_state [OF terminate_keeps] rkeeps_state [OF set_priority_keeps] rkeeps_state [OF migrate_keeps]
      config_keeps\<close>)
qed

lemma sched_ok_keeps: "sched_ok s \<Longrightarrow> keeps s s' \<Longrightarrow> sched_ok s'"
  by (simp add: sched_ok_def keeps_def lock_free_def)

lemma sched_calls_ok:
  assumes "sched_ok s" "calls_allowed cs s"
  shows "returns (sched_calls cs s) sched_ok"
  using assms
proof (induction cs arbitrary: s)
  case Nil
  then show ?case by simp
next
  case (Cons c cs)
  obtain s' where s': "sched_exec c s = Done s'" "keeps s s'"
    using sched_exec_keeps [OF Cons.prems(1)] Cons.prems(2) unfolding returns_def by auto
  with Cons.prems Cons.IH [OF sched_ok_keeps] show ?case
    by simp
qed

lemma zero_queue_live: "queue_live s zero_queue"
  by (simp add: queue_live_def tq_ok_def tq_list_def zero_queue_def ring_ok_def MAX_TASKS_def)

lemma init_ok: "sched_ok (scheduler_init s)"
  by (simp add: sched_ok_def sched_wf_def scheduler_init_def zero_queue_live cpu_live_def zero_cpu_def
      lock_free_def MAX_CPUS_def)

end
