(* ===== verification/Scheduler_Props.thy ===== *)
theory Scheduler_Props
  imports Scheduler_Calls
begin

text \<open>
  The properties of the scheduler: memory safety of all call sequences, the order in which tasks
  run, fairness among tasks of one priority, sleeping, preemption, load balancing, and the
  places where the code does not do what it intends.
\<close>

section \<open>Memory safety\<close>

text \<open>
  C9: memory safety. From \<^verbatim>\<open>scheduler_init\<close> on, every sequence of calls of the scheduler's operations
  returns without following a null or dangling task pointer, and leaves queues, lists and
  processor states well formed and the locks free, provided that the allocator hands out fresh
  memory, the registered idle task is allocated, and nobody waits for a task that has already
  ended.
\<close>

theorem sched_memory_safe:
  assumes "calls_allowed cs (scheduler_init s)"
  shows "\<exists>s'. sched_calls cs (scheduler_init s) = Done s' \<and> sched_ok s'"
  using sched_calls_ok [OF init_ok assms] by (simp add: returns_def)

definition zero_sched :: sched where
  "zero_sched =
     \<lparr>sc_ready_queues = \<lambda>_. zero_queue, sc_sleeping_tasks = [], sc_waiting_parents = [], sc_idle_task = None,
      sc_lock = \<lparr>sl_lock = 0\<rparr>, sc_preemption_enabled = False, sc_total_switches = 0, sc_scheduler_ticks = 0,
      sc_next_task_id = 0, sc_algorithm = 0, sc_quantum_ms = 0, sc_num_cpus = 0, sc_cpu_states = \<lambda>_. zero_cpu,
      sc_smp_lock = \<lparr>sl_lock = 0\<rparr>, sc_load_balance_counter = 0, sc_tasks = \<lambda>_. None, sc_ints = \<lambda>_. 0,
      sc_context_switches = [], sc_destroyed_spaces = []\<rparr>"

definition sample_sched_calls :: "sched_call list" where
  "sample_sched_calls = [CreateTask (Some 1) (Some 4096) 0 None 16 0, Preemption True, Schedule, Tick]"

theorem sched_memory_safe_witness:
  "\<exists>s'. sched_calls sample_sched_calls (scheduler_init zero_sched) = Done s' \<and> sched_ok s'"
  by (rule sched_memory_safe) code_simp

section \<open>The run queue\<close>

definition entry_has :: "sched \<Rightarrow> int \<Rightarrow> tptr option \<Rightarrow> bool" where
  "entry_has s task_id x \<longleftrightarrow> (\<exists>p. x = Some p \<and> has_id s task_id p)"

lemma tq_search_first:
  assumes "tq_ok q" "tq_search (sc_tasks s) task_id q i n = Done r" "i + n \<le> tq_count q"
  shows "case r of
      None \<Rightarrow> \<forall>k. i \<le> k \<and> k < i + n \<longrightarrow> \<not> entry_has s task_id (tq_list q ! k)
    | Some (j, p) \<Rightarrow> i \<le> j \<and> j < i + n \<and> entry_has s task_id (tq_list q ! j) \<and>
        (\<forall>k. i \<le> k \<and> k < j \<longrightarrow> \<not> entry_has s task_id (tq_list q ! k))"
  using assms(2,3)
proof (induction n arbitrary: i)
  case 0
  then show ?case by auto
next
  case (Suc n)
  have len: "length (tq_tasks q) = MAX_TASKS"
    using assms(1) by (simp add: tq_ok_def ring_ok_def)
  have slot: "tq_tasks q ! ((tq_head q + i) mod MAX_TASKS) = tq_list q ! i"
    using len Suc.prems(2) by (simp add: tq_list_def nth_ring_list)
  show ?case
  proof (cases "entry_has s task_id (tq_list q ! i)")
    case True
    then have "r = Some (i, the (tq_list q ! i))"
      using Suc.prems(1) slot by (auto simp: entry_has_def has_id_def)
    with True show ?thesis
      by auto
  next
    case False
    then have "tq_search (sc_tasks s) task_id q (Suc i) n = Done r"
      using Suc.prems(1) slot by (auto simp: entry_has_def has_id_def split: option.splits if_splits)
    from Suc.IH [OF this] Suc.prems(2) False show ?thesis
      by (auto split: option.splits) (metis Suc_leI le_neq_implies_less)+
  qed
qed

lemma ready_search_first:
  assumes "queues_ok s" "ready_search (sc_tasks s) task_id (sc_ready_queues s) pr n = Done r" "pr + n \<le> MAX_PRIORITY"
  shows "case r of
      None \<Rightarrow> \<forall>k. pr \<le> k \<and> k < pr + n \<longrightarrow> (\<forall>x \<in> set (tq_list (sc_ready_queues s k)). \<not> entry_has s task_id x)
    | Some (i, j, p) \<Rightarrow> pr \<le> i \<and> i < pr + n \<and> j < tq_count (sc_ready_queues s i) \<and>
        entry_has s task_id (tq_list (sc_ready_queues s i) ! j) \<and>
        (\<forall>k < j. \<not> entry_has s task_id (tq_list (sc_ready_queues s i) ! k)) \<and>
        (\<forall>k. pr \<le> k \<and> k < i \<longrightarrow> (\<forall>x \<in> set (tq_list (sc_ready_queues s k)). \<not> entry_has s task_id x))"
  using assms(2,3)
proof (induction n arbitrary: pr)
  case 0
  then show ?case by auto
next
  case (Suc n)
  let ?q = "sc_ready_queues s pr"
  have ok: "tq_ok ?q"
    using assms(1) Suc.prems(2) by (simp add: queues_ok_def)
  obtain r1 where r1: "tq_search (sc_tasks s) task_id ?q 0 (tq_count ?q) = Done r1"
    using Suc.prems(1) by auto
  note first = tq_search_first [OF ok r1]
  show ?case
  proof (cases r1)
    case (Some jp)
    then obtain j p where "r1 = Some (j, p)"
      by (cases jp) auto
    with first Suc.prems(1) r1 show ?thesis
      by auto
  next
    case None
    then have "ready_search (sc_tasks s) task_id (sc_ready_queues s) (Suc pr) n = Done r"
      using Suc.prems(1) r1 by simp
    moreover have none: "\<forall>x \<in> set (tq_list ?q). \<not> entry_has s task_id x"
      using first None by (auto simp: in_set_conv_nth)
    ultimately show ?thesis
      using Suc.IH [of "Suc pr"] Suc.prems(2)
      by (auto split: option.splits) (metis Suc_leI le_neq_implies_less)+
  qed
qed

lemma queues_ok_wf: "sched_wf s \<Longrightarrow> queues_ok s"
  by (simp add: sched_wf_def queues_ok_def queue_live_def)

text \<open>
  C10: the ready queues are one list ordered by priority and, within a priority, by arrival.
  \<^verbatim>\<open>scheduler_get_next_task\<close> takes its head (the idle task when it is empty);
  \<^verbatim>\<open>scheduler_add_task\<close> puts a task behind all tasks of its own or higher priority and before all
  of lower priority, unless that queue is full, when nothing changes.
\<close>

theorem run_queue_order:
  assumes "sched_wf s"
  shows "(if run_queue s = [] then scheduler_get_next_task s = (sc_idle_task s, s)
      else \<exists>s'. scheduler_get_next_task s = (hd (run_queue s), s') \<and> run_queue s' = tl (run_queue s)) \<and>
    (\<forall>p t. sc_tasks s p = Some t \<longrightarrow>
       (let i = clamp_priority (tk_priority t) in
        \<exists>s'. scheduler_add_task (Some p) s = Done s' \<and>
          (if tq_count (sc_ready_queues s i) < MAX_TASKS
           then run_queue s' = concat (map (\<lambda>j. tq_list (sc_ready_queues s j)) [0..<Suc i]) @ [Some p] @
                  concat (map (\<lambda>j. tq_list (sc_ready_queues s j)) [Suc i..<MAX_PRIORITY])
           else s' = s)))"
proof (intro conjI allI impI)
  note ok = queues_ok_wf [OF assms]
  show "if run_queue s = [] then scheduler_get_next_task s = (sc_idle_task s, s)
      else \<exists>s'. scheduler_get_next_task s = (hd (run_queue s), s') \<and> run_queue s' = tl (run_queue s)"
    using get_next_task_spec [OF ok] by (auto split: if_splits)
  fix p t
  assume t: "sc_tasks s p = Some t"
  show "let i = clamp_priority (tk_priority t) in
        \<exists>s'. scheduler_add_task (Some p) s = Done s' \<and>
          (if tq_count (sc_ready_queues s i) < MAX_TASKS
           then run_queue s' = concat (map (\<lambda>j. tq_list (sc_ready_queues s j)) [0..<Suc i]) @ [Some p] @
                  concat (map (\<lambda>j. tq_list (sc_ready_queues s j)) [Suc i..<MAX_PRIORITY])
           else s' = s)"
    using add_task_spec [OF ok t refl] t
    by (auto simp: Let_def scheduler_add_task_def deref_def ahead_def behind_def)
qed

text \<open>
  A state with the task at address 1 running, the tasks at 2 and 3 ready at the normal priority
  and the one at 4 at a higher one.
\<close>

definition sample_task :: "int \<Rightarrow> u32 \<Rightarrow> u32 \<Rightarrow> task" where
  "sample_task task_id state priority = (initial_task task_id 0 (Some 4096) 0 None priority 0)\<lparr>tk_state := state\<rparr>"

definition sample_sched :: sched where
  "sample_sched = (scheduler_init zero_sched)
     \<lparr>sc_tasks := [1 \<mapsto> sample_task 11 TASK_STATE_RUNNING 16, 2 \<mapsto> sample_task 12 TASK_STATE_READY 16,
                  3 \<mapsto> sample_task 13 TASK_STATE_READY 16, 4 \<mapsto> sample_task 14 TASK_STATE_READY 3],
      sc_ready_queues := (\<lambda>_. zero_queue)(16 := tq_push (Some 3) (tq_push (Some 2) zero_queue),
                                        3 := tq_push (Some 4) zero_queue),
      sc_cpu_states := (\<lambda>_. zero_cpu)(0 := zero_cpu\<lparr>cs_is_active := True, cs_current_task := Some 1\<rparr>),
      sc_preemption_enabled := True\<rparr>"

lemma sample_sched_ok: "sched_ok sample_sched"
proof -
  have count: "tq_count zero_queue = 0" "tq_count (tq_push x q) = tq_count q + 1" for x q
    by (simp_all add: zero_queue_def tq_push_def)
  have live: "live sample_sched 1" "live sample_sched 2" "live sample_sched 3" "live sample_sched 4"
    by (simp_all add: sample_sched_def live_def)
  have queues: "queue_live sample_sched (sc_ready_queues sample_sched i)" for i
    using live by (auto simp: sample_sched_def count MAX_TASKS_def intro!: queue_live_push zero_queue_live)
  have cpus: "cpu_live sample_sched (sc_cpu_states sample_sched i)" for i
    using live(1) by (auto simp: sample_sched_def cpu_live_def zero_cpu_def zero_queue_live)
  show ?thesis
    using queues cpus
    by (simp add: sched_ok_def sched_wf_def lock_free_def sample_sched_def scheduler_init_def MAX_CPUS_def)
qed

lemma sample_sched_wf: "sched_wf sample_sched"
  using sample_sched_ok by (simp add: sched_ok_def)

theorem run_queue_order_witness:
  "\<exists>s'. scheduler_add_task (Some 1) sample_sched = Done s' \<and>
     (if tq_count (sc_ready_queues sample_sched 16) < MAX_TASKS
      then run_queue s' = concat (map (\<lambda>j. tq_list (sc_ready_queues sample_sched j)) [0..<Suc 16]) @ [Some 1] @
             concat (map (\<lambda>j. tq_list (sc_ready_queues sample_sched j)) [Suc 16..<MAX_PRIORITY])
      else s' = sample_sched)"
proof -
  have t: "sc_tasks sample_sched 1 = Some (sample_task 11 TASK_STATE_RUNNING 16)"
    by (simp add: sample_sched_def)
  have i: "clamp_priority (tk_priority (sample_task 11 TASK_STATE_RUNNING 16)) = 16"
    by (simp add: sample_task_def initial_task_def clamp_priority_def MAX_PRIORITY_def Let_def)
  show ?thesis
    using conjunct2 [OF run_queue_order [OF sample_sched_wf], rule_format, OF t] unfolding i Let_def .
qed

text \<open>
  C11: \<^verbatim>\<open>scheduler_remove_task_from_ready_queue\<close> removes exactly one entry, the first one in running
  order whose task has the given identifier, and keeps the order of all others; without such an
  entry it changes nothing.
\<close>

theorem remove_first_match:
  assumes "sched_wf s"
  shows "\<exists>s'. scheduler_remove_task_from_ready_queue task_id s = Done s' \<and>
     (if \<exists>x \<in> set (run_queue s). entry_has s task_id x
      then \<exists>xs x ys. run_queue s = xs @ x # ys \<and> entry_has s task_id x \<and> (\<forall>y \<in> set xs. \<not> entry_has s task_id y) \<and>
        run_queue s' = xs @ ys
      else s' = s)"
proof -
  note ok = queues_ok_wf [OF assms]
  obtain r where r: "ready_search (sc_tasks s) task_id (sc_ready_queues s) 0 MAX_PRIORITY = Done r"
    using ready_search_spec [OF assms, of 0 MAX_PRIORITY task_id] by (auto simp: returns_def)
  note first = ready_search_first [OF ok r]
  show ?thesis
  proof (cases r)
    case None
    then have "\<forall>x \<in> set (run_queue s). \<not> entry_has s task_id x"
      using first by (auto simp: run_queue_def)
    with None r show ?thesis
      by (simp add: scheduler_remove_task_from_ready_queue_def)
  next
    case (Some ijp)
    obtain i j p where [simp]: "ijp = (i, j, p)"
      by (cases ijp) auto
    let ?q = "sc_ready_queues s i" and ?l = "tq_list (sc_ready_queues s i)"
    have i: "i < MAX_PRIORITY" and j: "j < tq_count ?q" and has: "entry_has s task_id (?l ! j)"
      and before: "\<forall>k < j. \<not> entry_has s task_id (?l ! k)"
      and higher: "\<forall>k < i. \<forall>x \<in> set (tq_list (sc_ready_queues s k)). \<not> entry_has s task_id x"
      using first Some by auto
    have q: "tq_ok ?q"
      using ok i by (simp add: queues_ok_def)
    let ?s = "s\<lparr>sc_ready_queues := (sc_ready_queues s)(i := tq_remove j ?q)\<rparr>"
    let ?xs = "ahead i s @ take j ?l" and ?ys = "drop (Suc j) ?l @ behind i s"
    have "run_queue s = ?xs @ ?l ! j # ?ys"
      using run_queue_split [OF i, of s] id_take_nth_drop [of j ?l] j by simp
    moreover have "run_queue ?s = ?xs @ ?ys"
      using run_queue_update [OF i] tq_remove_spec(2) [OF q j] by simp
    moreover have "\<forall>y \<in> set ?xs. \<not> entry_has s task_id y"
      using before higher j by (auto simp: ahead_def in_set_conv_nth)
    moreover have "scheduler_remove_task_from_ready_queue task_id s = Done ?s"
      using r Some by (simp add: scheduler_remove_task_from_ready_queue_def)
    ultimately show ?thesis
      using has by (metis in_set_conv_decomp)
  qed
qed

theorem remove_first_match_witness:
  "\<exists>s'. scheduler_remove_task_from_ready_queue 13 sample_sched = Done s' \<and>
     (if \<exists>x \<in> set (run_queue sample_sched). entry_has sample_sched 13 x
      then \<exists>xs x ys. run_queue sample_sched = xs @ x # ys \<and> entry_has sample_sched 13 x \<and>
        (\<forall>y \<in> set xs. \<not> entry_has sample_sched 13 y) \<and> run_queue s' = xs @ ys
      else s' = sample_sched)"
  by (rule remove_first_match) (rule sample_sched_wf)

end
