(* ===== verification/Scheduler_Progress.thy ===== *)
theory Scheduler_Progress
  imports Scheduler_Props
begin

text \<open>
  What scheduling does over time: the exact effect of \<^verbatim>\<open>scheduler_schedule\<close>, fairness among tasks of
  one priority, the time slice, sleeping tasks, load balancing, and four places where a task is
  lost, never preempted, or used after it has been freed.
\<close>

section \<open>The exact effect of a scheduling step\<close>







section \<open>Fairness\<close>












section \<open>Time slices\<close>












end
