(* ===== verification/Scheduler_Events.thy ===== *)
theory Scheduler_Events
  imports Scheduler_Progress
begin

text \<open>
  Sleeping and waking, load balancing, and the paths on which the scheduler loses a task, keeps
  a dangling pointer, or does not switch at all.
\<close>

section \<open>Sleeping tasks\<close>













section \<open>Load balancing\<close>

lemma sum_mset_move:
  assumes "i < n" "j < n" "i \<noteq> (j::nat)" "mset (f' i) + {#x#} = mset (f i)" "mset (f' j) = mset (f j) + {#x#}"
    and "\<And>k. k \<noteq> i \<Longrightarrow> k \<noteq> j \<Longrightarrow> f' k = f k"
  shows "(\<Sum>k < n. mset (f' k)) = (\<Sum>k < n. mset (f k))"
proof -
  have *: "(\<Sum>k < n. mset (g k)) = mset (g i) + mset (g j) + (\<Sum>k \<in> {..<n} - {i} - {j}. mset (g k))" for g :: "nat \<Rightarrow> 'a list"
    using assms(1-3) by (simp add: sum.remove [of "{..<n}" i] sum.remove [of "{..<n} - {i}" j])
  have "(\<Sum>k \<in> {..<n} - {i} - {j}. mset (f' k)) = (\<Sum>k \<in> {..<n} - {i} - {j}. mset (f k))"
    using assms(6) by (intro sum.cong) auto
  then show ?thesis
    unfolding * [of f'] * [of f] assms(4) [symmetric] assms(5) by simp
qed

text \<open>
  C16: load balancing moves tasks and loses none. \<^verbatim>\<open>scheduler_load_balance\<close> returns, the tasks in the
  queues of all processors are the same before and after, and it never makes the load of the
  active processors less even: any bounds on their loads still hold afterwards.
\<close>

theorem load_balance_conserves:
  assumes "sched_wf s"
  shows "\<exists>s'. scheduler_load_balance s = Done s' \<and> sc_num_cpus s' = sc_num_cpus s \<and>
     (\<Sum>k < sc_num_cpus s. mset (tq_list (local_queue k s'))) = (\<Sum>k < sc_num_cpus s. mset (tq_list (local_queue k s))) \<and>
     (\<forall>lo hi. (\<forall>k < sc_num_cpus s. cs_is_active (sc_cpu_states s k) \<longrightarrow> lo \<le> load s k \<and> load s k \<le> hi) \<longrightarrow>
        (\<forall>k < sc_num_cpus s. cs_is_active (sc_cpu_states s k) \<longrightarrow> lo \<le> load s' k \<and> load s' k \<le> hi))"
  using load_balance_spec [OF assms]
proof (elim disjE exE conjE)
  assume "scheduler_load_balance s = Done s"
  then show ?thesis
    by (intro exI [of _ s]) simp
next
  fix i j p
  assume i: "i < sc_num_cpus s" "cs_is_active (sc_cpu_states s i)" and j: "j < sc_num_cpus s" "cs_is_active (sc_cpu_states s j)"
    and gap: "load s j + 2 < load s i" and first: "tq_first (local_queue i s) = Some p"
    and room: "tq_count (local_queue j s) < MAX_TASKS"
    and res: "scheduler_load_balance s = Done (upd_local j (tq_push (Some p)) (upd_local i tq_pop s))"
  let ?s' = "upd_local j (tq_push (Some p)) (upd_local i tq_pop s)"
  have ne: "i \<noteq> j" "tq_list (local_queue i s) \<noteq> []"
    using gap by (auto simp: load_def tq_list_Nil_iff)
  have q: "tq_ok (local_queue i s)" "tq_ok (local_queue j s)"
    using sched_wfD(2) [OF assms] sched_wfD(6) [OF assms] i j
    by (simp_all add: cpu_live_def queue_live_def local_queue_def)
  have qi: "Some p # tq_list (local_queue i ?s') = tq_list (local_queue i s)"
    using tq.front_hd [OF q(1) ne(2)] tq.contents_deq [OF q(1) ne(2)] first ne by simp
  have qj: "tq_list (local_queue j ?s') = tq_list (local_queue j s) @ [Some p]"
    using tq.contents_enq [OF q(2)] room ne by simp
  have same: "(\<Sum>k < sc_num_cpus s. mset (tq_list (local_queue k ?s'))) = (\<Sum>k < sc_num_cpus s. mset (tq_list (local_queue k s)))"
    by (rule sum_mset_move [OF i(1) j(1) ne(1), where x = "Some p"])
      (simp_all add: qi [symmetric] qj del: local_queue_upd, simp_all)
  have "load ?s' i = load s i - 1" "load ?s' j = load s j + 1"
    "\<And>k. k \<noteq> i \<Longrightarrow> k \<noteq> j \<Longrightarrow> load ?s' k = load s k"
    using ne gap by (auto simp: load_def tq_pop_def tq_push_def of_nat_diff)
  then have even: "lo \<le> load ?s' k \<and> load ?s' k \<le> hi"
    if "\<forall>k < sc_num_cpus s. cs_is_active (sc_cpu_states s k) \<longrightarrow> lo \<le> load s k \<and> load s k \<le> hi"
      "k < sc_num_cpus s" "cs_is_active (sc_cpu_states s k)" for lo hi k
    using that i j gap by (cases "k = i"; cases "k = j") fastforce+
  show ?thesis
    by (intro exI [of _ ?s'] conjI res same allI impI even) simp_all
qed

definition smp_sched :: sched where
  "smp_sched = upd_local 1 (\<lambda>_. zero_queue) (upd_local 0
     (\<lambda>_. tq_push (Some 4) (tq_push (Some 3) (tq_push (Some 2) zero_queue))) (reset_cpus 2 sample_sched))"

lemma smp_sched_wf: "sched_wf smp_sched"
proof -
  let ?s0 = "reset_cpus 2 sample_sched"
  let ?q = "tq_push (Some 4) (tq_push (Some 3) (tq_push (Some 2) zero_queue))"
  have wf: "sched_wf ?s0"
    using keepsD(1) [OF reset_cpus_keeps [OF sample_sched_wf]] by (simp add: MAX_CPUS_def)
  have live: "live ?s0 2" "live ?s0 3" "live ?s0 4"
    by (simp_all add: live_def reset_cpus_def sample_sched_def)
  then have q: "queue_live ?s0 ?q"
    by (intro queue_live_push zero_queue_live) (simp_all add: zero_queue_def tq_push_def MAX_TASKS_def)
  have "sched_wf (upd_local 0 (\<lambda>_. ?q) ?s0)"
    by (rule sched_wf_local [OF wf]) (use q in \<open>simp_all add: MAX_CPUS_def\<close>)
  then show ?thesis
    unfolding smp_sched_def by (rule sched_wf_local) (simp_all add: zero_queue_live MAX_CPUS_def)
qed

theorem load_balance_conserves_witness:
  "\<exists>s'. scheduler_load_balance smp_sched = Done s' \<and> sc_num_cpus s' = sc_num_cpus smp_sched \<and>
     (\<Sum>k < sc_num_cpus smp_sched. mset (tq_list (local_queue k s'))) =
     (\<Sum>k < sc_num_cpus smp_sched. mset (tq_list (local_queue k smp_sched)))"
  using load_balance_conserves [OF smp_sched_wf] by blast

section \<open>The missing context switch\<close>

lemma upd_task_log:
  "upd_task p f s = Done s' \<Longrightarrow> sc_context_switches s' = sc_context_switches s"
  by (auto simp: upd_task_def)

lemma add_task_log:
  "scheduler_add_task q s = Done s' \<Longrightarrow> sc_context_switches s' = sc_context_switches s"
  by (auto simp: scheduler_add_task_def Let_def split: option.splits if_splits)

lemma wake_log:
  "wake_if_blocked p s = Done s' \<Longrightarrow> sc_context_switches s' = sc_context_switches s"
  by (auto simp: wake_if_blocked_def dest!: upd_task_log add_task_log split: if_splits)

lemma requeue_log:
  "requeue_current s = Done s' \<Longrightarrow> sc_context_switches s' = sc_context_switches s"
  by (auto simp: requeue_current_def dest!: upd_task_log add_task_log split: if_splits option.splits)

lemma check_sleeping_loop_log:
  "check_sleeping_loop es s = Done (kept, s') \<Longrightarrow> sc_context_switches s' = sc_context_switches s"
  by (induction es arbitrary: s kept s') (auto split: if_splits dest: wake_log)

lemma check_sleeping_log:
  "scheduler_check_sleeping_tasks s = Done s' \<Longrightarrow> sc_context_switches s' = sc_context_switches s"
  by (auto simp: scheduler_check_sleeping_tasks_def dest: check_sleeping_loop_log)

lemma next_task_log:
  "scheduler_get_next_task s = (r, s') \<Longrightarrow> sc_context_switches s' = sc_context_switches s"
  using next_task_loop_spec [of 0 MAX_PRIORITY s] by (auto simp: scheduler_get_next_task_def)

lemma dispatch_log:
  assumes "dispatch p s = Done s'"
  shows "sc_context_switches s' = sc_context_switches s" "scheduler_get_current_task s' = Some p"
  using assms by (auto simp: dispatch_def Let_def scheduler_get_current_task_def dest: upd_task_log)

lemma upd_local_log:
  "sc_context_switches (upd_local i f s) = sc_context_switches s"
  "scheduler_get_current_task (upd_local i f s) = scheduler_get_current_task s"
  by (simp_all add: upd_local_def scheduler_get_current_task_def)

lemma balance_log:
  assumes "balance_if_due s = Done s'"
  shows "sc_context_switches s' = sc_context_switches s" "scheduler_get_current_task s' = scheduler_get_current_task s"
proof -
  have reset: "sc_context_switches (s\<lparr>sc_load_balance_counter := 0\<rparr>) = sc_context_switches s"
    "scheduler_get_current_task (s\<lparr>sc_load_balance_counter := 0\<rparr>) = scheduler_get_current_task s"
    by (simp_all add: scheduler_get_current_task_def)
  have "sc_context_switches u' = sc_context_switches u \<and> scheduler_get_current_task u' = scheduler_get_current_task u"
    if "scheduler_load_balance u = Done u'" for u u'
    using that by (auto simp: scheduler_load_balance_def Let_def upd_local_log split: if_splits option.splits prod.splits)
  with assms reset show "sc_context_switches s' = sc_context_switches s"
    and "scheduler_get_current_task s' = scheduler_get_current_task s"
    by (auto simp: balance_if_due_def split: if_splits)
qed

lemma switch_to_next_log:
  assumes "switch_to_next s = Done s'"
  shows "sc_context_switches s' = sc_context_switches s"
proof -
  obtain r s1 where next_task: "scheduler_get_next_task s = (r, s1)"
    by (cases "scheduler_get_next_task s")
  show ?thesis
  proof (cases r)
    case None
    with assms next_task next_task_log [OF next_task] show ?thesis
      by (auto simp: switch_to_next_def release_lock)
  next
    case (Some p)
    with assms next_task obtain s2 s3 where d: "dispatch p s1 = Done s2" "balance_if_due s2 = Done s3"
      "task_switch_to (Some p) (s3\<lparr>sc_lock := \<lparr>sl_lock = 0\<rparr>\<rparr>) = Done s'"
      by (auto simp: switch_to_next_def release_lock)
    have "scheduler_get_current_task s3 = Some p"
      using dispatch_log(2) [OF d(1)] balance_log(2) [OF d(2)] by simp
    with d(3) have "s' = s3\<lparr>sc_lock := \<lparr>sl_lock = 0\<rparr>\<rparr>"
      by (simp add: task_switch_to_def)
    with next_task_log [OF next_task] dispatch_log(1) [OF d(1)] balance_log(1) [OF d(2)] show ?thesis
      by simp
  qed
qed

text \<open>
  C17: \<^verbatim>\<open>scheduler_schedule\<close> never switches the context. It stores the chosen task as the current one
  before it calls \<^verbatim>\<open>task_switch_to\<close>, which returns without switching when the new task is the
  current one. So however the bookkeeping changes, no scheduling step calls
  \<^verbatim>\<open>task_context_switch\<close>.
\<close>

theorem schedule_never_switches:
  assumes "lock_free s" "scheduler_schedule (s, ys) = Done (s', ys')"
  shows "sc_context_switches s' = sc_context_switches s"
proof (cases "sc_preemption_enabled s")
  case False
  with assms show ?thesis
    by (simp add: scheduler_schedule_def)
next
  case True
  with assms obtain s1 s2 where "requeue_current (s\<lparr>sc_lock := \<lparr>sl_lock = 1\<rparr>\<rparr>) = Done s1"
    "scheduler_check_sleeping_tasks s1 = Done s2" "switch_to_next s2 = Done s'"
    by (auto simp: scheduler_schedule_def acquire_lock)
  from requeue_log [OF this(1)] check_sleeping_log [OF this(2)] switch_to_next_log [OF this(3)] show ?thesis
    by simp
qed

theorem schedule_never_switches_witness:
  "\<exists>s'. scheduler_schedule (sample_sched, []) = Done (s', []) \<and> sc_context_switches s' = sc_context_switches sample_sched"
proof -
  have ok: "sched_wf sample_sched" "lock_free sample_sched"
    using sample_sched_ok by (simp_all add: sched_ok_def)
  obtain s' where "scheduler_schedule (sample_sched, []) = Done (s', [])"
    using schedule_keeps [OF ok, of "[]"] by (auto simp: returns_def)
  with schedule_never_switches [OF ok(2) this] show ?thesis
    by blast
qed

section \<open>Lost tasks and dangling pointers\<close>




















end
