(* ===== verification/Network.thy ===== *)
theory Network
  imports C_Text
begin

text \<open>
  The core of the network stack, \<^verbatim>\<open>network/src/network.c\<close>: network buffers with headroom for the
  headers of the lower layers, the table of network devices, reception of a packet, and the
  textual form of IPv4 addresses.

  A network buffer owns a block from \<^verbatim>\<open>heap_alloc\<close>; its data pointer is an offset in that block.
  Devices live in a store from addresses to structures, and following a null or unallocated
  device pointer is a \<open>Fault\<close>, as is an access outside a block and \<^verbatim>\<open>heap_free\<close> of a pointer that
  is not the start of one. The results of \<^verbatim>\<open>heap_alloc\<close> are arguments.
\<close>

section \<open>Data\<close>

definition NET_MAX_DEVICES :: nat where "NET_MAX_DEVICES = 8"

definition NET_ERR_OK :: int where "NET_ERR_OK = 0"
definition NET_ERR_INVALID :: int where "NET_ERR_INVALID = - 1"
definition NET_ERR_NOMEM :: int where "NET_ERR_NOMEM = - 2"
definition NET_ERR_NOPROTO :: int where "NET_ERR_NOPROTO = - 3"
definition NET_ERR_BUSY :: int where "NET_ERR_BUSY = - 4"

definition NET_PROTO_ETH :: u8 where "NET_PROTO_ETH = 1"
definition NET_PROTO_ARP :: u8 where "NET_PROTO_ARP = 2"
definition NET_PROTO_IP :: u8 where "NET_PROTO_IP = 3"
definition NET_PROTO_TCP :: u8 where "NET_PROTO_TCP = 4"
definition NET_PROTO_UDP :: u8 where "NET_PROTO_UDP = 5"
definition NET_PROTO_ICMP :: u8 where "NET_PROTO_ICMP = 6"

definition NET_BUF_FLAG_ALLOC :: u8 where "NET_BUF_FLAG_ALLOC = 0x01"
definition NET_BUF_FLAG_BROADCAST :: u8 where "NET_BUF_FLAG_BROADCAST = 0x02"
definition NET_BUF_FLAG_MULTICAST :: u8 where "NET_BUF_FLAG_MULTICAST = 0x04"

definition NET_DEV_FLAG_UP :: u32 where "NET_DEV_FLAG_UP = 0x01"
definition NET_DEV_FLAG_LOOPBACK :: u32 where "NET_DEV_FLAG_LOOPBACK = 0x02"

datatype ipv4_address = IPv4 u8 u8 u8 u8

fun ipv4_bytes :: "ipv4_address \<Rightarrow> u8 list" where
  "ipv4_bytes (IPv4 a b c d) = [a, b, c, d]"

datatype mac_address = MAC u8 u8 u8 u8 u8 u8

fun mac_bytes :: "mac_address \<Rightarrow> u8 list" where
  "mac_bytes (MAC a b c d e f) = [a, b, c, d, e, f]"

type_synonym dptr = nat

record net_device_stats =
  rx_packets :: u64
  tx_packets :: u64
  rx_bytes :: u64
  tx_bytes :: u64
  rx_errors :: u64
  tx_errors :: u64
  rx_dropped :: u64
  tx_dropped :: u64
  collisions :: u64

text \<open>Of the driver operations the stack calls only \<^verbatim>\<open>transmit\<close>; \<open>nd_transmit\<close> says whether it is set.\<close>

record net_device =
  nd_name :: string
  nd_flags :: u32
  nd_mac :: mac_address
  nd_ip :: ipv4_address
  nd_netmask :: ipv4_address
  nd_gateway :: ipv4_address
  nd_mtu :: u16
  nd_type :: u16
  nd_transmit :: bool
  nd_stats :: net_device_stats

record net_buffer =
  nb_block :: "u8 list"
  nb_data :: "int option"
  nb_len :: u32
  nb_size :: u32
  nb_offset :: u32
  nb_flags :: u8
  nb_protocol :: u8
  nb_device :: "dptr option"

text \<open>\<^verbatim>\<open>net_state\<close>, with the store of device structures.\<close>

record net_state =
  ns_devices :: "dptr option list"
  ns_device_count :: nat
  ns_default_device :: "dptr option"
  ns_initialized :: bool
  ns_store :: "dptr \<rightharpoonup> net_device"

text \<open>\<^verbatim>\<open>memcmp\<close> of two arrays of the same length; only the sign of the result is meaningful.\<close>

fun memcmp :: "u8 list \<Rightarrow> u8 list \<Rightarrow> int" where
  "memcmp (x # xs) (y # ys) = (if x = y then memcmp xs ys else if x < y then - 1 else 1)"
| "memcmp _ _ = 0"

section \<open>Network buffers\<close>

text \<open>\<^verbatim>\<open>memcpy\<close> of \<open>n\<close> bytes to a position of a block.\<close>

definition copy_at :: "u8 list \<Rightarrow> int \<Rightarrow> u8 list \<Rightarrow> nat \<Rightarrow> u8 list run" where
  "copy_at blk pos src n =
     (if 0 \<le> pos \<and> nat pos + n \<le> length blk \<and> n \<le> length src
      then Done (take (nat pos) blk @ take n src @ drop (nat pos + n) blk) else Fault)"

text \<open>
  \<open>struct_mem\<close> tells whether the allocation of the structure succeeds, \<open>data_mem\<close> is the block
  that the second allocation returns.
\<close>

definition net_buffer_alloc :: "bool \<Rightarrow> u8 list option \<Rightarrow> u32 \<Rightarrow> u32 \<Rightarrow> net_buffer option" where
  "net_buffer_alloc struct_mem data_mem buf_size reserve_header =
     (if buf_size = 0 then None
      else if \<not> struct_mem then None
      else case data_mem of
        None \<Rightarrow> None
      | Some blk \<Rightarrow> Some
          \<lparr>nb_block = blk, nb_data = Some (uint reserve_header), nb_len = 0, nb_size = buf_size,
           nb_offset = reserve_header, nb_flags = NET_BUF_FLAG_ALLOC, nb_protocol = 0,
           nb_device = None\<rparr>)"

text \<open>
  \<^verbatim>\<open>net_buffer_free\<close> of a chain, the buffers in the order of their \<^verbatim>\<open>next\<close> links (an empty list is
  the null pointer). The result is the number of blocks given back.
\<close>

fun net_buffer_free :: "net_buffer list \<Rightarrow> nat run" where
  "net_buffer_free [] = Done 0"
| "net_buffer_free (b # bs) =
     rbind (case nb_data b of
              Some d \<Rightarrow> if nb_flags b AND NET_BUF_FLAG_ALLOC \<noteq> 0
                        then (if d - uint (nb_offset b) = 0 then Done 1 else Fault) else Done 0
            | None \<Rightarrow> Done 0) (\<lambda>n.
     rbind (net_buffer_free bs) (\<lambda>m. Done (n + m + 1)))"

fun net_buffer_push :: "net_buffer option \<Rightarrow> u32 \<Rightarrow> int option \<times> net_buffer option" where
  "net_buffer_push None len = (None, None)"
| "net_buffer_push (Some b) len =
     (case nb_data b of
        None \<Rightarrow> (None, Some b)
      | Some d \<Rightarrow>
          if nb_offset b < len then (None, Some b)
          else (Some (d - uint len),
                Some (b\<lparr>nb_data := Some (d - uint len), nb_offset := nb_offset b - len,
                        nb_len := nb_len b + len\<rparr>)))"

fun net_buffer_pull :: "net_buffer option \<Rightarrow> u32 \<Rightarrow> int option \<times> net_buffer option" where
  "net_buffer_pull None len = (None, None)"
| "net_buffer_pull (Some b) len =
     (case nb_data b of
        None \<Rightarrow> (None, Some b)
      | Some d \<Rightarrow>
          if nb_len b < len then (None, Some b)
          else (Some (d + uint len),
                Some (b\<lparr>nb_data := Some (d + uint len), nb_offset := nb_offset b + len,
                        nb_len := nb_len b - len\<rparr>)))"

fun net_buffer_reserve :: "net_buffer option \<Rightarrow> u32 \<Rightarrow> int \<times> net_buffer option" where
  "net_buffer_reserve None len = (NET_ERR_INVALID, None)"
| "net_buffer_reserve (Some b) len =
     (case nb_data b of
        None \<Rightarrow> (NET_ERR_INVALID, Some b)
      | Some d \<Rightarrow>
          if nb_len b > 0 then (NET_ERR_INVALID, Some b)
          else if nb_size b < len then (NET_ERR_NOMEM, Some b)
          else (let d' = (if nb_flags b AND NET_BUF_FLAG_ALLOC \<noteq> 0 then d - uint (nb_offset b) else d)
                in (0, Some (b\<lparr>nb_offset := len, nb_data := Some (d' + uint len)\<rparr>))))"

fun net_buffer_append :: "net_buffer option \<Rightarrow> u8 list option \<Rightarrow> u32 \<Rightarrow> (int \<times> net_buffer option) run" where
  "net_buffer_append (Some b) (Some src) len =
     (case nb_data b of
        None \<Rightarrow> Done (NET_ERR_INVALID, Some b)
      | Some d \<Rightarrow>
          if nb_offset b + nb_len b + len > nb_size b then Done (NET_ERR_NOMEM, Some b)
          else rbind (copy_at (nb_block b) (d + uint (nb_len b)) src (unat len)) (\<lambda>blk.
                 Done (0, Some (b\<lparr>nb_block := blk, nb_len := nb_len b + len\<rparr>))))"
| "net_buffer_append buf _ len = Done (NET_ERR_INVALID, buf)"

section \<open>Devices\<close>

definition network_init :: "net_state \<Rightarrow> int \<times> net_state" where
  "network_init s =
     (0, s\<lparr>ns_devices := replicate NET_MAX_DEVICES None, ns_device_count := 0,
           ns_default_device := None, ns_initialized := True\<rparr>)"

text \<open>The first of the given table entries whose device satisfies a test.\<close>

fun device_search :: "(net_device \<Rightarrow> bool) \<Rightarrow> (dptr \<rightharpoonup> net_device) \<Rightarrow> dptr option list \<Rightarrow> dptr option run" where
  "device_search P store [] = Done None"
| "device_search P store (e # es) =
     (case e of
        None \<Rightarrow> Fault
      | Some p \<Rightarrow> (case store p of
                    None \<Rightarrow> Fault
                  | Some dev \<Rightarrow> if P dev then Done (Some p) else device_search P store es))"

definition registered :: "net_state \<Rightarrow> dptr option list" where
  "registered s = take (ns_device_count s) (ns_devices s)"

definition network_register_device :: "dptr option \<Rightarrow> net_state \<Rightarrow> (int \<times> net_state) run" where
  "network_register_device dev s =
     (case dev of
        None \<Rightarrow> Done (NET_ERR_INVALID, s)
      | Some p \<Rightarrow>
          if \<not> ns_initialized s then Done (NET_ERR_INVALID, s)
          else if ns_device_count s \<ge> NET_MAX_DEVICES then Done (NET_ERR_INVALID, s)
          else (case ns_store s p of
              None \<Rightarrow> Fault
            | Some d \<Rightarrow>
                rbind (device_search (\<lambda>e. nd_name e = nd_name d) (ns_store s) (registered s)) (\<lambda>found.
                if found \<noteq> None then Done (NET_ERR_INVALID, s)
                else Done (0, s\<lparr>ns_devices := (ns_devices s)[ns_device_count s := Some p],
                               ns_device_count := ns_device_count s + 1,
                               ns_default_device :=
                                 (if ns_device_count s + 1 = 1 then Some p else ns_default_device s)\<rparr>))))"

definition network_find_device_by_name :: "string option \<Rightarrow> net_state \<Rightarrow> dptr option run" where
  "network_find_device_by_name name s =
     (case name of
        None \<Rightarrow> Done None
      | Some nm \<Rightarrow>
          if \<not> ns_initialized s then Done None
          else device_search (\<lambda>d. nd_name d = nm) (ns_store s) (registered s))"

definition network_find_device_by_ip :: "ipv4_address option \<Rightarrow> net_state \<Rightarrow> dptr option run" where
  "network_find_device_by_ip ip s =
     (case ip of
        None \<Rightarrow> Done None
      | Some a \<Rightarrow>
          if \<not> ns_initialized s then Done None
          else device_search (\<lambda>d. memcmp (ipv4_bytes (nd_ip d)) (ipv4_bytes a) = 0) (ns_store s) (registered s))"

definition network_get_default_device :: "net_state \<Rightarrow> dptr option" where
  "network_get_default_device s = (if \<not> ns_initialized s then None else ns_default_device s)"

definition network_set_default_device :: "dptr option \<Rightarrow> net_state \<Rightarrow> net_state" where
  "network_set_default_device dev s =
     (if \<not> ns_initialized s then s
      else if dev \<in> set (registered s) then s\<lparr>ns_default_device := dev\<rparr> else s)"

definition network_get_device_count :: "net_state \<Rightarrow> int" where
  "network_get_device_count s = (if \<not> ns_initialized s then 0 else int (ns_device_count s))"

definition network_get_device :: "int \<Rightarrow> net_state \<Rightarrow> dptr option" where
  "network_get_device index s =
     (if \<not> ns_initialized s \<or> index < 0 \<or> index \<ge> int (ns_device_count s) then None
      else ns_devices s ! nat index)"

definition zero_stats :: net_device_stats where
  "zero_stats = \<lparr>rx_packets = 0, tx_packets = 0, rx_bytes = 0, tx_bytes = 0, rx_errors = 0,
     tx_errors = 0, rx_dropped = 0, tx_dropped = 0, collisions = 0\<rparr>"

text \<open>The loopback device; 65536 does not fit the 16 bits of \<^verbatim>\<open>mtu\<close> and wraps.\<close>

definition loopback_device :: net_device where
  "loopback_device =
     \<lparr>nd_name = ''lo'', nd_flags = NET_DEV_FLAG_UP OR NET_DEV_FLAG_LOOPBACK,
      nd_mac = MAC 0 0 0 0 0 0, nd_ip = IPv4 127 0 0 1, nd_netmask = IPv4 255 0 0 0,
      nd_gateway = IPv4 0 0 0 0, nd_mtu = word_of_int 65536, nd_type = 0, nd_transmit = False,
      nd_stats = zero_stats\<rparr>"

definition network_init_enhanced :: "dptr option \<Rightarrow> net_state \<Rightarrow> (int \<times> net_state) run" where
  "network_init_enhanced lo_mem s =
     (let (result, s) = network_init s
      in if result \<noteq> 0 then Done (result, s)
         else case lo_mem of
           None \<Rightarrow> Done (NET_ERR_NOMEM, s)
         | Some lo \<Rightarrow>
             rbind (network_register_device (Some lo)
                      (s\<lparr>ns_store := (ns_store s)(lo \<mapsto> loopback_device)\<rparr>)) (\<lambda>(result, s).
             if result \<noteq> 0 then Done (result, s\<lparr>ns_store := (ns_store s)(lo := None)\<rparr>)
             else Done (0, s)))"

section \<open>Reception\<close>

definition upd_device :: "dptr \<Rightarrow> (net_device \<Rightarrow> net_device) \<Rightarrow> net_state \<Rightarrow> net_state run" where
  "upd_device p f s =
     (case ns_store s p of
        None \<Rightarrow> Fault
      | Some d \<Rightarrow> Done (s\<lparr>ns_store := (ns_store s)(p \<mapsto> f d)\<rparr>))"

definition count_received :: "u32 \<Rightarrow> net_device \<Rightarrow> net_device" where
  "count_received len d =
     d\<lparr>nd_stats := (nd_stats d)\<lparr>rx_packets := rx_packets (nd_stats d) + 1,
                               rx_bytes := rx_bytes (nd_stats d) + ucast len\<rparr>\<rparr>"

text \<open>The protocol that the Ethernet type field selects.\<close>

definition received_protocol :: "u8 list \<Rightarrow> u32 \<Rightarrow> u8 \<Rightarrow> u8" where
  "received_protocol bytes len old =
     (if len \<ge> 14 then
        (let eth_type = push_bit 8 (ucast (bytes ! 12) :: u16) OR ucast (bytes ! 13)
         in if eth_type = 0x0800 then NET_PROTO_IP
            else if eth_type = 0x0806 then NET_PROTO_ARP else old)
      else old)"

definition network_receive_packet ::
  "bool \<Rightarrow> u8 list option \<Rightarrow> dptr option \<Rightarrow> u8 list option \<Rightarrow> u32 \<Rightarrow> net_state \<Rightarrow> (int \<times> net_state) run" where
  "network_receive_packet struct_mem data_mem dev data len s =
     (case (dev, data) of
        (Some p, Some bytes) \<Rightarrow>
          if len = 0 \<or> \<not> ns_initialized s then Done (NET_ERR_INVALID, s)
          else (case net_buffer_alloc struct_mem data_mem (len + 64) 0 of
              None \<Rightarrow> Done (NET_ERR_NOMEM, s)
            | Some b \<Rightarrow>
                rbind (copy_at (nb_block b) 0 bytes (unat len)) (\<lambda>blk.
                rbind (upd_device p (count_received len) s) (\<lambda>s.
                rbind (net_buffer_free
                         [b\<lparr>nb_block := blk, nb_len := len, nb_device := Some p,
                            nb_protocol := received_protocol bytes len (nb_protocol b)\<rparr>]) (\<lambda>_.
                Done (0, s)))))
      | _ \<Rightarrow> Done (NET_ERR_INVALID, s))"

section \<open>Addresses as text\<close>

fun ipv4_to_str :: "ipv4_address \<Rightarrow> string" where
  "ipv4_to_str (IPv4 a b c d) =
     int_digits (uint a) @ ''.'' @ int_digits (uint b) @ ''.'' @ int_digits (uint c) @ ''.'' @ int_digits (uint d)"

text \<open>
  A number that does not fit an \<^verbatim>\<open>int\<close> makes \<^verbatim>\<open>sscanf\<close> undefined. The result is the return code and
  the address stored, if any.
\<close>

definition str_to_ipv4 :: "string option \<Rightarrow> (int \<times> ipv4_address option) run" where
  "str_to_ipv4 str =
     (case str of
        None \<Rightarrow> Done (NET_ERR_INVALID, None)
      | Some cs \<Rightarrow>
          rbind (scan_list fits_int 10 CHR ''.'' 4 cs) (\<lambda>values.
          case values of
            Some [a, b, c, d] \<Rightarrow>
              if a < 0 \<or> a > 255 \<or> b < 0 \<or> b > 255 \<or> c < 0 \<or> c > 255 \<or> d < 0 \<or> d > 255
              then Done (NET_ERR_INVALID, None)
              else Done (0, Some (IPv4 (word_of_int a) (word_of_int b) (word_of_int c) (word_of_int d)))
          | _ \<Rightarrow> Done (NET_ERR_INVALID, None)))"

end
