(* ===== verification/Network_Props.thy ===== *)
theory Network_Props
  imports Network
begin

text \<open>
  What the core of the network stack promises: buffers refine a split byte sequence and never
  access memory outside their block, the device table behaves like a map from names to devices,
  and parsing inverts printing of addresses.
\<close>

section \<open>Buffers\<close>

definition buf_ok :: "net_buffer \<Rightarrow> bool" where
  "buf_ok b \<longleftrightarrow>
     nb_data b = Some (uint (nb_offset b)) \<and> nb_flags b AND NET_BUF_FLAG_ALLOC \<noteq> 0 \<and>
     unat (nb_offset b) + unat (nb_len b) \<le> unat (nb_size b) \<and>
     length (nb_block b) = unat (nb_size b) \<and> unat (nb_size b) < 2 ^ 31"

text \<open>The bytes before the data, the data and the bytes behind them.\<close>

definition buf_view :: "net_buffer \<Rightarrow> u8 list \<times> u8 list \<times> u8 list" where
  "buf_view b =
     (take (unat (nb_offset b)) (nb_block b),
      take (unat (nb_len b)) (drop (unat (nb_offset b)) (nb_block b)),
      drop (unat (nb_offset b) + unat (nb_len b)) (nb_block b))"

datatype buf_op = Push u32 | Pull u32 | Reserve u32 | Append "u8 list"

text \<open>One call on a buffer; the result also tells whether the call succeeded.\<close>

fun buf_exec :: "buf_op \<Rightarrow> net_buffer \<Rightarrow> (bool \<times> net_buffer option) run" where
  "buf_exec (Push n) b = (let (p, b') = net_buffer_push (Some b) n in Done (p \<noteq> None, b'))"
| "buf_exec (Pull n) b = (let (p, b') = net_buffer_pull (Some b) n in Done (p \<noteq> None, b'))"
| "buf_exec (Reserve n) b = (let (r, b') = net_buffer_reserve (Some b) n in Done (r = 0, b'))"
| "buf_exec (Append xs) b =
     rmap (\<lambda>(r, b'). (r = 0, b')) (net_buffer_append (Some b) (Some xs) (of_nat (length xs)))"

text \<open>What the calls mean on a split sequence of bytes; \<open>None\<close> when the call must refuse.\<close>

fun split_op :: "buf_op \<Rightarrow> u8 list \<times> u8 list \<times> u8 list \<Rightarrow> (u8 list \<times> u8 list \<times> u8 list) option" where
  "split_op (Push n) (hd_room, payload, tl_room) =
     (if unat n \<le> length hd_room
      then (let k = length hd_room - unat n in Some (take k hd_room, drop k hd_room @ payload, tl_room))
      else None)"
| "split_op (Pull n) (hd_room, payload, tl_room) =
     (if unat n \<le> length payload
      then Some (hd_room @ take (unat n) payload, drop (unat n) payload, tl_room) else None)"
| "split_op (Reserve n) (hd_room, payload, tl_room) =
     (if payload = [] \<and> unat n \<le> length (hd_room @ tl_room)
      then Some (take (unat n) (hd_room @ tl_room), [], drop (unat n) (hd_room @ tl_room)) else None)"
| "split_op (Append xs) (hd_room, payload, tl_room) =
     (if length xs \<le> length tl_room
      then Some (hd_room, payload @ xs, drop (length xs) tl_room) else None)"

fun op_small :: "buf_op \<Rightarrow> bool" where
  "op_small (Append xs) \<longleftrightarrow> length xs < 2 ^ 31"
| "op_small _ \<longleftrightarrow> True"

text \<open>The call does what the split sequence says, and refuses exactly when it must.\<close>

definition step_refines :: "buf_op \<Rightarrow> net_buffer \<Rightarrow> bool" where
  "step_refines op b \<longleftrightarrow>
     (case split_op op (buf_view b) of
        None \<Rightarrow> buf_exec op b = Done (False, Some b)
      | Some v \<Rightarrow> \<exists>b'. buf_exec op b = Done (True, Some b') \<and> buf_ok b' \<and> buf_view b' = v)"

lemma step_refinesI:
  "buf_exec op b = Done (True, Some b') \<Longrightarrow> buf_ok b' \<Longrightarrow> split_op op (buf_view b) = Some (buf_view b') \<Longrightarrow>
     step_refines op b"
  by (simp add: step_refines_def)

lemma uint_of_unat_plus: "unat z = unat x + unat y \<Longrightarrow> uint (z :: u32) = uint x + uint y"
  by (metis of_nat_add of_nat_unat)

lemma buf_step_push:
  assumes "buf_ok b"
  shows "step_refines (Push n) b"
proof (cases "nb_offset b < n")
  case True
  with assms show ?thesis
    by (auto simp: step_refines_def buf_ok_def buf_view_def word_less_nat_alt)
next
  case False
  then have n: "unat n \<le> unat (nb_offset b)"
    by (simp add: word_less_nat_alt)
  have off: "unat (nb_offset b - n) = unat (nb_offset b) - unat n"
    using n by (simp add: unat_sub word_le_nat_alt)
  have len: "unat (nb_len b + n) = unat (nb_len b) + unat n"
    using assms n unat_plus [of "nb_len b" n] by (simp add: buf_ok_def)
  have dat: "uint (nb_offset b) = uint (nb_offset b - n) + uint n"
    using off n by (intro uint_of_unat_plus) simp
  let ?k = "unat (nb_offset b) - unat n"
  have "take (unat (nb_len b) + unat n) (drop ?k (nb_block b)) =
        drop ?k (take (unat (nb_offset b)) (nb_block b)) @ take (unat (nb_len b)) (drop (unat (nb_offset b)) (nb_block b))"
    using n take_add [of "unat n" "unat (nb_len b)" "drop ?k (nb_block b)"]
    by (simp add: add.commute drop_take)
  then show ?thesis
    using False assms off len n dat
    by (simp add: step_refines_def buf_ok_def buf_view_def Let_def)
qed

lemma buf_step_pull:
  assumes "buf_ok b"
  shows "step_refines (Pull n) b"
proof (cases "nb_len b < n")
  case True
  with assms show ?thesis
    by (auto simp: step_refines_def buf_ok_def buf_view_def word_less_nat_alt)
next
  case False
  then have n: "unat n \<le> unat (nb_len b)"
    by (simp add: word_less_nat_alt)
  have len: "unat (nb_len b - n) = unat (nb_len b) - unat n"
    using n by (simp add: unat_sub word_le_nat_alt)
  have off: "unat (nb_offset b + n) = unat (nb_offset b) + unat n"
    using assms n unat_plus [of "nb_offset b" n] by (simp add: buf_ok_def)
  have dat: "uint (nb_offset b + n) = uint (nb_offset b) + uint n"
    using off by (intro uint_of_unat_plus) simp
  let ?o = "unat (nb_offset b)" and ?l = "unat (nb_len b)" and ?B = "nb_block b"
  let ?b' = "b\<lparr>nb_data := Some (uint (nb_offset b + n)), nb_offset := nb_offset b + n, nb_len := nb_len b - n\<rparr>"
  have "?l \<le> length ?B - ?o" "unat n \<le> length ?B - ?o"
    using assms n by (auto simp: buf_ok_def)
  moreover have "take (?o + unat n) ?B = take ?o ?B @ take (unat n) (drop ?o ?B)"
    by (rule take_add)
  moreover have "drop (?o + unat n) ?B = drop (unat n) (drop ?o ?B)"
    by (simp add: add.commute)
  moreover have "?o + unat n + (?l - unat n) = ?o + ?l"
    using n by simp
  ultimately have split: "split_op (Pull n) (buf_view b) = Some (buf_view ?b')"
    using off len n by (simp add: buf_view_def drop_take del: drop_drop)
  have "buf_exec (Pull n) b = Done (True, Some ?b')"
    using False assms dat by (simp add: buf_ok_def)
  moreover have "buf_ok ?b'"
    using assms off len n by (simp add: buf_ok_def)
  ultimately show ?thesis
    using split by (rule step_refinesI)
qed

lemma buf_step_reserve:
  assumes "buf_ok b"
  shows "step_refines (Reserve n) b"
proof (cases "nb_len b > 0")
  case True
  with assms have "0 < unat (nb_len b)"
    by (simp add: word_less_nat_alt)
  with True assms show ?thesis
    by (auto simp: step_refines_def buf_ok_def buf_view_def NET_ERR_INVALID_def)
next
  case False
  then have len: "nb_len b = 0"
    by (simp add: word_gt_0)
  show ?thesis
    using assms len
    by (auto simp: step_refines_def buf_ok_def buf_view_def Let_def NET_ERR_NOMEM_def word_less_nat_alt)
qed

lemma buf_step_append:
  assumes "buf_ok b" and xs: "length xs < 2 ^ 31"
  shows "step_refines (Append xs) b"
proof -
  have n: "unat (of_nat (length xs) :: u32) = length xs"
    using xs by (simp add: unat_of_nat)
  have ol: "unat (nb_offset b + nb_len b) = unat (nb_offset b) + unat (nb_len b)"
    using assms unat_plus by (simp add: buf_ok_def)
  then have oln: "unat (nb_offset b + nb_len b + of_nat (length xs)) = unat (nb_offset b) + unat (nb_len b) + length xs"
    using assms n unat_plus [of "nb_offset b + nb_len b" "of_nat (length xs)"] by (simp add: buf_ok_def)
  show ?thesis
  proof (cases "nb_offset b + nb_len b + of_nat (length xs) > nb_size b")
    case True
    then have "\<not> length xs \<le> unat (nb_size b) - (unat (nb_offset b) + unat (nb_len b))"
      using oln assms(1) by (auto simp: word_less_nat_alt buf_ok_def)
    with True assms(1) show ?thesis
      by (auto simp: step_refines_def buf_ok_def buf_view_def NET_ERR_NOMEM_def)
  next
    case False
    then have fit: "unat (nb_offset b) + unat (nb_len b) + length xs \<le> unat (nb_size b)"
      using oln by (simp add: word_less_nat_alt)
    have len: "unat (nb_len b + of_nat (length xs)) = unat (nb_len b) + length xs"
      using assms n fit unat_plus [of "nb_len b" "of_nat (length xs)"] by (simp add: buf_ok_def)
    have pos: "nat (uint (nb_offset b) + uint (nb_len b)) = unat (nb_offset b) + unat (nb_len b)"
      by (simp add: nat_add_distrib)
    let ?e = "unat (nb_offset b) + unat (nb_len b)" and ?B = "nb_block b"
    let ?b' = "b\<lparr>nb_block := take ?e ?B @ xs @ drop (?e + length xs) ?B, nb_len := nb_len b + of_nat (length xs)\<rparr>"
    have "length xs \<le> length ?B - ?e" "?e \<le> length ?B"
      using fit assms(1) by (simp_all add: buf_ok_def)
    moreover have "drop (?e + length xs) ?B = drop (length xs) (drop ?e ?B)"
      by (simp add: add.commute)
    moreover have "take ?e ?B = take (unat (nb_offset b)) ?B @ take (unat (nb_len b)) (drop (unat (nb_offset b)) ?B)"
      by (rule take_add)
    ultimately have split: "split_op (Append xs) (buf_view b) = Some (buf_view ?b')"
      using len by (simp add: buf_view_def add.assoc [symmetric] del: drop_drop)
    have "copy_at ?B (uint (nb_offset b) + uint (nb_len b)) xs (length xs) =
        Done (take ?e ?B @ xs @ drop (?e + length xs) ?B)"
      using fit pos assms(1) by (simp add: copy_at_def buf_ok_def)
    then have "buf_exec (Append xs) b = Done (True, Some ?b')"
      using False assms(1) n by (simp add: buf_ok_def)
    moreover have "buf_ok ?b'"
      using assms(1) fit len by (simp add: buf_ok_def)
    ultimately show ?thesis
      using split by (rule step_refinesI)
  qed
qed

lemma buf_step:
  assumes "buf_ok b" "op_small op"
  shows "step_refines op b"
  using assms buf_step_push buf_step_pull buf_step_reserve buf_step_append by (cases op) auto

text \<open>A sequence of calls; a call that refuses leaves the buffer as it was.\<close>

fun buf_run :: "buf_op list \<Rightarrow> net_buffer \<Rightarrow> net_buffer run" where
  "buf_run [] b = Done b"
| "buf_run (op # ops) b =
     rbind (buf_exec op b) (\<lambda>(_, b'). case b' of None \<Rightarrow> Fault | Some b' \<Rightarrow> buf_run ops b')"

fun split_run :: "buf_op list \<Rightarrow> u8 list \<times> u8 list \<times> u8 list \<Rightarrow> u8 list \<times> u8 list \<times> u8 list" where
  "split_run [] v = v"
| "split_run (op # ops) v = split_run ops (case split_op op v of None \<Rightarrow> v | Some v' \<Rightarrow> v')"

lemma buf_run_refines:
  "buf_ok b \<Longrightarrow> list_all op_small ops \<Longrightarrow>
     \<exists>b'. buf_run ops b = Done b' \<and> buf_ok b' \<and> buf_view b' = split_run ops (buf_view b)"
proof (induction ops arbitrary: b)
  case Nil
  then show ?case by simp
next
  case (Cons op ops)
  from Cons.prems have "step_refines op b"
    by (simp add: buf_step)
  then show ?case
  proof (cases "split_op op (buf_view b)")
    case None
    with \<open>step_refines op b\<close> Cons show ?thesis
      by (simp add: step_refines_def)
  next
    case (Some v)
    then obtain b' where "buf_exec op b = Done (True, Some b')" "buf_ok b'" "buf_view b' = v"
      using \<open>step_refines op b\<close> by (auto simp: step_refines_def)
    with Some Cons.IH [of b'] Cons.prems show ?thesis
      by simp
  qed
qed

lemma buf_ok_alloc:
  assumes "net_buffer_alloc struct_mem (Some blk) n h = Some b"
    and "length blk = unat n" "unat n < 2 ^ 31" "h \<le> n"
  shows "buf_ok b" "buf_view b = (take (unat h) blk, [], drop (unat h) blk)"
  using assms
  by (auto simp: net_buffer_alloc_def buf_ok_def buf_view_def NET_BUF_FLAG_ALLOC_def word_le_nat_alt
      split: if_splits)

lemma buf_ok_free: "buf_ok b \<Longrightarrow> net_buffer_free [b] = Done 2"
  by (simp add: buf_ok_def)

text \<open>
  C20: network buffers. On a buffer from \<^verbatim>\<open>net_buffer_alloc\<close>, any sequence of push, pull, reserve
  and append calls does on the block exactly what the four operations mean on a byte sequence
  split into headroom, payload and tailroom: a call refuses exactly when the room it needs is
  not there, payload bytes are never lost or changed, no access leaves the block, and in the
  end \<^verbatim>\<open>net_buffer_free\<close> gives back the block and the structure.
\<close>

theorem net_buffer_refines:
  assumes "net_buffer_alloc struct_mem (Some blk) n h = Some b"
    and "length blk = unat n" "unat n < 2 ^ 31" "h \<le> n" "list_all op_small ops"
  shows "\<exists>b'. buf_run ops b = Done b' \<and>
           buf_view b' = split_run ops (take (unat h) blk, [], drop (unat h) blk) \<and>
           net_buffer_free [b'] = Done 2"
  using buf_run_refines [OF buf_ok_alloc(1) [OF assms(1-4)] assms(5)] buf_ok_alloc(2) [OF assms(1-4)]
    buf_ok_free by auto

definition sample_ops :: "buf_op list" where
  "sample_ops = [Push 3, Append [1, 2, 3], Push 2, Append [9, 9], Pull 1, Append [4]]"

theorem net_buffer_refines_witness:
  "\<exists>b b'. net_buffer_alloc True (Some [10, 11, 12, 13, 14, 15]) 6 2 = Some b \<and>
     buf_run sample_ops b = Done b' \<and> buf_view b' = ([10], [11, 1, 2, 3, 4], []) \<and>
     net_buffer_free [b'] = Done 2"
proof -
  obtain b where b: "net_buffer_alloc True (Some [10, 11, 12, 13, 14, 15]) 6 2 = Some b"
    by (simp add: net_buffer_alloc_def)
  have "split_run sample_ops (take (unat (2 :: u32)) [10, 11, 12, 13, 14, 15], [], drop (unat (2 :: u32)) [10, 11, 12, 13, 14, 15])
      = ([10], [11, 1, 2, 3, 4], [])"
    by code_simp
  then show ?thesis
    using net_buffer_refines [OF b, of sample_ops] b by (simp add: sample_ops_def)
qed

section \<open>The device table\<close>

definition device_list :: "net_state \<Rightarrow> dptr list" where
  "device_list s = map the (registered s)"

definition device_name :: "net_state \<Rightarrow> dptr \<Rightarrow> string" where
  "device_name s p = nd_name (the (ns_store s p))"

definition net_ok :: "net_state \<Rightarrow> bool" where
  "net_ok s \<longleftrightarrow>
     length (ns_devices s) = NET_MAX_DEVICES \<and> ns_device_count s \<le> NET_MAX_DEVICES \<and>
     None \<notin> set (registered s) \<and> (\<forall>p \<in> set (device_list s). ns_store s p \<noteq> None) \<and>
     distinct (map (device_name s) (device_list s)) \<and>
     (if ns_device_count s = 0 then ns_default_device s = None
      else ns_default_device s \<in> set (registered s))"

lemma map_Some_the: "None \<notin> set es \<Longrightarrow> map Some (map the es) = es"
  by (induction es) auto

lemma registered_list: "net_ok s \<Longrightarrow> registered s = map Some (device_list s)"
  by (simp add: net_ok_def device_list_def map_Some_the del: map_map)

lemma device_search_live:
  "\<forall>p \<in> set ps. store p \<noteq> None \<Longrightarrow>
     device_search P store (map Some ps) = Done (List.find (\<lambda>p. P (the (store p))) ps)"
  by (induction ps) auto

lemma find_by_name:
  assumes "net_ok s" "ns_initialized s"
  shows "network_find_device_by_name (Some nm) s = Done (List.find (\<lambda>p. device_name s p = nm) (device_list s))"
  using assms registered_list [OF assms(1)]
  by (simp add: network_find_device_by_name_def device_search_live net_ok_def device_name_def)

lemma net_ok_init: "net_ok (snd (network_init s))"
  by (simp add: network_init_def net_ok_def registered_def device_list_def)

lemma registered_append:
  assumes "length (ns_devices s) = NET_MAX_DEVICES" "ns_device_count s < NET_MAX_DEVICES"
    "ns_devices s' = (ns_devices s)[ns_device_count s := Some p]" "ns_device_count s' = ns_device_count s + 1"
  shows "registered s' = registered s @ [Some p]"
  using assms by (simp add: registered_def take_Suc_conv_app_nth)

lemma find_append: "List.find P (xs @ ys) = (case List.find P xs of None \<Rightarrow> List.find P ys | Some x \<Rightarrow> Some x)"
  by (induction xs) auto

text \<open>
  C21: registering devices. On a well-formed table \<^verbatim>\<open>network_register_device\<close> of an allocated device
  accepts it exactly when there is room and its name is new. It then keeps the table well
  formed, looking the name up gives this device, all other names give what they gave before,
  the device is the last one by index, and it is the default device if it is the first.
  Otherwise the call reports an error and changes nothing.
\<close>

theorem register_device_lookup:
  assumes ok: "net_ok s" "ns_initialized s" and p: "ns_store s p = Some d"
  shows "if ns_device_count s < NET_MAX_DEVICES \<and> network_find_device_by_name (Some (nd_name d)) s = Done None
         then \<exists>s'. network_register_device (Some p) s = Done (0, s') \<and> net_ok s' \<and>
           (\<forall>nm. network_find_device_by_name (Some nm) s' =
              (if nm = nd_name d then Done (Some p) else network_find_device_by_name (Some nm) s)) \<and>
           network_get_device (network_get_device_count s) s' = Some p \<and>
           network_get_default_device s' =
             (if ns_device_count s = 0 then Some p else network_get_default_device s)
         else network_register_device (Some p) s = Done (NET_ERR_INVALID, s)"
proof (cases "ns_device_count s < NET_MAX_DEVICES \<and> network_find_device_by_name (Some (nd_name d)) s = Done None")
  case True
  let ?s' = "s\<lparr>ns_devices := (ns_devices s)[ns_device_count s := Some p],
    ns_device_count := ns_device_count s + 1,
    ns_default_device := (if ns_device_count s + 1 = 1 then Some p else ns_default_device s)\<rparr>"
  have len: "length (ns_devices s) = NET_MAX_DEVICES"
    using ok by (simp add: net_ok_def)
  have new: "List.find (\<lambda>q. device_name s q = nd_name d) (device_list s) = None"
    using True ok by (simp add: find_by_name)
  have reg: "registered ?s' = registered s @ [Some p]"
    using len True by (intro registered_append) simp_all
  then have lst: "device_list ?s' = device_list s @ [p]"
    by (simp add: device_list_def)
  have nm: "device_name ?s' = device_name s"
    by (simp add: device_name_def fun_eq_iff)
  have dn: "device_name s p = nd_name d"
    using p by (simp add: device_name_def)
  have "network_register_device (Some p) s = Done (0, ?s')"
    using True ok p new registered_list [OF ok(1)]
    by (simp add: network_register_device_def device_search_live net_ok_def device_name_def)
  moreover have ok': "net_ok ?s'"
    using ok True p new lst reg nm dn
    by (auto simp: net_ok_def find_None_iff)
  moreover have "network_find_device_by_name (Some n) ?s' =
      (if n = nd_name d then Done (Some p) else network_find_device_by_name (Some n) s)" for n
    using find_by_name [OF ok' , of n] ok lst nm dn new
    by (auto simp: find_by_name find_append split: option.split)
  ultimately show ?thesis
    using True ok len
    by (auto simp: network_get_device_def network_get_device_count_def network_get_default_device_def)
next
  case False
  then show ?thesis
    using ok p registered_list [OF ok(1)] find_by_name [OF ok]
    by (auto simp: network_register_device_def device_search_live net_ok_def device_name_def)
qed

definition two_devices :: net_state where
  "two_devices = \<lparr>ns_devices = Some 1 # replicate 7 None, ns_device_count = 1, ns_default_device = Some 1,
     ns_initialized = True,
     ns_store = [1 \<mapsto> loopback_device, 2 \<mapsto> loopback_device\<lparr>nd_name := ''eth0''\<rparr>]\<rparr>"

theorem register_device_lookup_witness:
  "\<exists>s'. network_register_device (Some 2) two_devices = Done (0, s') \<and>
     network_find_device_by_name (Some ''eth0'') s' = Done (Some 2) \<and>
     network_find_device_by_name (Some ''lo'') s' = Done (Some 1) \<and>
     network_get_default_device s' = Some 1"
proof -
  have "net_ok two_devices"
    by (simp add: two_devices_def net_ok_def registered_def device_list_def NET_MAX_DEVICES_def)
  moreover have "network_find_device_by_name (Some ''lo'') two_devices = Done (Some 1)"
    "network_find_device_by_name (Some ''eth0'') two_devices = Done None"
    by (simp_all add: two_devices_def network_find_device_by_name_def registered_def loopback_device_def)
  moreover have "ns_initialized two_devices" "ns_device_count two_devices = 1"
    "ns_store two_devices 2 = Some (loopback_device\<lparr>nd_name := ''eth0''\<rparr>)"
    "network_get_default_device two_devices = Some 1"
    by (simp_all add: two_devices_def network_get_default_device_def)
  ultimately show ?thesis
    using register_device_lookup [of two_devices 2 "loopback_device\<lparr>nd_name := ''eth0''\<rparr>"]
    by (auto simp: NET_MAX_DEVICES_def)
qed

section \<open>Addresses as text\<close>

lemma ends_number_dot: "ends_number 10 (CHR ''.'' # cs)"
  by (simp add: ends_number_def digit_val_def)

lemma ends_number_nil: "ends_number base []"
  by (simp add: ends_number_def)

lemma byte_range: "0 \<le> uint (b :: u8)" "uint b \<le> 255"
  using uint_lt2p [of b] by simp_all

lemma int_digits_byte: "int_digits (uint (b :: u8)) = nat_digits (unat b)"
  by (simp add: int_digits_def)

lemma scan_num_byte: "ends_number 10 cs \<Longrightarrow> scan_num 10 (nat_digits (unat (b :: u8)) @ cs) = Some (uint b, cs)"
  by (simp add: scan_num_nat_digits)

text \<open>C22: parsing a printed IPv4 address gives the address back, for every address.\<close>

theorem ipv4_round_trip: "str_to_ipv4 (Some (ipv4_to_str a)) = Done (0, Some a)"
proof (cases a)
  case (IPv4 w x y z)
  have fits: "fits_int (uint b)" for b :: u8
    using byte_range [of b] order_trans [of "- (2 ^ 31)" 0 "uint b"] by (simp add: fits_int_def INT_MAX_def)
  have "scan_list fits_int 10 CHR ''.'' 4 (ipv4_to_str a) = Done (Some [uint w, uint x, uint y, uint z])"
    unfolding IPv4
    using scan_num_byte [OF ends_number_dot] scan_num_byte [OF ends_number_nil, of z] fits
    by (simp add: numeral_eq_Suc int_digits_byte scan_char_def)
  then show ?thesis
    using byte_range [of w] byte_range [of x] byte_range [of y] byte_range [of z]
    by (simp add: str_to_ipv4_def IPv4 not_less)
qed

end
