(* ===== verification/Byte_Order.thy ===== *)
theory Byte_Order
  imports Network
begin

text \<open>
  Multi-byte fields of packet headers in memory. The machine is little-endian: the first byte of
  a stored 16-bit word is its low byte. \<^verbatim>\<open>htons\<close> and \<^verbatim>\<open>ntohs\<close> exchange the two bytes, \<^verbatim>\<open>htonl\<close> and
  \<^verbatim>\<open>ntohl\<close> reverse four.
\<close>

definition le16 :: "u8 \<Rightarrow> u8 \<Rightarrow> u16" where
  "le16 a b = ucast a OR push_bit 8 (ucast b)"

definition le16_bytes :: "u16 \<Rightarrow> u8 list" where
  "le16_bytes w = [ucast w, ucast (drop_bit 8 w)]"

definition le32 :: "u8 \<Rightarrow> u8 \<Rightarrow> u8 \<Rightarrow> u8 \<Rightarrow> u32" where
  "le32 a b c d = ucast a OR push_bit 8 (ucast b) OR push_bit 16 (ucast c) OR push_bit 24 (ucast d)"

definition le32_bytes :: "u32 \<Rightarrow> u8 list" where
  "le32_bytes w = [ucast w, ucast (drop_bit 8 w), ucast (drop_bit 16 w), ucast (drop_bit 24 w)]"

definition swap16 :: "u16 \<Rightarrow> u16" where
  "swap16 w = drop_bit 8 w OR push_bit 8 (w AND 0xFF)"

definition swap32 :: "u32 \<Rightarrow> u32" where
  "swap32 w = le32 (ucast (drop_bit 24 w)) (ucast (drop_bit 16 w)) (ucast (drop_bit 8 w)) (ucast w)"

text \<open>The \<open>n\<close> bytes at offset \<open>i\<close> from the data pointer of a buffer.\<close>

definition data_bytes :: "net_buffer \<Rightarrow> nat \<Rightarrow> nat \<Rightarrow> u8 list run" where
  "data_bytes b i n =
     (case nb_data b of
        None \<Rightarrow> Fault
      | Some d \<Rightarrow> if 0 \<le> d \<and> nat d + i + n \<le> length (nb_block b)
                  then Done (take n (drop (nat d + i) (nb_block b))) else Fault)"

definition put_bytes :: "net_buffer \<Rightarrow> nat \<Rightarrow> u8 list \<Rightarrow> net_buffer run" where
  "put_bytes b i xs =
     (case nb_data b of
        None \<Rightarrow> Fault
      | Some d \<Rightarrow> rmap (\<lambda>blk. b\<lparr>nb_block := blk\<rparr>) (copy_at (nb_block b) (d + int i) xs (length xs)))"

lemma mask8_16: "(0xFF :: u16) = mask 8"
  by (simp add: mask_eq_exp_minus_1)

lemma swap16_take_bit: "swap16 w = drop_bit 8 w OR push_bit 8 (take_bit 8 w)"
  unfolding swap16_def mask8_16 take_bit_eq_mask by simp

lemma swap16_swap16 [simp]: "swap16 (swap16 w) = w"
  unfolding swap16_take_bit by (rule bit_word_eqI) (auto simp: bit_simps)

text \<open>Storing the exchanged word puts the high byte first.\<close>

lemma le16_bytes_swap16: "le16_bytes (swap16 w) = [ucast (drop_bit 8 w), ucast w]"
  unfolding le16_bytes_def swap16_take_bit
  by (auto intro!: bit_word_eqI simp: bit_simps)

lemma le16_le16_bytes: "le16 (ucast w) (ucast (drop_bit 8 w)) = w"
  unfolding le16_def by (auto intro!: bit_word_eqI simp: bit_simps)

lemma uint_le16: "uint (le16 a b) = uint a + 256 * uint b"
proof -
  have "le16 a b = ucast a + push_bit 8 (ucast b)"
    unfolding le16_def by (rule disjunctive_add [symmetric]) (auto simp: bit_simps dest: bit_imp_le_length)
  moreover have "uint a < 256" "uint b < 256"
    using uint_lt2p [of a] uint_lt2p [of b] by simp_all
  ultimately show ?thesis
    by (simp add: push_bit_eq_mult uint_word_ariths unsigned_ucast_eq take_bit_eq_mod mod_pos_pos_trivial)
qed

lemma le32_le32_bytes:
  "le32 (ucast w) (ucast (drop_bit 8 w)) (ucast (drop_bit 16 w)) (ucast (drop_bit 24 w)) = w"
proof (rule bit_word_eqI)
  fix n
  assume "n < LENGTH(32)"
  then consider "n < 8" | "8 \<le> n" "n < 16" | "16 \<le> n" "n < 24" | "24 \<le> n" "n < 32"
    by fastforce
  then show "bit (le32 (ucast w) (ucast (drop_bit 8 w)) (ucast (drop_bit 16 w)) (ucast (drop_bit 24 w))) n = bit w n"
    by cases (auto simp: le32_def bit_simps)
qed

lemma le32_parts:
  "ucast (le32 a b c d) = a" "ucast (drop_bit 8 (le32 a b c d)) = b"
  "ucast (drop_bit 16 (le32 a b c d)) = c" "ucast (drop_bit 24 (le32 a b c d)) = d"
  unfolding le32_def
  by (rule bit_word_eqI; auto simp: bit_simps dest: bit_imp_le_length)+

lemma le16_parts: "ucast (le16 a b) = a" "ucast (drop_bit 8 (le16 a b)) = b"
  unfolding le16_def
  by (rule bit_word_eqI; auto simp: bit_simps dest: bit_imp_le_length)+

lemma swap32_swap32 [simp]: "swap32 (swap32 w) = w"
  by (simp add: swap32_def le32_parts le32_le32_bytes)

lemma le32_bytes_swap32: "le32_bytes (swap32 w) = rev (le32_bytes w)"
  by (simp add: le32_bytes_def swap32_def le32_parts)

lemma length_le_bytes [simp]: "length (le16_bytes w) = 2" "length (le32_bytes v) = 4"
  by (simp_all add: le16_bytes_def le32_bytes_def)

end
