(* ===== verification/Ethernet.thy ===== *)
theory Ethernet
  imports Network_Props Byte_Order
begin

text \<open>
  The Ethernet layer, \<^verbatim>\<open>network/src/ethernet.c\<close>: dispatching received frames, sending frames, and
  MAC addresses. The IP layer that a received frame is passed to is an argument of the reception,
  the driver's \<^verbatim>\<open>transmit\<close> operation one of the transmission.
\<close>

section \<open>The model\<close>

definition ETH_TYPE_IP :: u16 where "ETH_TYPE_IP = 0x0800"
definition ETH_TYPE_ARP :: u16 where "ETH_TYPE_ARP = 0x0806"
definition ETH_HEADER_SIZE :: u32 where "ETH_HEADER_SIZE = 14"

definition broadcast_mac :: mac_address where
  "broadcast_mac = MAC 0xFF 0xFF 0xFF 0xFF 0xFF 0xFF"

datatype eth_protocol_handler = Ethernet_handle_ip | Ethernet_handle_arp

text \<open>
  The handler table: an array with two designated initialisers, applied in the order of the text;
  its size is one more than the largest index.
\<close>

definition protocol_handlers :: "eth_protocol_handler option list" where
  "protocol_handlers =
     (replicate (max (unat (drop_bit 8 ETH_TYPE_IP)) (unat (drop_bit 8 ETH_TYPE_ARP)) + 1) None)
       [unat (drop_bit 8 ETH_TYPE_IP) := Some Ethernet_handle_ip,
        unat (drop_bit 8 ETH_TYPE_ARP) := Some Ethernet_handle_arp]"

definition ethernet_init :: int where
  "ethernet_init = 0"

definition ethernet_is_broadcast :: "mac_address option \<Rightarrow> bool" where
  "ethernet_is_broadcast mac =
     (case mac of None \<Rightarrow> False | Some m \<Rightarrow> memcmp (mac_bytes m) (mac_bytes broadcast_mac) = 0)"

definition ethernet_is_multicast :: "mac_address option \<Rightarrow> bool" where
  "ethernet_is_multicast mac =
     (case mac of None \<Rightarrow> False | Some m \<Rightarrow> hd (mac_bytes m) AND 0x01 \<noteq> 0)"

definition ethernet_mac_cmp :: "mac_address option \<Rightarrow> mac_address option \<Rightarrow> int" where
  "ethernet_mac_cmp mac1 mac2 =
     (case (mac1, mac2) of (Some a, Some b) \<Rightarrow> memcmp (mac_bytes a) (mac_bytes b) | _ \<Rightarrow> - 1)"

text \<open>The new contents of \<open>dst\<close>.\<close>

definition ethernet_mac_copy :: "mac_address option \<Rightarrow> mac_address option \<Rightarrow> mac_address option" where
  "ethernet_mac_copy dst src = (case (dst, src) of (Some _, Some m) \<Rightarrow> Some m | _ \<Rightarrow> dst)"

definition ethernet_generate_mac :: mac_address where
  "ethernet_generate_mac =
     (let random = 0x12345678 :: u32
      in MAC 0x02 (ucast (drop_bit 24 random AND 0xFF)) (ucast (drop_bit 16 random AND 0xFF))
           (ucast (drop_bit 8 random AND 0xFF)) (ucast (random AND 0xFF)) 0xAA)"

text \<open>
  What a layer does with a received buffer: a return code, the buffer it leaves and the new state
  of the layers above. The IP layer is \<open>ip_rx\<close>.
\<close>

type_synonym 's rx_handler = "net_buffer \<Rightarrow> 's \<Rightarrow> (int \<times> net_buffer \<times> 's) run"

definition ethernet_handle_ip ::
  "'s rx_handler \<Rightarrow> 's rx_handler" where
  "ethernet_handle_ip ip_rx b s = ip_rx (b\<lparr>nb_protocol := NET_PROTO_IP\<rparr>) s"

definition ethernet_handle_arp :: "'s rx_handler" where
  "ethernet_handle_arp b s = Done (0, b\<lparr>nb_protocol := NET_PROTO_ARP\<rparr>, s)"

definition run_handler ::
  "'s rx_handler \<Rightarrow> eth_protocol_handler \<Rightarrow> 's rx_handler" where
  "run_handler ip_rx h b s =
     (case h of
        Ethernet_handle_ip \<Rightarrow> ethernet_handle_ip ip_rx b s
      | Ethernet_handle_arp \<Rightarrow> ethernet_handle_arp b s)"

fun mac_of :: "u8 list \<Rightarrow> mac_address" where
  "mac_of (a # b # c # d # e # f # _) = MAC a b c d e f"
| "mac_of _ = MAC 0 0 0 0 0 0"

text \<open>The destination field of a header selects the broadcast and multicast flags.\<close>

definition cast_flags :: "u8 list \<Rightarrow> u8 \<Rightarrow> u8" where
  "cast_flags eth flags =
     (if ethernet_is_broadcast (Some (mac_of eth)) then flags OR NET_BUF_FLAG_BROADCAST
      else if ethernet_is_multicast (Some (mac_of eth)) then flags OR NET_BUF_FLAG_MULTICAST
      else flags)"

definition ethertype_of :: "u8 list \<Rightarrow> u16" where
  "ethertype_of eth = swap16 (le16 (eth ! 12) (eth ! 13))"

definition ethernet_rx :: "'s rx_handler \<Rightarrow> net_buffer option \<Rightarrow> 's \<Rightarrow> (int \<times> net_buffer option \<times> 's) run" where
  "ethernet_rx ip_rx buffer s =
     (case buffer of
        None \<Rightarrow> Done (NET_ERR_INVALID, None, s)
      | Some b \<Rightarrow>
          if nb_len b < ETH_HEADER_SIZE then Done (NET_ERR_INVALID, Some b, s)
          else rbind (data_bytes b 0 14) (\<lambda>eth.
            let proto_index = unat (drop_bit 8 (ethertype_of eth))
            in if proto_index \<ge> length protocol_handlers then Done (NET_ERR_NOPROTO, Some b, s)
               else (case protocol_handlers ! proto_index of
                   None \<Rightarrow> Done (NET_ERR_NOPROTO, Some b, s)
                 | Some h \<Rightarrow>
                     (case snd (net_buffer_pull (Some (b\<lparr>nb_protocol := NET_PROTO_ETH\<rparr>)) ETH_HEADER_SIZE) of
                        None \<Rightarrow> Fault
                      | Some b \<Rightarrow>
                          rmap (\<lambda>(r, b, s). (r, Some b, s))
                            (run_handler ip_rx h (b\<lparr>nb_flags := cast_flags eth (nb_flags b)\<rparr>) s)))))"

definition eth_header_bytes :: "mac_address \<Rightarrow> mac_address \<Rightarrow> u16 \<Rightarrow> u8 list" where
  "eth_header_bytes dest src ethertype = mac_bytes dest @ mac_bytes src @ le16_bytes (swap16 ethertype)"

definition count_sent :: "u32 \<Rightarrow> net_device \<Rightarrow> net_device" where
  "count_sent len d =
     d\<lparr>nd_stats := (nd_stats d)\<lparr>tx_packets := tx_packets (nd_stats d) + 1,
                               tx_bytes := tx_bytes (nd_stats d) + ucast len\<rparr>\<rparr>"

definition count_tx_error :: "net_device \<Rightarrow> net_device" where
  "count_tx_error d = d\<lparr>nd_stats := (nd_stats d)\<lparr>tx_errors := tx_errors (nd_stats d) + 1\<rparr>\<rparr>"

text \<open>The driver call, and counting its failures.\<close>

definition transmit_frame ::
  "(dptr \<Rightarrow> net_buffer \<Rightarrow> int) \<Rightarrow> dptr \<Rightarrow> net_device \<Rightarrow> net_buffer \<Rightarrow> net_state \<Rightarrow> (int \<times> net_buffer \<times> net_state) run" where
  "transmit_frame transmit p d b ns =
     (if nd_transmit d then
        (let result = transmit p b
         in if result \<noteq> 0 then rbind (upd_device p count_tx_error ns) (\<lambda>ns. Done (result, b, ns))
            else Done (result, b, ns))
      else Done (NET_ERR_INVALID, b, ns))"

definition ethernet_tx ::
  "(dptr \<Rightarrow> net_buffer \<Rightarrow> int) \<Rightarrow> dptr option \<Rightarrow> net_buffer \<Rightarrow> mac_address option \<Rightarrow> u16 \<Rightarrow> net_state \<Rightarrow>
     (int \<times> net_buffer \<times> net_state) run" where
  "ethernet_tx transmit dev b dest ethertype ns =
     (case (dev, dest) of
        (Some p, Some dst) \<Rightarrow>
          (case ns_store ns p of
             None \<Rightarrow> Fault
           | Some d \<Rightarrow>
               if nd_flags d AND NET_DEV_FLAG_UP = 0 then Done (NET_ERR_BUSY, b, ns)
               else if nb_offset b < ETH_HEADER_SIZE then Done (NET_ERR_NOMEM, b, ns)
               else (case net_buffer_push (Some b) ETH_HEADER_SIZE of
                   (Some _, Some b) \<Rightarrow>
                     rbind (put_bytes b 0 (eth_header_bytes dst (nd_mac d) ethertype)) (\<lambda>b.
                     rbind (upd_device p (count_sent (nb_len b)) ns) (\<lambda>ns.
                     transmit_frame transmit p d (b\<lparr>nb_device := Some p\<rparr>) ns))
                 | _ \<Rightarrow> Done (NET_ERR_NOMEM, b, ns)))
      | _ \<Rightarrow> Done (NET_ERR_INVALID, b, ns))"

definition ethernet_alloc_frame :: "bool \<Rightarrow> u8 list option \<Rightarrow> u32 \<Rightarrow> net_buffer option" where
  "ethernet_alloc_frame struct_mem data_mem payload_size =
     net_buffer_alloc struct_mem data_mem (ETH_HEADER_SIZE + payload_size) ETH_HEADER_SIZE"

definition ethernet_mac_to_str :: "mac_address \<Rightarrow> string" where
  "ethernet_mac_to_str mac = concat (map (\<lambda>b. hex2 b @ '':'') (butlast (mac_bytes mac))) @ hex2 (last (mac_bytes mac))"

text \<open>
  Each value is stored in the address as soon as it is checked, so a failure in the middle leaves
  the bytes before it changed; the result is the return code and the new address.
\<close>

fun store_bytes :: "int list \<Rightarrow> u8 list \<Rightarrow> nat \<Rightarrow> int \<times> u8 list" where
  "store_bytes [] out i = (0, out)"
| "store_bytes (v # vs) out i =
     (if uint (word_of_int v :: u32) > 0xFF then (NET_ERR_INVALID, out)
      else store_bytes vs (out[i := word_of_int v]) (i + 1))"

definition ethernet_str_to_mac :: "string option \<Rightarrow> mac_address option \<Rightarrow> (int \<times> mac_address option) run" where
  "ethernet_str_to_mac str mac =
     (case (str, mac) of
        (Some cs, Some m) \<Rightarrow>
          rbind (scan_list fits_unsigned 16 CHR '':'' 6 cs) (\<lambda>colons.
          rbind (case colons of
                   Some vs \<Rightarrow> Done (Some vs)
                 | None \<Rightarrow> scan_list fits_unsigned 16 CHR ''-'' 6 cs) (\<lambda>values.
          Done (case values of
                  None \<Rightarrow> (NET_ERR_INVALID, Some m)
                | Some vs \<Rightarrow> map_prod id (\<lambda>out. Some (mac_of out)) (store_bytes vs (mac_bytes m) 0))))
      | _ \<Rightarrow> Done (NET_ERR_INVALID, mac))"

section \<open>Sending and receiving frames\<close>

definition payload :: "net_buffer \<Rightarrow> u8 list" where
  "payload b = take (unat (nb_len b)) (drop (unat (nb_offset b)) (nb_block b))"

lemma length_payload: "buf_ok b \<Longrightarrow> length (payload b) = unat (nb_len b)"
  by (auto simp: payload_def buf_ok_def)

lemma data_bytes_payload:
  assumes "buf_ok b" "i + n \<le> unat (nb_len b)"
  shows "data_bytes b i n = Done (take n (drop i (payload b)))"
proof -
  have "unat (nb_offset b) + i + n \<le> length (nb_block b)"
    using assms by (auto simp: buf_ok_def)
  moreover have "take n (drop i (payload b)) = take n (drop (unat (nb_offset b) + i) (nb_block b))"
    using assms(2) by (simp add: payload_def drop_take min_def add.commute)
  ultimately show ?thesis
    using assms(1) by (simp add: data_bytes_def buf_ok_def)
qed

text \<open>Writing inside the payload.\<close>

lemma put_bytes_payload:
  assumes "buf_ok b" "i + length xs \<le> unat (nb_len b)"
  shows "\<exists>blk. put_bytes b i xs = Done (b\<lparr>nb_block := blk\<rparr>) \<and> buf_ok (b\<lparr>nb_block := blk\<rparr>) \<and>
     payload (b\<lparr>nb_block := blk\<rparr>) = take i (payload b) @ xs @ drop (i + length xs) (payload b)"
proof -
  let ?o = "unat (nb_offset b)" and ?B = "nb_block b" and ?n = "length xs"
  let ?blk = "take (?o + i) ?B @ xs @ drop (?o + i + ?n) ?B"
  have len: "?o + unat (nb_len b) \<le> length ?B"
    using assms by (auto simp: buf_ok_def)
  have pos: "nat (uint (nb_offset b) + int i) = ?o + i"
    by (simp add: nat_add_distrib)
  have "copy_at ?B (uint (nb_offset b) + int i) xs ?n = Done ?blk"
    using len assms(2) pos by (simp add: copy_at_def)
  then have "put_bytes b i xs = Done (b\<lparr>nb_block := ?blk\<rparr>)"
    using assms(1) by (simp add: put_bytes_def buf_ok_def)
  moreover have "length ?blk = length ?B"
    using len assms(2) by simp
  then have "buf_ok (b\<lparr>nb_block := ?blk\<rparr>)"
    using assms(1) by (simp add: buf_ok_def)
  moreover have "payload (b\<lparr>nb_block := ?blk\<rparr>) = take i (payload b) @ xs @ drop (i + ?n) (payload b)"
    using len assms(2) overwrite_window [of i xs "unat (nb_len b)" ?o ?B] by (simp add: payload_def)
  ultimately show ?thesis
    by blast
qed

lemma buf_view_payload: "fst (snd (buf_view b)) = payload b"
  by (simp add: buf_view_def payload_def)

lemma push_spec:
  assumes "buf_ok b" "n \<le> nb_offset b"
  obtains p b' where "net_buffer_push (Some b) n = (Some p, Some b')" "buf_ok b'"
    "nb_len b' = nb_len b + n" "nb_offset b' = nb_offset b - n"
    "length (payload b') = unat n + unat (nb_len b)" "drop (unat n) (payload b') = payload b"
proof -
  define b' where "b' = b\<lparr>nb_data := Some (uint (nb_offset b) - uint n), nb_offset := nb_offset b - n,
    nb_len := nb_len b + n\<rparr>"
  then have b': "net_buffer_push (Some b) n = (Some (uint (nb_offset b) - uint n), Some b')"
      "nb_len b' = nb_len b + n" "nb_offset b' = nb_offset b - n"
    using assms by (auto simp: buf_ok_def not_less [symmetric])
  have n: "unat n \<le> unat (nb_offset b)" "unat (nb_offset b) \<le> length (nb_block b)"
    using assms by (auto simp: word_le_nat_alt buf_ok_def)
  then have view: "buf_ok b'" "payload b' = drop (unat (nb_offset b) - unat n) (take (unat (nb_offset b)) (nb_block b)) @ payload b"
    using buf_step_push [OF assms(1), of n] b' 
    by (auto simp: step_refines_def buf_view_def payload_def Let_def)
  with n assms(1) have "drop (unat n) (payload b') = payload b" "length (payload b') = unat n + unat (nb_len b)"
    by (simp_all add: length_payload)
  with b' view that show thesis
    by blast
qed

lemma pull_spec:
  assumes "buf_ok b" "n \<le> nb_len b"
  obtains p b' where "net_buffer_pull (Some b) n = (Some p, Some b')" "buf_ok b'"
    "payload b' = drop (unat n) (payload b)" "nb_flags b' = nb_flags b" "nb_protocol b' = nb_protocol b"
proof -
  define b' where "b' = b\<lparr>nb_data := Some (uint (nb_offset b) + uint n), nb_offset := nb_offset b + n,
    nb_len := nb_len b - n\<rparr>"
  then have b': "net_buffer_pull (Some b) n = (Some (uint (nb_offset b) + uint n), Some b')"
      "nb_flags b' = nb_flags b" "nb_protocol b' = nb_protocol b"
    using assms by (auto simp: buf_ok_def not_less [symmetric])
  have "unat n \<le> length (payload b)"
    using assms by (simp add: length_payload word_le_nat_alt)
  then have "buf_ok b'" "payload b' = drop (unat n) (payload b)"
    using buf_step_pull [OF assms(1), of n] b'
    by (auto simp: step_refines_def buf_view_def payload_def [symmetric])
  with b' that show thesis
    by blast
qed

text \<open>
  C23: received IPv4 frames never reach the IP layer. The handler table is indexed by the high
  byte of the Ethernet type, which is the same for IPv4 and ARP, and the ARP entry is the later
  of the two. A well-formed frame of type IPv4 is stripped of its header, marked as ARP and
  dropped with a success code, whatever the IP layer does.
\<close>

theorem ipv4_frames_handled_as_arp:
  assumes "buf_ok b" "14 \<le> nb_len b" "ethertype_of (payload b) = ETH_TYPE_IP"
  shows "\<exists>b'. ethernet_rx ip_rx (Some b) s = Done (0, Some b', s) \<and>
           nb_protocol b' = NET_PROTO_ARP \<and> payload b' = drop 14 (payload b)"
proof -
  let ?b = "b\<lparr>nb_protocol := NET_PROTO_ETH\<rparr>"
  have b: "buf_ok ?b" "payload ?b = payload b" "14 \<le> nb_len ?b"
    using assms by (simp_all add: buf_ok_def payload_def)
  obtain p b' where b': "net_buffer_pull (Some ?b) 14 = (Some p, Some b')"
      and b'_payload: "payload b' = drop (unat (14 :: u32)) (payload ?b)"
    by (rule pull_spec [OF b(1,3)])
  have len: "14 \<le> unat (nb_len b)"
    using assms(2) by (simp add: word_le_nat_alt)
  then have eth: "data_bytes b 0 14 = Done (take 14 (payload b))"
    using data_bytes_payload [of b 0 14] assms(1) by simp
  have "ethertype_of (take 14 (payload b)) = ETH_TYPE_IP"
    using assms(3) by (simp add: ethertype_of_def)
  moreover have "length protocol_handlers = 9" "protocol_handlers ! 8 = Some Ethernet_handle_arp"
    by code_simp+
  moreover have "unat (drop_bit 8 ETH_TYPE_IP) = 8"
    by (simp add: ETH_TYPE_IP_def)
  ultimately have "ethernet_rx ip_rx (Some b) s =
      Done (0, Some (b'\<lparr>nb_flags := cast_flags (take 14 (payload b)) (nb_flags b'), nb_protocol := NET_PROTO_ARP\<rparr>), s)"
    using eth b' not_less [THEN iffD2, OF assms(2)]
    by (simp add: ethernet_rx_def ETH_HEADER_SIZE_def run_handler_def ethernet_handle_arp_def del: net_buffer_pull.simps)
  then show ?thesis
    using b'_payload b(2) by (simp add: payload_def)
qed

definition sample_frame :: net_buffer where
  "sample_frame = \<lparr>nb_block = replicate 12 0xFF @ [8, 0, 0x45, 0x00], nb_data = Some 0, nb_len = 16, nb_size = 16,
     nb_offset = 0, nb_flags = NET_BUF_FLAG_ALLOC, nb_protocol = 0, nb_device = None\<rparr>"

theorem ipv4_frames_handled_as_arp_witness:
  "\<exists>b'. ethernet_rx (\<lambda>_ _. Fault) (Some sample_frame) () = Done (0, Some b', ()) \<and>
     nb_protocol b' = NET_PROTO_ARP \<and> payload b' = [0x45, 0x00]"
proof -
  have "buf_ok sample_frame"
    by (simp add: buf_ok_def sample_frame_def NET_BUF_FLAG_ALLOC_def)
  moreover have "14 \<le> nb_len sample_frame" "ethertype_of (payload sample_frame) = ETH_TYPE_IP" "drop 14 (payload sample_frame) = [0x45, 0x00]"
    by code_simp+
  ultimately show ?thesis
    using ipv4_frames_handled_as_arp [of sample_frame "\<lambda>_ _. Fault" "()"] by simp
qed

lemma mac_of_bytes: "mac_of (mac_bytes m @ xs) = m"
  by (cases m) simp

lemma length_mac_bytes [simp]: "length (mac_bytes m) = 6"
  by (cases m) simp

lemma ethertype_of_header: "ethertype_of (eth_header_bytes dst src t @ xs) = t"
proof (cases dst; cases src)
  fix a b c d e f a' b' c' d' e' f'
  assume "dst = MAC a b c d e f" "src = MAC a' b' c' d' e' f'"
  then show ?thesis
    by (simp add: ethertype_of_def eth_header_bytes_def le16_bytes_def le16_le16_bytes)
qed

text \<open>The device after a transmission with the given result.\<close>

definition device_after :: "int \<Rightarrow> u32 \<Rightarrow> net_device \<Rightarrow> net_device" where
  "device_after result len d =
     (if result = 0 then count_sent len d else count_tx_error (count_sent len d))"

lemma ethernet_tx_sends:
  assumes "buf_ok b" "14 \<le> nb_offset b"
    and p: "ns_store ns p = Some d" "nd_flags d AND NET_DEV_FLAG_UP \<noteq> 0" "nd_transmit d"
  obtains b' where "payload b' = eth_header_bytes dst (nd_mac d) t @ payload b"
    "ethernet_tx transmit (Some p) b (Some dst) t ns =
       Done (transmit p b', b', ns\<lparr>ns_store := (ns_store ns)(p \<mapsto> device_after (transmit p b') (nb_len b') d)\<rparr>)"
proof -
  let ?h = "eth_header_bytes dst (nd_mac d) t"
  have h: "length ?h = 14"
    by (simp add: eth_header_bytes_def)
  obtain q b1 where b1: "net_buffer_push (Some b) 14 = (Some q, Some b1)" and "buf_ok b1"
      and "length (payload b1) = unat (14 :: u32) + unat (nb_len b)"
      and pl: "drop (unat (14 :: u32)) (payload b1) = payload b"
    by (rule push_spec [OF assms(1,2)])
  then obtain blk where b2: "put_bytes b1 0 ?h = Done (b1\<lparr>nb_block := blk\<rparr>)"
      "payload (b1\<lparr>nb_block := blk\<rparr>) = ?h @ drop 14 (payload b1)"
    using put_bytes_payload [of b1 0 ?h] h by (auto simp: length_payload)
  let ?b' = "b1\<lparr>nb_block := blk, nb_device := Some p\<rparr>"
  have "payload ?b' = ?h @ payload b"
    using b2(2) pl by (simp add: payload_def)
  moreover have "ethernet_tx transmit (Some p) b (Some dst) t ns =
      Done (transmit p ?b', ?b', ns\<lparr>ns_store := (ns_store ns)(p \<mapsto> device_after (transmit p ?b') (nb_len ?b') d)\<rparr>)"
    using assms b1 b2(1) not_less [THEN iffD2, OF assms(2)]
    by (simp add: ethernet_tx_def ETH_HEADER_SIZE_def upd_device_def transmit_frame_def Let_def device_after_def
        del: net_buffer_push.simps)
  ultimately show thesis
    by (rule that)
qed

text \<open>
  C24: sending a frame. On a device that is up and can transmit, with room for the header,
  \<^verbatim>\<open>ethernet_tx\<close> hands the driver exactly the header (destination, the device's own address, the type
  in network byte order) followed by the unchanged payload, returns the driver's result and
  counts the packet and a failure. The receiving side reads the same destination and type from
  it, and the payload behind the header.
\<close>

theorem ethernet_tx_frame:
  assumes "buf_ok b" "14 \<le> nb_offset b"
    and p: "ns_store ns p = Some d" "nd_flags d AND NET_DEV_FLAG_UP \<noteq> 0" "nd_transmit d"
  shows "\<exists>b' ns' d'. ethernet_tx transmit (Some p) b (Some dst) t ns = Done (transmit p b', b', ns') \<and>
           payload b' = eth_header_bytes dst (nd_mac d) t @ payload b \<and>
           mac_of (payload b') = dst \<and> ethertype_of (payload b') = t \<and> drop 14 (payload b') = payload b \<and>
           ns_store ns' p = Some d' \<and> tx_packets (nd_stats d') = tx_packets (nd_stats d) + 1 \<and>
           tx_errors (nd_stats d') = tx_errors (nd_stats d) + (if transmit p b' = 0 then 0 else 1)"
proof -
  obtain b' where b': "payload b' = eth_header_bytes dst (nd_mac d) t @ payload b"
    "ethernet_tx transmit (Some p) b (Some dst) t ns =
       Done (transmit p b', b', ns\<lparr>ns_store := (ns_store ns)(p \<mapsto> device_after (transmit p b') (nb_len b') d)\<rparr>)"
    by (rule ethernet_tx_sends [OF assms])
  have "mac_of (payload b') = dst" "drop 14 (payload b') = payload b"
    using b'(1) by (simp_all add: eth_header_bytes_def mac_of_bytes)
  with b' show ?thesis
    by (auto simp: ethertype_of_header device_after_def count_sent_def count_tx_error_def)
qed

definition sample_out :: net_buffer where
  "sample_out = sample_frame\<lparr>nb_data := Some 14, nb_offset := 14, nb_len := 2\<rparr>"

definition sample_net :: net_state where
  "sample_net = two_devices\<lparr>ns_store := [2 \<mapsto> loopback_device\<lparr>nd_mac := MAC 2 0 0 0 0 1, nd_transmit := True\<rparr>]\<rparr>"

theorem ethernet_tx_frame_witness:
  "\<exists>b' ns'. ethernet_tx (\<lambda>_ _. 0) (Some 2) sample_out (Some broadcast_mac) ETH_TYPE_IP sample_net = Done (0, b', ns') \<and>
     payload b' = [0xFF, 0xFF, 0xFF, 0xFF, 0xFF, 0xFF, 2, 0, 0, 0, 0, 1, 8, 0, 0x45, 0x00]"
proof -
  let ?d = "loopback_device\<lparr>nd_mac := MAC 2 0 0 0 0 1, nd_transmit := True\<rparr>"
  have "buf_ok sample_out"
    by (simp add: buf_ok_def sample_out_def sample_frame_def NET_BUF_FLAG_ALLOC_def)
  moreover have "14 \<le> nb_offset sample_out" "nd_flags ?d AND NET_DEV_FLAG_UP \<noteq> 0"
    "eth_header_bytes broadcast_mac (nd_mac ?d) ETH_TYPE_IP @ payload sample_out =
      [0xFF, 0xFF, 0xFF, 0xFF, 0xFF, 0xFF, 2, 0, 0, 0, 0, 1, 8, 0, 0x45, 0x00]"
    by code_simp+
  moreover have "ns_store sample_net 2 = Some ?d"
    by (simp add: sample_net_def)
  ultimately show ?thesis
    using ethernet_tx_frame [of sample_out sample_net 2 ?d "\<lambda>_ _. 0" broadcast_mac ETH_TYPE_IP] by auto
qed

section \<open>MAC addresses as text\<close>

lemma ends_number_colon: "ends_number 16 (CHR '':'' # cs)"
  by (simp add: ends_number_def digit_val_def)

lemma mac_round_trip: "ethernet_str_to_mac (Some (ethernet_mac_to_str m)) (Some m0) = Done (0, Some m)"
proof (cases m)
  case (MAC a b c d e f)
  have fits: "fits_unsigned (uint x)" for x :: u8
    using byte_range [of x] by (simp add: fits_unsigned_def)
  have "scan_list fits_unsigned 16 CHR '':'' 6 (ethernet_mac_to_str m) =
      Done (Some [uint a, uint b, uint c, uint d, uint e, uint f])"
    unfolding MAC ethernet_mac_to_str_def
    using scan_num_hex2 [OF ends_number_colon] scan_num_hex2 [OF ends_number_nil, of f] fits
    by (simp add: numeral_eq_Suc scan_char_def)
  moreover have "uint (word_of_int (uint x) :: u32) = uint x" for x :: u8
    using byte_range [of x] by (simp add: unsigned_ucast_eq take_bit_int_eq_self)
  ultimately show ?thesis
    using byte_range [of a] byte_range [of b] byte_range [of c] byte_range [of d] byte_range [of e] byte_range [of f]
    by (cases m0) (simp add: ethernet_str_to_mac_def MAC not_less)
qed

end
