(* ===== verification/Checksum.thy ===== *)
theory Checksum
  imports Byte_Order
begin

text \<open>
  The Internet checksum as \<^verbatim>\<open>ip_checksum\<close> and \<^verbatim>\<open>tcp_checksum\<close> compute it: a 32-bit sum of the 16-bit
  words in memory, folded to 16 bits by adding the carries back, and complemented. The reference
  is the sum of the words modulo 65535.
\<close>

section \<open>The loops\<close>

text \<open>Adding up words; a last odd byte is added as it is.\<close>

fun add_words :: "u8 list \<Rightarrow> u32 \<Rightarrow> u32" where
  "add_words (a # b # rest) acc = add_words rest (acc + ucast (le16 a b))"
| "add_words [a] acc = acc + ucast a"
| "add_words [] acc = acc"

lemma unat_drop_bit16: "unat (drop_bit 16 (x :: u32)) = unat x div 65536"
  by (simp add: drop_bit_eq_div unat_div)

lemma unat_and_ffff: "unat (x AND 0xFFFF :: u32) = unat x mod 65536"
proof -
  have "x AND 0xFFFF = x AND mask 16"
    by (simp add: mask_eq_exp_minus_1)
  then have "x AND 0xFFFF = x mod 65536"
    by (simp only: take_bit_eq_mask [symmetric]) (simp add: take_bit_eq_mod)
  then show ?thesis
    by (simp add: unat_mod)
qed

lemma unat_carry: "unat ((x AND 0xFFFF) + drop_bit 16 x :: u32) = unat x mod 65536 + unat x div 65536"
proof -
  have "unat x < 65536 * 65536"
    using unsigned_less [of x, where 'a = nat] by simp
  then have "unat x div 65536 < 65536"
    by (rule less_mult_imp_div_less)
  moreover have "unat x mod 65536 < 65536"
    by simp
  ultimately have "unat (x AND 0xFFFF) + unat (drop_bit 16 x) < 2 ^ 32"
    by (simp add: unat_and_ffff unat_drop_bit16)
  then show ?thesis
    using unat_add_lem [of "x AND 0xFFFF" "drop_bit 16 x"] by (simp add: unat_and_ffff unat_drop_bit16)
qed

lemma carry_less: "65536 \<le> n \<Longrightarrow> n mod 65536 + n div 65536 < (n :: nat)"
  using div_mult_mod_eq [of n 65536] by linarith

function fold_carry :: "u32 \<Rightarrow> u32" where
  "fold_carry acc = (if drop_bit 16 acc \<noteq> 0 then fold_carry ((acc AND 0xFFFF) + drop_bit 16 acc) else acc)"
  by pat_completeness auto

lemma drop_bit16_eq_0: "drop_bit 16 (x :: u32) = 0 \<longleftrightarrow> unat x < 65536"
proof -
  have "drop_bit 16 x = 0 \<longleftrightarrow> unat (drop_bit 16 x) = 0"
    by (simp only: unat_eq_0)
  then show ?thesis
    by (simp only: unat_drop_bit16) auto
qed

termination fold_carry
  by (relation "measure unat") (simp_all only: unat_carry in_measure wf_measure drop_bit16_eq_0 carry_less not_less simp_thms)

declare fold_carry.simps [simp del]

definition ip_checksum :: "u8 list \<Rightarrow> u16" where
  "ip_checksum bytes = ucast (NOT (fold_carry (add_words bytes 0)))"

section \<open>The reference\<close>

fun words_sum :: "u8 list \<Rightarrow> nat" where
  "words_sum (a # b # rest) = unat a + 256 * unat b + words_sum rest"
| "words_sum [a] = unat a"
| "words_sum [] = 0"

text \<open>The sum with end-around carry: the representative of the sum modulo 65535 in 1 to 65535, and 0 for 0.\<close>

definition ones_sum :: "nat \<Rightarrow> nat" where
  "ones_sum n = (if n = 0 then 0 else (n - 1) mod 65535 + 1)"

lemma unat_le16: "unat (le16 a b) = unat a + 256 * unat b"
proof -
  have "nat (uint (le16 a b)) = nat (uint a + 256 * uint b)"
    by (simp only: uint_le16)
  then show ?thesis
    by (simp add: nat_add_distrib nat_mult_distrib)
qed

lemma unat_ucast_u16: "unat (ucast (w :: u16) :: u32) = unat w"
  using unsigned_less [of w, where 'a = nat]
  by (simp add: unsigned_ucast_eq take_bit_nat_eq_self_iff)

lemma unat_ucast_u8: "unat (ucast (w :: u8) :: u32) = unat w"
  using unsigned_less [of w, where 'a = nat]
  by (simp add: unsigned_ucast_eq take_bit_nat_eq_self_iff)

lemma unat_add_words:
  "unat acc + words_sum bytes < 2 ^ 32 \<Longrightarrow> unat (add_words bytes acc) = unat acc + words_sum bytes"
proof (induction bytes acc rule: add_words.induct)
  case (1 a b rest acc)
  then have "unat (acc + ucast (le16 a b)) = unat acc + (unat a + 256 * unat b)"
    using unat_plus [of acc "ucast (le16 a b)"] by (simp add: unat_ucast_u16 unat_le16)
  with 1 show ?case
    by simp
next
  case (2 a acc)
  then show ?case
    using unat_plus [of acc "ucast a"] by (simp add: unat_ucast_u8)
qed simp

lemma ones_sum_small: "n < 65536 \<Longrightarrow> ones_sum n = n"
  by (auto simp: ones_sum_def)

lemma ones_sum_carry: "65536 \<le> n \<Longrightarrow> ones_sum (n mod 65536 + n div 65536) = ones_sum n"
proof -
  assume n: "65536 \<le> n"
  let ?q = "n div 65536" and ?r = "n mod 65536"
  have q: "0 < ?q"
    using n by simp
  have "n - 1 = (?r + ?q - 1) + 65535 * ?q"
    using q div_mult_mod_eq [of n 65536] by linarith
  then have "(n - 1) mod 65535 = (?r + ?q - 1) mod 65535"
    by simp
  with q n show ?thesis
    by (simp add: ones_sum_def)
qed

lemma unat_fold_carry: "unat (fold_carry x) = ones_sum (unat x)"
proof (induction x rule: fold_carry.induct)
  case (1 x)
  show ?case
  proof (cases "drop_bit 16 x = 0")
    case True
    then show ?thesis
      by (simp add: fold_carry.simps [of x] drop_bit16_eq_0 ones_sum_small)
  next
    case False
    with 1 have "unat (fold_carry x) = ones_sum (unat x mod 65536 + unat x div 65536)"
      by (simp add: fold_carry.simps [of x] unat_carry)
    with False show ?thesis
      by (simp add: drop_bit16_eq_0 ones_sum_carry)
  qed
qed

lemma ones_sum_le: "ones_sum n \<le> 65535"
  using mod_less_divisor [of 65535 "n - 1"] by (simp add: ones_sum_def del: mod_less_divisor)

lemma words_sum_le: "words_sum bytes \<le> 65535 * ((length bytes + 1) div 2)"
proof (induction bytes rule: words_sum.induct)
  case (1 a b rest)
  have "unat a \<le> 255" "unat b \<le> 255"
    using unsigned_less [of a, where 'a = nat] unsigned_less [of b, where 'a = nat] by simp_all
  with 1 show ?case
    by simp
next
  case (2 a)
  then show ?case
    using unsigned_less [of a, where 'a = nat] by simp
qed simp

lemma unat_not_ucast:
  assumes "unat (x :: u32) \<le> 65535"
  shows "unat (ucast (NOT x) :: u16) = 65535 - unat x"
proof -
  have "ucast (NOT x) = NOT (ucast x :: u16)"
    by (rule bit_word_eqI) (simp add: bit_simps)
  also have "\<dots> = (- 1) - ucast x"
    by (simp add: not_eq_complement)
  finally have "unat (ucast (NOT x) :: u16) = unat (- 1 :: u16) - unat (ucast x :: u16)"
    by (simp add: unat_sub)
  moreover have "unat (ucast x :: u16) = unat x"
    using assms by (simp add: unsigned_ucast_eq take_bit_nat_eq_self_iff)
  moreover have "unat (- 1 :: u16) = 65535"
    by (simp add: unsigned_minus_1_eq_mask mask_eq_exp_minus_1)
  ultimately show ?thesis
    by simp
qed

lemma words_sum_bound: "length bytes \<le> 131072 \<Longrightarrow> words_sum bytes < 2 ^ 32"
proof -
  assume "length bytes \<le> 131072"
  then have "(length bytes + 1) div 2 \<le> 65536"
    by simp
  then show ?thesis
    using words_sum_le [of bytes] by simp
qed

lemma ip_checksum_ones:
  assumes "length bytes \<le> 131072"
  shows "unat (ip_checksum bytes) = 65535 - ones_sum (words_sum bytes)"
proof -
  have "unat (fold_carry (add_words bytes 0)) = ones_sum (words_sum bytes)"
    using words_sum_bound [OF assms] by (simp add: unat_fold_carry unat_add_words)
  then show ?thesis
    using unat_not_ucast [of "fold_carry (add_words bytes 0)"] ones_sum_le by (simp add: ip_checksum_def)
qed

lemma words_sum_append: "even (length xs) \<Longrightarrow> words_sum (xs @ ys) = words_sum xs + words_sum ys"
  by (induction xs rule: words_sum.induct) auto

lemma ones_sum_diff: "ones_sum n \<le> n \<and> (n - ones_sum n) mod 65535 = 0"
proof (cases n)
  case (Suc m)
  have "n - ones_sum n = m - m mod 65535"
    by (simp add: ones_sum_def Suc)
  moreover have "m - m mod 65535 = 65535 * (m div 65535)"
    by (simp add: minus_mod_eq_mult_div)
  ultimately show ?thesis
    by (simp add: ones_sum_def Suc mod_less_eq_dividend)
qed (simp add: ones_sum_def)

lemma ones_sum_mod: "ones_sum n = ones_sum m \<Longrightarrow> n mod 65535 = m mod 65535"
proof -
  have "ones_sum k mod 65535 = k mod 65535" for k
    by (cases k) (simp_all add: ones_sum_def mod_Suc_eq)
  then show "ones_sum n = ones_sum m \<Longrightarrow> n mod 65535 = m mod 65535"
    by metis
qed

text \<open>
  C25: the checksum loops compute the Internet checksum. For up to 128 KB, which no packet
  exceeds, the 32-bit accumulator does not overflow, the folding loop ends, and the result is the
  complement of the one's complement sum of the 16-bit words. Storing it in a zeroed checksum
  word makes the sum of all words 0 modulo 65535, which is what other hosts verify.
\<close>

theorem ip_checksum_correct:
  assumes "length (xs @ [0, 0] @ ys) \<le> 131072" "even (length xs)"
  shows "unat (ip_checksum (xs @ [0, 0] @ ys)) = 65535 - ones_sum (words_sum (xs @ [0, 0] @ ys)) \<and>
         words_sum (xs @ le16_bytes (ip_checksum (xs @ [0, 0] @ ys)) @ ys) mod 65535 = 0"
proof -
  let ?c = "ip_checksum (xs @ [0, 0] @ ys)" and ?n = "words_sum xs + words_sum ys"
  have c: "unat ?c = 65535 - ones_sum ?n"
    using ip_checksum_ones [OF assms(1)] assms(2) by (simp add: words_sum_append)
  have "words_sum (le16_bytes ?c @ ys) = unat ?c + words_sum ys"
    using unat_le16 [of "ucast ?c" "ucast (drop_bit 8 ?c)"] by (simp add: le16_bytes_def le16_le16_bytes)
  then have "words_sum (xs @ le16_bytes ?c @ ys) + ones_sum ?n = 65535 + ?n"
    using c assms(2) ones_sum_le [of ?n] by (simp add: words_sum_append)
  moreover have "ones_sum ?n \<le> ?n" "(?n - ones_sum ?n) mod 65535 = 0"
    using ones_sum_diff by blast+
  ultimately have "words_sum (xs @ le16_bytes ?c @ ys) = 65535 + (?n - ones_sum ?n)"
    by linarith
  then have "words_sum (xs @ le16_bytes ?c @ ys) mod 65535 = 0"
    using \<open>(?n - ones_sum ?n) mod 65535 = 0\<close> by simp
  then show ?thesis
    using c assms(2) by (simp add: words_sum_append)
qed

theorem ip_checksum_correct_witness:
  "unat (ip_checksum ([0x45, 0, 0, 28] @ [0, 0] @ [1, 2, 3])) = 65535 - ones_sum (words_sum ([0x45, 0, 0, 28] @ [0, 0] @ [1, 2, 3])) \<and>
   words_sum ([0x45, 0, 0, 28] @ le16_bytes (ip_checksum ([0x45, 0, 0, 28] @ [0, 0] @ [1, 2, 3])) @ [1, 2, 3]) mod 65535 = 0"
  using ip_checksum_correct [of "[0x45, 0, 0, 28]" "[1, 2, 3]"] by simp

text \<open>
  C26: error detection. Changing a single aligned 16-bit word of the data changes the checksum,
  unless the word changes between the two representations of zero, 0x0000 and 0xFFFF.
\<close>

theorem ip_checksum_detects_word:
  assumes "length (xs @ [a, b] @ ys) \<le> 131072" "even (length xs)"
    and "le16 a b \<noteq> le16 a' b'" "{le16 a b, le16 a' b'} \<noteq> {0, 0xFFFF}"
  shows "ip_checksum (xs @ [a, b] @ ys) \<noteq> ip_checksum (xs @ [a', b'] @ ys)"
proof
  let ?w = "unat (le16 a b)" and ?w' = "unat (le16 a' b')" and ?n = "words_sum xs + words_sum ys"
  assume "ip_checksum (xs @ [a, b] @ ys) = ip_checksum (xs @ [a', b'] @ ys)"
  then have "65535 - ones_sum (?n + ?w) = 65535 - ones_sum (?n + ?w')"
    using ip_checksum_ones [OF assms(1)] ip_checksum_ones [of "xs @ [a', b'] @ ys"] assms(1,2)
    by (simp add: words_sum_append unat_le16 ac_simps)
  then have "(?n + ?w) mod 65535 = (?n + ?w') mod 65535"
    using ones_sum_le [of "?n + ?w"] ones_sum_le [of "?n + ?w'"] by (intro ones_sum_mod) linarith
  then have eq: "?w mod 65535 = ?w' mod 65535"
    by (simp add: nat_mod_eq_iff)
  have bound: "?w \<le> 65535" "?w' \<le> 65535"
    using unsigned_less [of "le16 a b", where 'a = nat] unsigned_less [of "le16 a' b'", where 'a = nat] by simp_all
  have "?w \<noteq> ?w'"
    using assms(3) by (simp add: word_unat_eq_iff)
  with eq bound have "?w = 0 \<and> ?w' = 65535 \<or> ?w = 65535 \<and> ?w' = 0"
    by (metis le_neq_implies_less mod_less mod_self)
  then have "{le16 a b, le16 a' b'} = {0, 0xFFFF}"
    by (auto simp: word_unat_eq_iff)
  with assms(4) show False ..
qed

theorem ip_checksum_detects_word_witness:
  "ip_checksum ([1, 2] @ [3, 4] @ [5]) \<noteq> ip_checksum ([1, 2] @ [3, 5] @ [5])"
  using ip_checksum_detects_word [of "[1, 2]" 3 4 "[5]" 3 5] by (simp add: le16_def doubleton_eq_iff)

end
