(* ===== verification/Ip.thy ===== *)
theory Ip
  imports Ethernet Checksum
begin

text \<open>
  The Internet Protocol layer, \<^verbatim>\<open>network/src/ip.c\<close>: the table of protocol handlers, the local
  configuration and the address tests, reception and transmission of packets, and the interface
  settings.

  Headers are the bytes in memory; a field is read and written at its offset. \<^verbatim>\<open>ip.c\<close> calls
  \<^verbatim>\<open>netbuf_push\<close>, \<^verbatim>\<open>netbuf_pull\<close>, \<^verbatim>\<open>netbuf_trim\<close> and \<^verbatim>\<open>netbuf_reserve\<close>, which no file defines: they are
  the argument \<open>ops\<close>. The registered handlers have any type \<open>'h\<close>, and \<open>call\<close> runs one.
\<close>

section \<open>State and configuration\<close>

definition IP_HEADER_MIN_SIZE :: u32 where "IP_HEADER_MIN_SIZE = 20"
definition IP_FLAG_DONT_FRAGMENT :: u16 where "IP_FLAG_DONT_FRAGMENT = 0x2"
definition IP_FLAG_MORE_FRAGMENTS :: u8 where "IP_FLAG_MORE_FRAGMENTS = 0x4"
definition IP_FRAGMENT_OFFSET_MASK :: u16 where "IP_FRAGMENT_OFFSET_MASK = 0x1FFF"
definition IP_MAX_HANDLERS :: nat where "IP_MAX_HANDLERS = 8"

record 'h ip =
  ip_next_id :: u16
  ip_handlers :: "(u8 \<times> 'h) list"
  ip_local :: ipv4_address
  ip_mask :: ipv4_address
  ip_gateway :: ipv4_address

fun ipv4_of :: "u8 list \<Rightarrow> ipv4_address" where
  "ipv4_of (a # b # c # d # _) = IPv4 a b c d"
| "ipv4_of _ = IPv4 0 0 0 0"

text \<open>Parsing: the bytes are stored one by one as long as they are in range.\<close>

definition ip_str_to_addr :: "string option \<Rightarrow> ipv4_address option \<Rightarrow> (int \<times> ipv4_address option) run" where
  "ip_str_to_addr str addr =
     (case (str, addr) of
        (Some cs, Some a) \<Rightarrow>
          rbind (scan_list fits_unsigned 10 CHR ''.'' 4 cs) (\<lambda>values.
          Done (case values of
                  None \<Rightarrow> (- 1, Some a)
                | Some vs \<Rightarrow> map_prod id (\<lambda>out. Some (ipv4_of out)) (store_bytes vs (ipv4_bytes a) 0)))
      | _ \<Rightarrow> Done (- 1, addr))"

definition ip_addr_to_str :: "ipv4_address option \<Rightarrow> string option" where
  "ip_addr_to_str addr = map_option ipv4_to_str addr"

text \<open>The parsed address, or the old one when parsing fails.\<close>

definition parsed :: "string \<Rightarrow> ipv4_address \<Rightarrow> ipv4_address run" where
  "parsed cs old = rmap (\<lambda>(_, a). case a of Some a \<Rightarrow> a | None \<Rightarrow> old) (ip_str_to_addr (Some cs) (Some old))"

definition ip_init :: "'h ip \<Rightarrow> (int \<times> 'h ip) run" where
  "ip_init st =
     rbind (parsed ''0.0.0.0'' (ip_local st)) (\<lambda>l.
     rbind (parsed ''0.0.0.0'' (ip_mask st)) (\<lambda>m.
     rbind (parsed ''0.0.0.0'' (ip_gateway st)) (\<lambda>g.
     Done (0, st\<lparr>ip_handlers := [], ip_local := l, ip_mask := m, ip_gateway := g, ip_next_id := 1\<rparr>))))"

definition ip_register_protocol :: "u8 \<Rightarrow> 'h option \<Rightarrow> 'h ip \<Rightarrow> int \<times> 'h ip" where
  "ip_register_protocol protocol handler st =
     (case handler of
        None \<Rightarrow> (- 1, st)
      | Some h \<Rightarrow>
          if length (ip_handlers st) \<ge> IP_MAX_HANDLERS then (- 1, st)
          else if protocol \<in> fst ` set (ip_handlers st) then (- 1, st)
          else (0, st\<lparr>ip_handlers := ip_handlers st @ [(protocol, h)]\<rparr>))"

definition ip_find_protocol_handler :: "u8 \<Rightarrow> 'h ip \<Rightarrow> 'h option" where
  "ip_find_protocol_handler protocol st =
     map_option snd (List.find (\<lambda>e. fst e = protocol) (ip_handlers st))"

section \<open>Addresses\<close>

definition ip_addr_cmp :: "ipv4_address option \<Rightarrow> ipv4_address option \<Rightarrow> int" where
  "ip_addr_cmp addr1 addr2 =
     (case (addr1, addr2) of
        (Some a, Some b) \<Rightarrow> memcmp (ipv4_bytes a) (ipv4_bytes b)
      | (None, None) \<Rightarrow> 0
      | _ \<Rightarrow> - 1)"

definition ip_addr_copy :: "ipv4_address option \<Rightarrow> ipv4_address option \<Rightarrow> ipv4_address option" where
  "ip_addr_copy dst src = (case (dst, src) of (Some _, Some a) \<Rightarrow> Some a | _ \<Rightarrow> dst)"

definition ip_is_broadcast :: "'h ip \<Rightarrow> ipv4_address option \<Rightarrow> bool" where
  "ip_is_broadcast st addr =
     (case addr of
        None \<Rightarrow> False
      | Some a \<Rightarrow>
          if list_all (\<lambda>b. b = 0xFF) (ipv4_bytes a) then True
          else ip_addr_cmp (Some a)
                 (Some (ipv4_of (map2 (\<lambda>l m. l OR NOT m) (ipv4_bytes (ip_local st)) (ipv4_bytes (ip_mask st))))) = 0)"

definition ip_is_multicast :: "ipv4_address option \<Rightarrow> bool" where
  "ip_is_multicast addr =
     (case addr of None \<Rightarrow> False | Some a \<Rightarrow> hd (ipv4_bytes a) \<ge> 224 \<and> hd (ipv4_bytes a) \<le> 239)"

definition ip_is_zero_address :: "ipv4_address option \<Rightarrow> bool" where
  "ip_is_zero_address addr =
     (case addr of None \<Rightarrow> False | Some a \<Rightarrow> list_all (\<lambda>b. b = 0) (ipv4_bytes a))"

definition ip_is_on_local_subnet :: "'h ip \<Rightarrow> ipv4_address option \<Rightarrow> bool" where
  "ip_is_on_local_subnet st addr =
     (case addr of
        None \<Rightarrow> False
      | Some a \<Rightarrow>
          if ip_is_zero_address (Some (ip_mask st)) then True
          else map2 (\<lambda>x m. x AND m) (ipv4_bytes a) (ipv4_bytes (ip_mask st)) =
               map2 (\<lambda>x m. x AND m) (ipv4_bytes (ip_local st)) (ipv4_bytes (ip_mask st)))"

definition ip_is_local_address :: "'h ip \<Rightarrow> ipv4_address option \<Rightarrow> bool" where
  "ip_is_local_address st addr =
     (case addr of
        None \<Rightarrow> False
      | Some a \<Rightarrow> ip_addr_cmp (Some a) (Some (ip_local st)) = 0 \<or> hd (ipv4_bytes a) = 127)"

definition ip_configure :: "ipv4_address option \<Rightarrow> ipv4_address option \<Rightarrow> ipv4_address option \<Rightarrow> 'h ip \<Rightarrow> 'h ip" where
  "ip_configure addr netmask gateway st =
     st\<lparr>ip_local := (case addr of Some a \<Rightarrow> a | None \<Rightarrow> ip_local st),
        ip_mask := (case netmask of Some a \<Rightarrow> a | None \<Rightarrow> ip_mask st),
        ip_gateway := (case gateway of Some a \<Rightarrow> a | None \<Rightarrow> ip_gateway st)\<rparr>"

text \<open>The new contents of the three variables that the caller passes.\<close>

definition ip_get_config ::
  "ipv4_address option \<Rightarrow> ipv4_address option \<Rightarrow> ipv4_address option \<Rightarrow> 'h ip \<Rightarrow>
     ipv4_address option \<times> ipv4_address option \<times> ipv4_address option" where
  "ip_get_config addr netmask gateway st =
     (ip_addr_copy addr (Some (ip_local st)), ip_addr_copy netmask (Some (ip_mask st)),
      ip_addr_copy gateway (Some (ip_gateway st)))"

section \<open>Reception\<close>

record netbuf_ops =
  netbuf_push :: "net_buffer \<Rightarrow> u32 \<Rightarrow> int option \<times> net_buffer"
  netbuf_pull :: "net_buffer \<Rightarrow> u32 \<Rightarrow> net_buffer"
  netbuf_trim :: "net_buffer \<Rightarrow> u32 \<Rightarrow> net_buffer"
  netbuf_reserve :: "net_buffer \<Rightarrow> u32 \<Rightarrow> net_buffer"

text \<open>Fields of a header in memory.\<close>

definition hdr_ihl :: "u8 list \<Rightarrow> u8" where "hdr_ihl h = h ! 0 AND 0x0F"
definition hdr_version :: "u8 list \<Rightarrow> u8" where "hdr_version h = drop_bit 4 (h ! 0) AND 0x0F"
definition hdr_total_length :: "u8 list \<Rightarrow> u16" where "hdr_total_length h = swap16 (le16 (h ! 2) (h ! 3))"
definition hdr_flags_offset :: "u8 list \<Rightarrow> u16" where "hdr_flags_offset h = swap16 (le16 (h ! 6) (h ! 7))"
definition hdr_protocol :: "u8 list \<Rightarrow> u8" where "hdr_protocol h = h ! 9"
definition hdr_checksum :: "u8 list \<Rightarrow> u16" where "hdr_checksum h = le16 (h ! 10) (h ! 11)"
definition hdr_src :: "u8 list \<Rightarrow> ipv4_address" where "hdr_src h = ipv4_of (drop 12 h)"
definition hdr_dest :: "u8 list \<Rightarrow> ipv4_address" where "hdr_dest h = ipv4_of (drop 16 h)"

text \<open>The checksum is computed with its own field set to zero.\<close>

definition checksum_ok :: "u8 list \<Rightarrow> bool" where
  "checksum_ok h \<longleftrightarrow> hdr_checksum h = ip_checksum (h[10 := 0, 11 := 0])"

definition is_fragment :: "u8 list \<Rightarrow> bool" where
  "is_fragment h \<longleftrightarrow>
     hdr_flags_offset h AND IP_FRAGMENT_OFFSET_MASK \<noteq> 0 \<or>
     (ucast (drop_bit 13 (hdr_flags_offset h)) AND 0x07) AND IP_FLAG_MORE_FRAGMENTS \<noteq> 0"

text \<open>Delivery of a packet whose header \<open>h\<close> has been checked.\<close>

definition ip_deliver ::
  "netbuf_ops \<Rightarrow> ('h \<Rightarrow> ipv4_address \<Rightarrow> ipv4_address \<Rightarrow> 's rx_handler) \<Rightarrow> 'h ip \<Rightarrow> u8 list \<Rightarrow> 's rx_handler" where
  "ip_deliver ops call st h b s =
     (if is_fragment h then Done (- 1, b, s)
      else if \<not> ip_is_local_address st (Some (hdr_dest h)) \<and> \<not> ip_is_broadcast st (Some (hdr_dest h))
      then Done (- 1, b, s)
      else (case ip_find_protocol_handler (hdr_protocol h) st of
          None \<Rightarrow> Done (- 1, b, s)
        | Some handler \<Rightarrow>
            call handler (hdr_src h) (hdr_dest h) (netbuf_pull ops b (ucast (hdr_ihl h) * 4)) s))"

definition ip_rx ::
  "netbuf_ops \<Rightarrow> ('h \<Rightarrow> ipv4_address \<Rightarrow> ipv4_address \<Rightarrow> 's rx_handler) \<Rightarrow> 'h ip \<Rightarrow>
     net_buffer option \<Rightarrow> 's \<Rightarrow> (int \<times> net_buffer option \<times> 's) run" where
  "ip_rx ops call st buffer s =
     (case buffer of
        None \<Rightarrow> Done (- 1, None, s)
      | Some b \<Rightarrow>
          if nb_len b < IP_HEADER_MIN_SIZE then Done (- 1, Some b, s)
          else rbind (data_bytes b 0 20) (\<lambda>h.
            if hdr_version h \<noteq> 4 then Done (- 1, Some b, s)
            else if hdr_ihl h < 5 then Done (- 1, Some b, s)
            else if nb_len b < ucast (hdr_ihl h) * 4 then Done (- 1, Some b, s)
            else rbind (data_bytes b 0 (unat (hdr_ihl h) * 4)) (\<lambda>h.
              if \<not> checksum_ok h then Done (- 1, Some b, s)
              else if ucast (hdr_total_length h) > nb_len b then Done (- 1, Some b, s)
              else let b = (if ucast (hdr_total_length h) < nb_len b
                            then netbuf_trim ops b (nb_len b - ucast (hdr_total_length h)) else b)
                   in rmap (\<lambda>(r, b, s). (r, Some b, s)) (ip_deliver ops call st h b s))))"

text \<open>\<^verbatim>\<open>ip_receive\<close>: the fields are converted to host byte order in place.\<close>

definition swap_fields :: "u8 list \<Rightarrow> u8 list" where
  "swap_fields h =
     h[2 := h ! 3, 3 := h ! 2, 4 := h ! 5, 5 := h ! 4, 6 := h ! 7, 7 := h ! 6, 10 := h ! 11, 11 := h ! 10]"

definition be32 :: "ipv4_address \<Rightarrow> u32" where
  "be32 a = (case a of IPv4 w x y z \<Rightarrow>
     push_bit 24 (ucast w) OR push_bit 16 (ucast x) OR push_bit 8 (ucast y) OR ucast z)"

definition for_device :: "net_device \<Rightarrow> ipv4_address \<Rightarrow> bool" where
  "for_device d dest \<longleftrightarrow>
     memcmp (ipv4_bytes (nd_ip d)) (ipv4_bytes dest) = 0 \<or> dest = IPv4 255 255 255 255 \<or>
     be32 dest = (be32 (nd_ip d) AND be32 (nd_netmask d)) OR NOT (be32 (nd_netmask d))"

definition receive_protocol :: "u8 \<Rightarrow> u8 \<Rightarrow> u8" where
  "receive_protocol protocol old =
     (if protocol = 1 then NET_PROTO_ICMP else if protocol = 6 then NET_PROTO_TCP
      else if protocol = 17 then NET_PROTO_UDP else old)"

definition ip_receive :: "net_buffer option \<Rightarrow> net_state \<Rightarrow> (int \<times> net_buffer option) run" where
  "ip_receive buffer ns =
     (case buffer of
        None \<Rightarrow> Done (NET_ERR_INVALID, None)
      | Some b \<Rightarrow>
          if nb_data b = None \<or> nb_len b < 20 then Done (NET_ERR_INVALID, Some b)
          else rbind (data_bytes b 0 20) (\<lambda>h.
            if hdr_ihl h < 5 then Done (NET_ERR_INVALID, Some b)
            else if hdr_version h \<noteq> 4 then Done (NET_ERR_INVALID, Some b)
            else rbind (data_bytes b 0 (unat (hdr_ihl h) * 4)) (\<lambda>h.
              if \<not> checksum_ok h then Done (NET_ERR_INVALID, Some b)
              else rbind (put_bytes b 0 (swap_fields h)) (\<lambda>b.
                case nb_device b of
                  None \<Rightarrow> Fault
                | Some p \<Rightarrow> (case ns_store ns p of
                      None \<Rightarrow> Fault
                    | Some d \<Rightarrow>
                        if \<not> for_device d (hdr_dest h) then Done (NET_ERR_OK, Some b)
                        else Done (NET_ERR_OK,
                          map_option (\<lambda>b. b\<lparr>nb_protocol := receive_protocol (hdr_protocol h) (nb_protocol b)\<rparr>)
                            (snd (net_buffer_pull (Some b) (ucast (hdr_ihl h) * 4)))))))))"

section \<open>Transmission\<close>

text \<open>The 20 bytes of a header; the arguments are the fields as they are stored.\<close>

definition ip_header_bytes :: "u16 \<Rightarrow> u16 \<Rightarrow> u16 \<Rightarrow> u8 \<Rightarrow> u16 \<Rightarrow> ipv4_address \<Rightarrow> ipv4_address \<Rightarrow> u8 list" where
  "ip_header_bytes total_length ident flags protocol checksum src dest =
     [0x45, 0] @ le16_bytes total_length @ le16_bytes ident @ le16_bytes flags @ [64, protocol] @
     le16_bytes checksum @ ipv4_bytes src @ ipv4_bytes dest"

definition next_hop_mac :: mac_address where
  "next_hop_mac = MAC 0x12 0x34 0x56 0x78 0x9A 0xBC"

definition ip_tx ::
  "netbuf_ops \<Rightarrow> (dptr \<Rightarrow> net_buffer \<Rightarrow> int) \<Rightarrow> 'h ip \<Rightarrow> dptr option \<Rightarrow> net_buffer \<Rightarrow>
     ipv4_address option \<Rightarrow> u8 \<Rightarrow> net_state \<Rightarrow> (int \<times> net_buffer \<times> net_state) run" where
  "ip_tx ops transmit st dev b dest protocol ns =
     (case (dev, dest) of
        (Some p, Some dst) \<Rightarrow>
          (case netbuf_push ops b IP_HEADER_MIN_SIZE of
             (None, b) \<Rightarrow> Done (- 1, b, ns)
           | (Some q, b) \<Rightarrow>
               let hdr = (\<lambda>c. ip_header_bytes (swap16 (ucast (nb_len b))) 0
                            (swap16 (push_bit 13 IP_FLAG_DONT_FRAGMENT)) protocol c (ip_local st) dst)
               in rbind (copy_at (nb_block b) q (hdr (ip_checksum (hdr 0))) 20) (\<lambda>blk.
                  let b = b\<lparr>nb_block := blk\<rparr>
                  in if \<not> ip_is_on_local_subnet st (Some dst) \<and> ip_is_zero_address (Some (ip_gateway st))
                     then Done (- 1, b, ns)
                     else ethernet_tx transmit (Some p) b (Some next_hop_mac) ETH_TYPE_IP ns))
      | _ \<Rightarrow> Done (- 1, b, ns))"

text \<open>The first device that is up and whose network contains the destination.\<close>

fun route_search :: "(dptr \<rightharpoonup> net_device) \<Rightarrow> ipv4_address \<Rightarrow> dptr option list \<Rightarrow> dptr option run" where
  "route_search store dest [] = Done None"
| "route_search store dest (e # es) =
     (case e of
        None \<Rightarrow> Fault
      | Some p \<Rightarrow> (case store p of
                    None \<Rightarrow> Fault
                  | Some d \<Rightarrow>
                      if nd_flags d AND NET_DEV_FLAG_UP \<noteq> 0 \<and>
                         be32 dest AND be32 (nd_netmask d) = be32 (nd_ip d) AND be32 (nd_netmask d)
                      then Done (Some p) else route_search store dest es))"

definition route_device :: "net_buffer \<Rightarrow> ipv4_address \<Rightarrow> net_state \<Rightarrow> dptr option run" where
  "route_device b dest ns =
     (case nb_device b of
        Some p \<Rightarrow> Done (Some p)
      | None \<Rightarrow>
          rbind (route_search (ns_store ns) dest (if ns_initialized ns then registered ns else [])) (\<lambda>found.
          Done (case found of Some p \<Rightarrow> Some p | None \<Rightarrow> network_get_default_device ns)))"

text \<open>
  The header of \<^verbatim>\<open>ip_send\<close> with a given checksum field. The length, identification and flags are
  set in host byte order and exchanged afterwards.
\<close>

definition ip_send_header :: "u32 \<Rightarrow> u16 \<Rightarrow> u8 \<Rightarrow> u16 \<Rightarrow> ipv4_address \<Rightarrow> ipv4_address \<Rightarrow> u8 list" where
  "ip_send_header len ident protocol checksum src dest =
     ip_header_bytes (swap16 (ucast len)) (swap16 ident) (swap16 0x4000) protocol checksum src dest"

text \<open>
  When no device is found the header fields written so far stay in the buffer; the addresses are
  then not set. The checksum is computed over the bytes in memory and its bytes are exchanged
  once more before it is stored.
\<close>

definition ip_send :: "net_buffer option \<Rightarrow> ipv4_address option \<Rightarrow> u8 \<Rightarrow> 'h ip \<Rightarrow> net_state \<Rightarrow>
    (int \<times> net_buffer option \<times> 'h ip) run" where
  "ip_send buffer dest_ip protocol st ns =
     (case (buffer, dest_ip) of
        (Some b0, Some dest) \<Rightarrow>
          (case net_buffer_push (Some b0) 20 of
             (Some _, Some b) \<Rightarrow>
               let st' = st\<lparr>ip_next_id := ip_next_id st + 1\<rparr>
               in rbind (route_device b dest ns) (\<lambda>dev.
                  case dev of
                    None \<Rightarrow>
                      rbind (put_bytes b 0 (take 12 (ip_header_bytes (ucast (nb_len b)) (ip_next_id st) 0x4000
                               protocol 0 dest dest))) (\<lambda>b.
                      Done (NET_ERR_INVALID, Some b, st'))
                  | Some p \<Rightarrow> (case ns_store ns p of
                        None \<Rightarrow> Fault
                      | Some d \<Rightarrow>
                          let hdr = (\<lambda>c. ip_send_header (nb_len b) (ip_next_id st) protocol c (nd_ip d) dest)
                          in rbind (put_bytes b 0 (hdr (swap16 (ip_checksum (hdr 0))))) (\<lambda>b.
                             Done (NET_ERR_OK, Some (b\<lparr>nb_device := Some p\<rparr>), st'))))
           | (_, b) \<Rightarrow> Done (NET_ERR_NOMEM, b, st))
      | _ \<Rightarrow> Done (NET_ERR_INVALID, buffer, st))"

definition ip_alloc_packet :: "netbuf_ops \<Rightarrow> bool \<Rightarrow> u8 list option \<Rightarrow> u32 \<Rightarrow> net_buffer option" where
  "ip_alloc_packet ops struct_mem data_mem payload_size =
     map_option (\<lambda>b. netbuf_reserve ops b IP_HEADER_MIN_SIZE)
       (ethernet_alloc_frame struct_mem data_mem (IP_HEADER_MIN_SIZE + payload_size))"

section \<open>Interface settings\<close>

definition ip_get_address :: "string option \<Rightarrow> ipv4_address option \<Rightarrow> net_state \<Rightarrow> (int \<times> ipv4_address option) run" where
  "ip_get_address interface addr ns =
     (if interface = None \<or> addr = None then Done (NET_ERR_INVALID, addr)
      else rbind (network_find_device_by_name interface ns) (\<lambda>dev.
        case dev of
          None \<Rightarrow> Done (NET_ERR_INVALID, addr)
        | Some p \<Rightarrow> (case ns_store ns p of
                      None \<Rightarrow> Fault | Some d \<Rightarrow> Done (NET_ERR_OK, Some (nd_ip d)))))"

text \<open>The three setters differ only in the field of the device that they write.\<close>

definition set_interface ::
  "(ipv4_address \<Rightarrow> net_device \<Rightarrow> net_device) \<Rightarrow> string option \<Rightarrow> ipv4_address option \<Rightarrow> net_state \<Rightarrow> (int \<times> net_state) run" where
  "set_interface upd interface value ns =
     (case value of
        None \<Rightarrow> Done (NET_ERR_INVALID, ns)
      | Some a \<Rightarrow>
          if interface = None then Done (NET_ERR_INVALID, ns)
          else rbind (network_find_device_by_name interface ns) (\<lambda>dev.
            case dev of
              None \<Rightarrow> Done (NET_ERR_INVALID, ns)
            | Some p \<Rightarrow> rbind (upd_device p (upd a) ns) (\<lambda>ns. Done (NET_ERR_OK, ns))))"

definition ip_set_address :: "string option \<Rightarrow> ipv4_address option \<Rightarrow> net_state \<Rightarrow> (int \<times> net_state) run" where
  "ip_set_address = set_interface (\<lambda>a d. d\<lparr>nd_ip := a\<rparr>)"

definition ip_set_netmask :: "string option \<Rightarrow> ipv4_address option \<Rightarrow> net_state \<Rightarrow> (int \<times> net_state) run" where
  "ip_set_netmask = set_interface (\<lambda>a d. d\<lparr>nd_netmask := a\<rparr>)"

definition ip_set_gateway :: "string option \<Rightarrow> ipv4_address option \<Rightarrow> net_state \<Rightarrow> (int \<times> net_state) run" where
  "ip_set_gateway = set_interface (\<lambda>a d. d\<lparr>nd_gateway := a\<rparr>)"

end
