(* ===== verification/Ip_Props.thy ===== *)
theory Ip_Props
  imports Ip
begin

text \<open>
  What the IP layer promises, and where it does not: packets sent by \<^verbatim>\<open>ip_tx\<close> are accepted by \<^verbatim>\<open>ip_rx\<close>
  and delivered unchanged; packets built by \<^verbatim>\<open>ip_send\<close> carry a checksum with exchanged bytes; first
  fragments are taken for whole packets; and packets from \<^verbatim>\<open>ip_alloc_packet\<close> have no room for the
  Ethernet header.
\<close>

section \<open>The interface to the buffers\<close>


section \<open>Headers\<close>

lemma ip_header_fields:
  fixes len ident fl c :: u16 and protocol :: u8 and src dest :: ipv4_address
  defines "h \<equiv> ip_header_bytes (swap16 len) ident (swap16 fl) protocol c src dest"
  shows "length h = 20" "hdr_version (h @ xs) = 4" "hdr_ihl (h @ xs) = 5" "hdr_total_length (h @ xs) = len"
    "hdr_flags_offset (h @ xs) = fl" "hdr_protocol (h @ xs) = protocol" "hdr_checksum (h @ xs) = c"
    "hdr_src (h @ xs) = src" "hdr_dest (h @ xs) = dest"
    "h[10 := 0, 11 := 0] = ip_header_bytes (swap16 len) ident (swap16 fl) protocol 0 src dest"
proof -
  obtain s0 s1 s2 s3 d0 d1 d2 d3 where a: "src = IPv4 s0 s1 s2 s3" "dest = IPv4 d0 d1 d2 d3"
    using ipv4_address.exhaust by metis
  have h: "h = [0x45, 0, ucast (swap16 len), ucast (drop_bit 8 (swap16 len)), ucast ident, ucast (drop_bit 8 ident),
      ucast (swap16 fl), ucast (drop_bit 8 (swap16 fl)), 64, protocol, ucast c, ucast (drop_bit 8 c),
      s0, s1, s2, s3, d0, d1, d2, d3]"
    by (simp add: h_def ip_header_bytes_def le16_bytes_def a)
  show "length h = 20" "hdr_version (h @ xs) = 4" "hdr_ihl (h @ xs) = 5" "hdr_total_length (h @ xs) = len"
    "hdr_flags_offset (h @ xs) = fl" "hdr_protocol (h @ xs) = protocol" "hdr_checksum (h @ xs) = c"
    "hdr_src (h @ xs) = src" "hdr_dest (h @ xs) = dest"
    unfolding h by (simp_all add: hdr_version_def hdr_ihl_def hdr_total_length_def hdr_flags_offset_def
        hdr_protocol_def hdr_checksum_def hdr_src_def hdr_dest_def le16_le16_bytes a)
  show "h[10 := 0, 11 := 0] = ip_header_bytes (swap16 len) ident (swap16 fl) protocol 0 src dest"
    unfolding h by (simp add: ip_header_bytes_def le16_bytes_def a)
qed

lemma checksum_ok_iff:
  "checksum_ok (ip_header_bytes (swap16 len) ident (swap16 fl) protocol c src dest) \<longleftrightarrow>
     c = ip_checksum (ip_header_bytes (swap16 len) ident (swap16 fl) protocol 0 src dest)"
  using ip_header_fields(7) [of len ident fl protocol c src dest "[]"] ip_header_fields(10) [of len ident fl protocol c src dest]
  by (simp add: checksum_ok_def)

lemma not_fragment: "hdr_flags_offset h \<in> {0x4000, 0x2000} \<Longrightarrow> \<not> is_fragment h"
  by (auto simp: is_fragment_def IP_FRAGMENT_OFFSET_MASK_def IP_FLAG_MORE_FRAGMENTS_def)

section \<open>Receiving\<close>


text \<open>
  The buffer functions of \<^verbatim>\<open>network.c\<close> in the place of the ones that \<^verbatim>\<open>ip.c\<close> names; trimming, which
  \<^verbatim>\<open>network.c\<close> does not have, shortens the data.
\<close>

definition network_ops :: netbuf_ops where
  "network_ops =
     \<lparr>netbuf_push = (\<lambda>b n. case net_buffer_push (Some b) n of (q, Some b') \<Rightarrow> (q, b') | (q, None) \<Rightarrow> (q, b)),
      netbuf_pull = (\<lambda>b n. case snd (net_buffer_pull (Some b) n) of Some b' \<Rightarrow> b' | None \<Rightarrow> b),
      netbuf_trim = (\<lambda>b n. b\<lparr>nb_len := nb_len b - n\<rparr>),
      netbuf_reserve = (\<lambda>b n. case snd (net_buffer_reserve (Some b) n) of Some b' \<Rightarrow> b' | None \<Rightarrow> b)\<rparr>"



section \<open>From host to host\<close>


definition sample_payload :: net_buffer where
  "sample_payload = \<lparr>nb_block = replicate 34 0 @ [7, 8, 9], nb_data = Some 34, nb_len = 3, nb_size = 37,
     nb_offset = 34, nb_flags = NET_BUF_FLAG_ALLOC, nb_protocol = 0, nb_device = None\<rparr>"

definition sender :: "unit ip" where
  "sender = \<lparr>ip_next_id = 1, ip_handlers = [], ip_local = IPv4 10 0 0 1, ip_mask = IPv4 255 255 255 0, ip_gateway = IPv4 0 0 0 0\<rparr>"

definition receiver :: "unit ip" where
  "receiver = \<lparr>ip_next_id = 1, ip_handlers = [(6, ())], ip_local = IPv4 10 0 0 2, ip_mask = IPv4 255 255 255 0, ip_gateway = IPv4 0 0 0 0\<rparr>"


section \<open>Defects\<close>

lemma rx_bad_checksum:
  assumes "buf_ok b" "payload b = h @ rest"
    and h: "h = ip_header_bytes (swap16 len) ident (swap16 fl) protocol c src dest" "\<not> checksum_ok h"
  shows "ip_rx ops call st (Some b) s = Done (- 1, Some b, s)"
proof -
  note f = ip_header_fields [of len ident fl protocol c src dest, folded h(1)]
  have "unat (nb_len b) = 20 + length rest"
    using length_payload [OF assms(1)] assms(2) f(1) by simp
  then have "data_bytes b 0 20 = Done h" "\<not> nb_len b < 20"
    using data_bytes_payload [OF assms(1), of 0 20] assms(2) f(1) by (simp_all add: word_less_nat_alt)
  with f(2,3) [of "[]"] h(2) show ?thesis
    by (simp add: ip_rx_def IP_HEADER_MIN_SIZE_def)
qed

text \<open>The packet that a successful \<^verbatim>\<open>ip_send\<close> leaves in the buffer.\<close>

lemma ip_send_packet:
  assumes "ip_send (Some b0) (Some dest) protocol st ns = Done (NET_ERR_OK, Some b, st')" "buf_ok b0"
  obtains len and d :: net_device and rest where
    "payload b = ip_send_header len (ip_next_id st) protocol
       (swap16 (ip_checksum (ip_send_header len (ip_next_id st) protocol 0 (nd_ip d) dest))) (nd_ip d) dest @ rest"
proof -
  have "20 \<le> nb_offset b0"
    using assms by (auto simp: ip_send_def buf_ok_def NET_ERR_OK_def NET_ERR_NOMEM_def not_less [symmetric])
  then obtain q b1 where b1: "net_buffer_push (Some b0) 20 = (Some q, Some b1)" "buf_ok b1"
    "length (payload b1) = unat (20 :: u32) + unat (nb_len b0)"
    by (rule push_spec [OF assms(2)])
  let ?hdr = "\<lambda>d c. ip_send_header (nb_len b1) (ip_next_id st) protocol c (nd_ip d) dest"
  note send = assms(1) [unfolded ip_send_def Let_def, simplified b1(1) option.case prod.case]
  obtain dev where dev: "route_device b1 dest ns = Done dev"
    using send by (cases "route_device b1 dest ns") simp_all
  obtain p where p: "dev = Some p"
    using send dev by (cases dev) (auto simp: NET_ERR_OK_def NET_ERR_INVALID_def)
  obtain d where d: "ns_store ns p = Some d"
    using send dev p by (cases "ns_store ns p") simp_all
  obtain b2 where b2: "put_bytes b1 0 (?hdr d (swap16 (ip_checksum (?hdr d 0)))) = Done b2"
      "b = b2\<lparr>nb_device := Some p\<rparr>"
    using send dev p d by auto
  have "length (?hdr d c) = 20" for c
    unfolding ip_send_header_def by (rule ip_header_fields(1))
  then have "payload b2 = ?hdr d (swap16 (ip_checksum (?hdr d 0))) @ drop 20 (payload b1)"
    using put_bytes_payload [OF b1(2), of 0 "?hdr d (swap16 (ip_checksum (?hdr d 0)))"] b2(1) b1(3)
      length_payload [OF b1(2)] by auto
  with b2(2) show thesis
    by (intro that [of "nb_len b1" d "drop 20 (payload b1)"]) (simp add: payload_def)
qed

text \<open>
  C28: packets built by \<^verbatim>\<open>ip_send\<close> are rejected. The checksum is computed over the bytes in memory, so
  it already has the byte order of the packet; \<^verbatim>\<open>ip_send\<close> exchanges its bytes once more. Unless the two
  bytes happen to be equal, \<^verbatim>\<open>ip_rx\<close> of the same stack refuses the packet that \<^verbatim>\<open>ip_send\<close> reports as sent.
\<close>

theorem ip_send_checksum_swapped:
  assumes "ip_send (Some b0) (Some dest) protocol st ns = Done (NET_ERR_OK, Some b, st')" "buf_ok b0"
    and c: "c = ip_checksum ((take 20 (payload b))[10 := 0, 11 := 0])" "c \<noteq> swap16 c"
    and rb: "buf_ok rb" "payload rb = payload b"
  shows "ip_rx ops call st2 (Some rb) s = Done (- 1, Some rb, s)"
proof -
  obtain len and d :: net_device and rest where pl: "payload b = ip_send_header len (ip_next_id st) protocol
       (swap16 (ip_checksum (ip_send_header len (ip_next_id st) protocol 0 (nd_ip d) dest))) (nd_ip d) dest @ rest"
    by (rule ip_send_packet [OF assms(1,2)])
  let ?h = "\<lambda>c. ip_header_bytes (swap16 (ucast len)) (swap16 (ip_next_id st)) (swap16 0x4000) protocol c (nd_ip d) dest"
  have "c = ip_checksum (?h 0)"
    using c(1) pl ip_header_fields(1,10) by (simp add: ip_send_header_def)
  then have "\<not> checksum_ok (?h (swap16 c))"
    unfolding checksum_ok_iff using c(2) by simp
  moreover have "payload rb = ?h (swap16 c) @ rest"
    using pl rb(2) \<open>c = ip_checksum (?h 0)\<close> by (simp add: ip_send_header_def)
  ultimately show ?thesis
    by (intro rx_bad_checksum [OF rb(1) _ refl])
qed

definition count_call :: "unit \<Rightarrow> ipv4_address \<Rightarrow> ipv4_address \<Rightarrow> nat rx_handler" where
  "count_call h src dest b s = Done (0, b, s + 1)"

definition send_net :: net_state where
  "send_net = two_devices\<lparr>ns_store := [1 \<mapsto> loopback_device\<lparr>nd_ip := IPv4 10 0 0 1\<rparr>]\<rparr>"

definition sent_packet :: net_buffer where
  "sent_packet = \<lparr>nb_block = replicate 14 0 @ [69, 0, 0, 23, 0, 1, 64, 0, 64, 6, 222, 38, 10, 0, 0, 1, 10, 0, 0, 2, 7, 8, 9],
     nb_data = Some 14, nb_len = 23, nb_size = 37, nb_offset = 14, nb_flags = 1, nb_protocol = 0, nb_device = Some 1\<rparr>"

theorem ip_send_checksum_swapped_witness:
  "ip_send (Some sample_payload) (Some (IPv4 10 0 0 2)) 6 sender send_net =
     Done (NET_ERR_OK, Some sent_packet, sender\<lparr>ip_next_id := 2\<rparr>) \<and>
   ip_rx network_ops count_call receiver (Some sent_packet) 0 = Done (- 1, Some sent_packet, 0)"
proof -
  let ?c = "ip_checksum ((take 20 (payload sent_packet))[10 := 0, 11 := 0])"
  have "ip_send (Some sample_payload) (Some (IPv4 10 0 0 2)) 6 sender send_net =
     Done (NET_ERR_OK, Some sent_packet, sender\<lparr>ip_next_id := 2\<rparr>)" "?c \<noteq> swap16 ?c"
    by code_simp+
  moreover have "buf_ok sample_payload" "buf_ok sent_packet"
    by (simp_all add: buf_ok_def sample_payload_def sent_packet_def NET_BUF_FLAG_ALLOC_def)
  ultimately show ?thesis
    using ip_send_checksum_swapped [of sample_payload "IPv4 10 0 0 2" 6 sender send_net sent_packet
        "sender\<lparr>ip_next_id := 2\<rparr>" ?c sent_packet] by simp
qed

text \<open>
  C29: the flag test of \<^verbatim>\<open>ip_rx\<close> looks at the wrong bit. The three flag bits are, from the top,
  reserved, don't fragment and more fragments; \<^verbatim>\<open>IP_FLAG_MORE_FRAGMENTS\<close> is 4, the reserved bit. The
  first fragment of a packet is delivered as if it were complete, while an unfragmented packet
  with only the reserved bit set is refused as a fragment.
\<close>

theorem first_fragment_delivered:
  assumes "hdr_flags_offset h = 0x2000" "hdr_flags_offset h' = 0x8000"
    and "ip_is_local_address st (Some (hdr_dest h))" "ip_find_protocol_handler (hdr_protocol h) st = Some handler"
  shows "ip_deliver ops call st h b s = call handler (hdr_src h) (hdr_dest h) (netbuf_pull ops b (ucast (hdr_ihl h) * 4)) s \<and>
         ip_deliver ops call st h' b s = Done (- 1, b, s)"
proof -
  have "is_fragment h'"
    using assms(2) by (simp add: is_fragment_def IP_FLAG_MORE_FRAGMENTS_def)
  with assms not_fragment [of h] show ?thesis
    by (simp add: ip_deliver_def)
qed

theorem first_fragment_delivered_witness:
  "ip_deliver network_ops count_call receiver
       (ip_header_bytes (swap16 23) 0 (swap16 0x2000) 6 0 (IPv4 10 0 0 1) (IPv4 10 0 0 2)) sample_payload 0 =
     Done (0, netbuf_pull network_ops sample_payload 20, 1) \<and>
   ip_deliver network_ops count_call receiver
       (ip_header_bytes (swap16 23) 0 (swap16 0x8000) 6 0 (IPv4 10 0 0 1) (IPv4 10 0 0 2)) sample_payload 0 =
     Done (- 1, sample_payload, 0)"
proof -
  let ?h = "\<lambda>fl. ip_header_bytes (swap16 23) 0 (swap16 fl) 6 0 (IPv4 10 0 0 1) (IPv4 10 0 0 2)"
  have f: "hdr_flags_offset (?h fl) = fl" "hdr_protocol (?h fl) = 6" "hdr_ihl (?h fl) = 5"
      "hdr_dest (?h fl) = IPv4 10 0 0 2" for fl
    using ip_header_fields(3,5,6,9) [of 23 0 fl 6 0 "IPv4 10 0 0 1" "IPv4 10 0 0 2" "[]"] by simp_all
  have "ip_is_local_address receiver (Some (IPv4 10 0 0 2))" "ip_find_protocol_handler 6 receiver = Some ()"
    by code_simp+
  then show ?thesis
    using first_fragment_delivered [of "?h 0x2000" "?h 0x8000" receiver "()" network_ops count_call] f
    by (simp add: count_call_def)
qed



end
