(* ===== verification/Tcp.thy ===== *)
theory Tcp
  imports Ip Ring_Buffer
begin

text \<open>
  The Transmission Control Protocol, \<^verbatim>\<open>network/src/tcp.c\<close>: the socket table, the receive buffers,
  segments and their checksum, the connection state machine, the timers and the socket calls.

  A pointer to a socket is an index of the table. The listener structure of a socket and the
  receive buffer are reachable only through the socket and are kept inside it. What \<^verbatim>\<open>malloc\<close>
  returns is an argument (\<open>mem\<close>), as are the contents of a received packet and the two addresses
  that reception finds beside it. The environment has the rest of what the code calls and no
  file of the stack defines with the arguments used here: the outcome of the \<open>n\<close>-th transmission
  (no packet buffer, or the result of \<^verbatim>\<open>ip_tx\<close>), the test \<^verbatim>\<open>ip_addr_is_any\<close>, the clock, and the
  application's callbacks, which may do anything to the state. The field \<^verbatim>\<open>timer\<close> of the
  retransmission parameters is used by \<^verbatim>\<open>tcp_timer\<close> but not declared in \<^verbatim>\<open>tcp.h\<close>; it is taken to
  have the type of the time-out it is compared with.
\<close>

section \<open>Data\<close>

definition TCP_HEADER_SIZE :: u32 where "TCP_HEADER_SIZE = 20"
definition TCP_MAX_SOCKETS :: nat where "TCP_MAX_SOCKETS = 16"
definition TCP_MAX_TIME_WAIT_SOCKETS :: nat where "TCP_MAX_TIME_WAIT_SOCKETS = 32"
definition TCP_DEFAULT_MSS :: u16 where "TCP_DEFAULT_MSS = 536"
definition TCP_DEFAULT_WINDOW :: u32 where "TCP_DEFAULT_WINDOW = 4096"
definition TCP_DEFAULT_BUFFER_SIZE :: u32 where "TCP_DEFAULT_BUFFER_SIZE = 8192"
definition TCP_DYNAMIC_PORT_START :: u16 where "TCP_DYNAMIC_PORT_START = 49152"
definition TCP_DYNAMIC_PORT_END :: int where "TCP_DYNAMIC_PORT_END = 65535"
definition TCP_MSL :: u32 where "TCP_MSL = 120000"
definition TCP_RETRANSMIT_TIMEOUT :: u32 where "TCP_RETRANSMIT_TIMEOUT = 500"
definition TCP_MAX_RETRANSMITS :: u8 where "TCP_MAX_RETRANSMITS = 5"
definition IP_PROTO_TCP :: u8 where "IP_PROTO_TCP = 6"

definition TCP_FLAG_FIN :: u8 where "TCP_FLAG_FIN = 0x01"
definition TCP_FLAG_SYN :: u8 where "TCP_FLAG_SYN = 0x02"
definition TCP_FLAG_RST :: u8 where "TCP_FLAG_RST = 0x04"
definition TCP_FLAG_PSH :: u8 where "TCP_FLAG_PSH = 0x08"
definition TCP_FLAG_ACK :: u8 where "TCP_FLAG_ACK = 0x10"

datatype tcp_state =
    TCP_STATE_CLOSED | TCP_STATE_LISTEN | TCP_STATE_SYN_SENT | TCP_STATE_SYN_RECEIVED
  | TCP_STATE_ESTABLISHED | TCP_STATE_FIN_WAIT_1 | TCP_STATE_FIN_WAIT_2 | TCP_STATE_CLOSING
  | TCP_STATE_TIME_WAIT | TCP_STATE_CLOSE_WAIT | TCP_STATE_LAST_ACK

fun tcp_state_to_str :: "tcp_state \<Rightarrow> string" where
  "tcp_state_to_str TCP_STATE_CLOSED = ''CLOSED''"
| "tcp_state_to_str TCP_STATE_LISTEN = ''LISTEN''"
| "tcp_state_to_str TCP_STATE_SYN_SENT = ''SYN_SENT''"
| "tcp_state_to_str TCP_STATE_SYN_RECEIVED = ''SYN_RECEIVED''"
| "tcp_state_to_str TCP_STATE_ESTABLISHED = ''ESTABLISHED''"
| "tcp_state_to_str TCP_STATE_FIN_WAIT_1 = ''FIN_WAIT_1''"
| "tcp_state_to_str TCP_STATE_FIN_WAIT_2 = ''FIN_WAIT_2''"
| "tcp_state_to_str TCP_STATE_CLOSING = ''CLOSING''"
| "tcp_state_to_str TCP_STATE_TIME_WAIT = ''TIME_WAIT''"
| "tcp_state_to_str TCP_STATE_CLOSE_WAIT = ''CLOSE_WAIT''"
| "tcp_state_to_str TCP_STATE_LAST_ACK = ''LAST_ACK''"

type_synonym sptr = nat

record tcp_retransmit =
  rto :: u32
  srtt :: u32
  rttvar :: u32
  attempts :: u8
  timer :: u32

record tcp_connection =
  snd_una :: u32
  snd_nxt :: u32
  snd_wnd :: u32
  rcv_nxt :: u32
  rcv_wnd :: u32
  mss :: u16
  retransmit :: tcp_retransmit

record tcp_listener =
  backlog :: u16
  pending_count :: u16
  pending_connections :: "sptr option"

record tcp_buffer =
  tb_data :: "u8 list option"
  tb_size :: u32
  tb_start :: u32
  tb_end :: u32
  tb_available :: u32

text \<open>The callbacks of a socket are flags telling whether they are registered.\<close>

record tcp_socket =
  so_state :: tcp_state
  local_port :: u16
  remote_port :: u16
  local_addr :: ipv4_address
  remote_addr :: ipv4_address
  so_options :: u8
  conn :: tcp_connection
  listener :: "tcp_listener option"
  so_next :: "sptr option"
  rx_buffer :: tcp_buffer
  connected_callback :: bool
  data_ready_callback :: bool
  sent_callback :: bool
  closed_callback :: bool

record tcp_time_wait =
  tw_start_time :: u32
  tw_duration :: u32
  tw_socket :: "sptr option"

text \<open>
  The state of the layer. \<open>tcp_attempts\<close> counts the segments for which transmission was started,
  and \<open>tcp_sent\<close> lists the ones handed to \<^verbatim>\<open>ip_tx\<close>: source, destination and bytes.
\<close>

record tcp =
  tcp_sockets :: "sptr \<Rightarrow> tcp_socket"
  last_dynamic_port :: u16
  tcp_initial_seq :: u32
  time_wait_sockets :: "nat \<Rightarrow> tcp_time_wait"
  tcp_attempts :: nat
  tcp_sent :: "(ipv4_address \<times> ipv4_address \<times> u8 list) list"

datatype tcp_event = Connected sptr | Data_ready sptr u32 | Sent sptr u32 | Closed sptr

record tcp_env =
  env_ip_tx :: "nat \<Rightarrow> int option"
  env_is_any :: "ipv4_address \<Rightarrow> bool"
  env_time_ms :: u32
  env_app :: "tcp_event \<Rightarrow> tcp \<Rightarrow> tcp"

definition sock :: "sptr \<Rightarrow> tcp \<Rightarrow> tcp_socket" where
  "sock i t = tcp_sockets t i"

definition upd_sock :: "sptr \<Rightarrow> (tcp_socket \<Rightarrow> tcp_socket) \<Rightarrow> tcp \<Rightarrow> tcp" where
  "upd_sock i f t = t\<lparr>tcp_sockets := (tcp_sockets t)(i := f (tcp_sockets t i))\<rparr>"

abbreviation upd_conn :: "sptr \<Rightarrow> (tcp_connection \<Rightarrow> tcp_connection) \<Rightarrow> tcp \<Rightarrow> tcp" where
  "upd_conn i f \<equiv> upd_sock i (\<lambda>s. s\<lparr>conn := f (conn s)\<rparr>)"

abbreviation set_state :: "sptr \<Rightarrow> tcp_state \<Rightarrow> tcp \<Rightarrow> tcp" where
  "set_state i st \<equiv> upd_sock i (\<lambda>s. s\<lparr>so_state := st\<rparr>)"

text \<open>A callback runs if it is registered.\<close>

definition notify :: "tcp_env \<Rightarrow> bool \<Rightarrow> tcp_event \<Rightarrow> tcp \<Rightarrow> tcp" where
  "notify e is_set ev t = (if is_set then env_app e ev t else t)"

text \<open>All bytes zero, as after \<^verbatim>\<open>memset\<close>.\<close>

definition zero_socket :: tcp_socket where
  "zero_socket =
     \<lparr>so_state = TCP_STATE_CLOSED, local_port = 0, remote_port = 0, local_addr = IPv4 0 0 0 0,
      remote_addr = IPv4 0 0 0 0, so_options = 0,
      conn = \<lparr>snd_una = 0, snd_nxt = 0, snd_wnd = 0, rcv_nxt = 0, rcv_wnd = 0, mss = 0,
              retransmit = \<lparr>rto = 0, srtt = 0, rttvar = 0, attempts = 0, timer = 0\<rparr>\<rparr>,
      listener = None, so_next = None,
      rx_buffer = \<lparr>tb_data = None, tb_size = 0, tb_start = 0, tb_end = 0, tb_available = 0\<rparr>,
      connected_callback = False, data_ready_callback = False, sent_callback = False,
      closed_callback = False\<rparr>"

section \<open>The receive buffer\<close>

definition tcp_buffer_init :: "u8 list option \<Rightarrow> sptr option \<Rightarrow> u32 \<Rightarrow> tcp \<Rightarrow> int \<times> tcp" where
  "tcp_buffer_init mem socket buf_size t =
     (case socket of
        None \<Rightarrow> (- 1, t)
      | Some i \<Rightarrow>
          let t = upd_sock i (\<lambda>s. s\<lparr>rx_buffer := (rx_buffer s)\<lparr>tb_data := mem\<rparr>\<rparr>) t
          in case mem of
               None \<Rightarrow> (- 1, t)
             | Some _ \<Rightarrow>
                 (0, upd_sock i (\<lambda>s. s\<lparr>rx_buffer := (rx_buffer s)
                       \<lparr>tb_size := buf_size, tb_start := 0, tb_end := 0, tb_available := 0\<rparr>\<rparr>) t))"

text \<open>The copying loops, one byte at a time; a division by a size of zero is undefined.\<close>

fun buffer_store :: "u8 list \<Rightarrow> tcp_buffer \<Rightarrow> tcp_buffer run" where
  "buffer_store [] b = Done b"
| "buffer_store (x # xs) b =
     (case tb_data b of
        None \<Rightarrow> Fault
      | Some d \<Rightarrow>
          if unat (tb_end b) < length d \<and> tb_size b \<noteq> 0
          then buffer_store xs (b\<lparr>tb_data := Some (d[unat (tb_end b) := x]),
                                  tb_end := (tb_end b + 1) mod tb_size b\<rparr>)
          else Fault)"

definition tcp_buffer_write :: "sptr option \<Rightarrow> u8 list option \<Rightarrow> u32 \<Rightarrow> tcp \<Rightarrow> (int \<times> tcp) run" where
  "tcp_buffer_write socket data len t =
     (case (socket, data) of
        (Some i, Some bytes) \<Rightarrow>
          let b = rx_buffer (sock i t)
          in if tb_data b = None then Done (- 1, t)
             else if tb_available b + len > tb_size b then Done (- 1, t)
             else if unat len > length bytes then Fault
             else rbind (buffer_store (take (unat len) bytes) b) (\<lambda>b.
               Done (i32 (uint len), upd_sock i (\<lambda>s. s\<lparr>rx_buffer := b\<lparr>tb_available := tb_available b + len\<rparr>\<rparr>) t))
      | _ \<Rightarrow> Done (- 1, t))"

text \<open>Reading \<open>n\<close> bytes from a position on; also the position after them.\<close>

fun buffer_fetch :: "nat \<Rightarrow> tcp_buffer \<Rightarrow> u32 \<Rightarrow> (u8 list \<times> u32) run" where
  "buffer_fetch 0 b pos = Done ([], pos)"
| "buffer_fetch (Suc n) b pos =
     (case tb_data b of
        None \<Rightarrow> Fault
      | Some d \<Rightarrow>
          if unat pos < length d \<and> tb_size b \<noteq> 0
          then rmap (\<lambda>(xs, pos'). (d ! unat pos # xs, pos')) (buffer_fetch n b ((pos + 1) mod tb_size b))
          else Fault)"

text \<open>
  The caller's array is \<open>out\<close>, and the result has its new contents; a null array is \<open>None\<close>.
\<close>

definition tcp_buffer_read :: "sptr option \<Rightarrow> u8 list option \<Rightarrow> u32 \<Rightarrow> tcp \<Rightarrow> (int \<times> u8 list option \<times> tcp) run" where
  "tcp_buffer_read socket out len t =
     (case (socket, out) of
        (Some i, Some arr) \<Rightarrow>
          let b = rx_buffer (sock i t);
              read_len = (if len > tb_available b then tb_available b else len)
          in if tb_data b = None then Done (- 1, out, t)
             else if read_len = 0 then Done (0, out, t)
             else rbind (buffer_fetch (unat read_len) b (tb_start b)) (\<lambda>(xs, pos).
               rbind (memcpy arr xs (unat read_len)) (\<lambda>arr.
               Done (i32 (uint read_len), Some arr,
                 upd_sock i (\<lambda>s. s\<lparr>rx_buffer := (rx_buffer s)
                   \<lparr>tb_start := pos, tb_available := tb_available (rx_buffer s) - read_len\<rparr>\<rparr>) t)))
      | _ \<Rightarrow> Done (- 1, out, t))"

definition tcp_buffer_peek :: "sptr option \<Rightarrow> u8 list option \<Rightarrow> u32 \<Rightarrow> tcp \<Rightarrow> (int \<times> u8 list option) run" where
  "tcp_buffer_peek socket out len t =
     (case (socket, out) of
        (Some i, Some arr) \<Rightarrow>
          let b = rx_buffer (sock i t);
              read_len = (if len > tb_available b then tb_available b else len)
          in if tb_data b = None then Done (- 1, out)
             else if read_len = 0 then Done (0, out)
             else rbind (buffer_fetch (unat read_len) b (tb_start b)) (\<lambda>(xs, _).
               rbind (memcpy arr xs (unat read_len)) (\<lambda>arr. Done (i32 (uint read_len), Some arr)))
      | _ \<Rightarrow> Done (- 1, out))"

definition tcp_buffer_free :: "sptr option \<Rightarrow> tcp \<Rightarrow> tcp" where
  "tcp_buffer_free socket t =
     (case socket of
        None \<Rightarrow> t
      | Some i \<Rightarrow>
          if tb_data (rx_buffer (sock i t)) = None then t
          else upd_sock i (\<lambda>s. s\<lparr>rx_buffer :=
                 \<lparr>tb_data = None, tb_size = 0, tb_start = 0, tb_end = 0, tb_available = 0\<rparr>\<rparr>) t)"

section \<open>Segments\<close>

text \<open>A header in memory, its fields as they are stored.\<close>

record tcp_header =
  h_src_port :: u16
  h_dest_port :: u16
  h_seq_num :: u32
  h_ack_num :: u32
  h_data_offset :: u8
  h_flags :: u8
  h_window :: u16
  h_checksum :: u16
  h_urgent_ptr :: u16

definition tcp_header_bytes :: "tcp_header \<Rightarrow> u8 list" where
  "tcp_header_bytes h =
     le16_bytes (h_src_port h) @ le16_bytes (h_dest_port h) @ le32_bytes (h_seq_num h) @
     le32_bytes (h_ack_num h) @ [h_data_offset h, h_flags h] @ le16_bytes (h_window h) @
     le16_bytes (h_checksum h) @ le16_bytes (h_urgent_ptr h)"

definition tcp_header_of :: "u8 list \<Rightarrow> tcp_header" where
  "tcp_header_of b =
     \<lparr>h_src_port = le16 (b ! 0) (b ! 1), h_dest_port = le16 (b ! 2) (b ! 3),
      h_seq_num = le32 (b ! 4) (b ! 5) (b ! 6) (b ! 7),
      h_ack_num = le32 (b ! 8) (b ! 9) (b ! 10) (b ! 11),
      h_data_offset = b ! 12, h_flags = b ! 13, h_window = le16 (b ! 14) (b ! 15),
      h_checksum = le16 (b ! 16) (b ! 17), h_urgent_ptr = le16 (b ! 18) (b ! 19)\<rparr>"

definition pseudo_header :: "ipv4_address \<Rightarrow> ipv4_address \<Rightarrow> u32 \<Rightarrow> u8 list" where
  "pseudo_header src dest data_len =
     ipv4_bytes src @ ipv4_bytes dest @ [0, IP_PROTO_TCP] @ le16_bytes (swap16 (ucast (TCP_HEADER_SIZE + data_len)))"

definition tcp_checksum :: "tcp_header \<Rightarrow> u8 list \<Rightarrow> ipv4_address \<Rightarrow> ipv4_address \<Rightarrow> u16" where
  "tcp_checksum header data src dest =
     (let acc = add_words (pseudo_header src dest (of_nat (length data))) 0;
          acc = add_words (tcp_header_bytes header) acc;
          acc = add_words data acc
      in ucast (NOT (fold_carry acc)))"

definition segment_header :: "tcp_socket \<Rightarrow> u8 \<Rightarrow> tcp_header" where
  "segment_header s flags =
     \<lparr>h_src_port = swap16 (local_port s), h_dest_port = swap16 (remote_port s),
      h_seq_num = swap32 (snd_nxt (conn s)),
      h_ack_num = (if flags AND TCP_FLAG_ACK \<noteq> 0 then swap32 (rcv_nxt (conn s)) else 0),
      h_data_offset = push_bit 4 (ucast (TCP_HEADER_SIZE div 4)), h_flags = flags,
      h_window = swap16 (ucast (rcv_wnd (conn s))), h_checksum = 0, h_urgent_ptr = 0\<rparr>"

text \<open>The sequence number after sending: data, SYN and FIN count.\<close>

definition advance_snd_nxt :: "u8 \<Rightarrow> u32 \<Rightarrow> u32 \<Rightarrow> u32" where
  "advance_snd_nxt flags data_len nxt =
     (if data_len > 0 \<or> flags AND (TCP_FLAG_SYN OR TCP_FLAG_FIN) \<noteq> 0
      then nxt + data_len + (if flags AND TCP_FLAG_SYN \<noteq> 0 then 1 else 0) + (if flags AND TCP_FLAG_FIN \<noteq> 0 then 1 else 0)
      else nxt)"

text \<open>Reading data behind a null pointer or past its end is undefined.\<close>

definition segment_data :: "u8 list option \<Rightarrow> u32 \<Rightarrow> u8 list run" where
  "segment_data data data_len =
     (if data_len = 0 then Done []
      else case data of
        None \<Rightarrow> Fault
      | Some bytes \<Rightarrow> if unat data_len \<le> length bytes then Done (take (unat data_len) bytes) else Fault)"

definition tcp_send_segment ::
  "tcp_env \<Rightarrow> sptr option \<Rightarrow> u8 \<Rightarrow> u8 list option \<Rightarrow> u32 \<Rightarrow> tcp \<Rightarrow> (int \<times> tcp) run" where
  "tcp_send_segment e socket flags data data_len t =
     (case socket of
        None \<Rightarrow> Done (- 1, t)
      | Some i \<Rightarrow>
          let outcome = env_ip_tx e (tcp_attempts t);
              t = t\<lparr>tcp_attempts := tcp_attempts t + 1\<rparr>;
              s = sock i t
          in case outcome of
               None \<Rightarrow> Done (- 1, t)
             | Some result \<Rightarrow>
                 rbind (segment_data data data_len) (\<lambda>bytes.
                 let h = segment_header s flags;
                     h = h\<lparr>h_checksum := tcp_checksum h bytes (local_addr s) (remote_addr s)\<rparr>;
                     t = upd_conn i (\<lambda>c. c\<lparr>snd_nxt := advance_snd_nxt flags data_len (snd_nxt c)\<rparr>) t
                 in Done (result,
                      t\<lparr>tcp_sent := tcp_sent t @ [(local_addr s, remote_addr s, tcp_header_bytes h @ bytes)]\<rparr>)))"

section \<open>Initialisation and TIME-WAIT\<close>

definition tcp_init_time_wait :: "tcp \<Rightarrow> tcp" where
  "tcp_init_time_wait t =
     t\<lparr>time_wait_sockets := (\<lambda>k. if k < TCP_MAX_TIME_WAIT_SOCKETS
        then (time_wait_sockets t k)\<lparr>tw_socket := None\<rparr> else time_wait_sockets t k)\<rparr>"

text \<open>\<open>rx\<close> is the handler that \<^verbatim>\<open>ip_register_protocol\<close> is given.\<close>

definition tcp_init :: "'h \<Rightarrow> tcp \<Rightarrow> 'h ip \<Rightarrow> int \<times> tcp \<times> 'h ip" where
  "tcp_init rx t ip =
     (let t = t\<lparr>tcp_sockets := (\<lambda>i. if i < TCP_MAX_SOCKETS
                 then (tcp_sockets t i)\<lparr>so_state := TCP_STATE_CLOSED\<rparr> else tcp_sockets t i)\<rparr>;
          t = tcp_init_time_wait t;
          (result, ip) = ip_register_protocol IP_PROTO_TCP (Some rx) ip
      in if result \<noteq> 0 then (result, t, ip)
         else (0, t\<lparr>tcp_initial_seq := 0x01020304\<rparr>, ip))"

definition tcp_start_time_wait :: "tcp_env \<Rightarrow> sptr option \<Rightarrow> tcp \<Rightarrow> tcp" where
  "tcp_start_time_wait e socket t =
     (case socket of
        None \<Rightarrow> t
      | Some i \<Rightarrow>
          (case List.find (\<lambda>k. tw_socket (time_wait_sockets t k) = None) [0..<TCP_MAX_TIME_WAIT_SOCKETS] of
             None \<Rightarrow> set_state i TCP_STATE_CLOSED t
           | Some slot \<Rightarrow>
               t\<lparr>time_wait_sockets := (time_wait_sockets t)(slot :=
                  \<lparr>tw_start_time = env_time_ms e, tw_duration = 2 * TCP_MSL, tw_socket = Some i\<rparr>)\<rparr>))"

section \<open>Reception\<close>

definition socket_matches ::
  "tcp_env \<Rightarrow> u16 \<Rightarrow> ipv4_address \<Rightarrow> u16 \<Rightarrow> ipv4_address \<Rightarrow> tcp_socket \<Rightarrow> bool" where
  "socket_matches e lport laddr rport raddr s \<longleftrightarrow>
     so_state s \<noteq> TCP_STATE_CLOSED \<and>
     (so_state s \<noteq> TCP_STATE_LISTEN \<and> local_port s = lport \<and> remote_port s = rport \<and>
        ip_addr_cmp (Some (local_addr s)) (Some laddr) = 0 \<and> ip_addr_cmp (Some (remote_addr s)) (Some raddr) = 0 \<or>
      so_state s = TCP_STATE_LISTEN \<and> local_port s = lport \<and>
        \<not> (\<not> env_is_any e (local_addr s) \<and> ip_addr_cmp (Some (local_addr s)) (Some laddr) \<noteq> 0))"

definition tcp_find_socket ::
  "tcp_env \<Rightarrow> u16 \<Rightarrow> ipv4_address \<Rightarrow> u16 \<Rightarrow> ipv4_address \<Rightarrow> tcp \<Rightarrow> sptr option" where
  "tcp_find_socket e lport laddr rport raddr t =
     List.find (\<lambda>i. socket_matches e lport laddr rport raddr (sock i t)) [0..<TCP_MAX_SOCKETS]"

definition free_socket :: "tcp \<Rightarrow> sptr option" where
  "free_socket t = List.find (\<lambda>i. so_state (sock i t) = TCP_STATE_CLOSED) [0..<TCP_MAX_SOCKETS]"

definition new_connection ::
  "u32 \<Rightarrow> ipv4_address \<Rightarrow> u16 \<Rightarrow> ipv4_address \<Rightarrow> u16 \<Rightarrow> u32 \<Rightarrow> u16 \<Rightarrow> tcp_socket" where
  "new_connection iss src_addr src_port dest_addr dest_port seq_num window =
     zero_socket\<lparr>so_state := TCP_STATE_SYN_RECEIVED, local_port := dest_port, remote_port := src_port,
       local_addr := dest_addr, remote_addr := src_addr,
       conn := \<lparr>snd_una = iss, snd_nxt = iss, snd_wnd = ucast window, rcv_nxt = seq_num + 1,
                rcv_wnd = TCP_DEFAULT_WINDOW, mss = TCP_DEFAULT_MSS,
                retransmit = \<lparr>rto = TCP_RETRANSMIT_TIMEOUT, srtt = 0, rttvar = 0, attempts = 0, timer = 0\<rparr>\<rparr>\<rparr>"

definition tcp_process_syn ::
  "tcp_env \<Rightarrow> u8 list option \<Rightarrow> sptr \<Rightarrow> ipv4_address \<Rightarrow> u16 \<Rightarrow> ipv4_address \<Rightarrow> u16 \<Rightarrow> u32 \<Rightarrow> u16 \<Rightarrow> tcp \<Rightarrow>
     (int \<times> tcp) run" where
  "tcp_process_syn e mem i src_addr src_port dest_addr dest_port seq_num window t =
     (if so_state (sock i t) \<noteq> TCP_STATE_LISTEN then Done (- 1, t)
      else case listener (sock i t) of
        None \<Rightarrow> Fault
      | Some l \<Rightarrow>
          if pending_count l \<ge> backlog l then Done (- 1, t)
          else (case free_socket t of
              None \<Rightarrow> Done (- 1, t)
            | Some j \<Rightarrow>
                let t = upd_sock j (\<lambda>_. new_connection (tcp_initial_seq t) src_addr src_port dest_addr dest_port seq_num window) t;
                    (r, t) = tcp_buffer_init mem (Some j) TCP_DEFAULT_BUFFER_SIZE t
                in if r \<noteq> 0 then Done (- 1, t)
                   else let t = upd_sock j (\<lambda>s. s\<lparr>so_next := pending_connections l\<rparr>) t;
                            t = upd_sock i (\<lambda>s. s\<lparr>listener := Some (l\<lparr>pending_connections := Some j,
                                                    pending_count := pending_count l + 1\<rparr>)\<rparr>) t
                        in tcp_send_segment e (Some j) (TCP_FLAG_SYN OR TCP_FLAG_ACK) None 0 t))"

definition tcp_process_ack :: "tcp_env \<Rightarrow> sptr \<Rightarrow> u32 \<Rightarrow> u16 \<Rightarrow> tcp \<Rightarrow> (int \<times> tcp) run" where
  "tcp_process_ack e i ack_num window t =
     (let t = upd_conn i (\<lambda>c. c\<lparr>snd_wnd := ucast window\<rparr>) t;
          c = conn (sock i t)
      in if ack_num \<le> snd_una c \<or> ack_num > snd_nxt c then Done (0, t)
         else let t = upd_conn i (\<lambda>c. c\<lparr>snd_una := ack_num\<rparr>) t
              in case so_state (sock i t) of
                   TCP_STATE_SYN_SENT \<Rightarrow>
                     rbind (tcp_send_segment e (Some i) TCP_FLAG_RST None 0 (set_state i TCP_STATE_CLOSED t))
                       (\<lambda>(_, t). Done (- 1, t))
                 | TCP_STATE_SYN_RECEIVED \<Rightarrow>
                     let t = set_state i TCP_STATE_ESTABLISHED t
                     in Done (0, notify e (connected_callback (sock i t)) (Connected i) t)
                 | TCP_STATE_FIN_WAIT_1 \<Rightarrow> Done (0, set_state i TCP_STATE_FIN_WAIT_2 t)
                 | TCP_STATE_CLOSING \<Rightarrow>
                     Done (0, tcp_start_time_wait e (Some i) (set_state i TCP_STATE_TIME_WAIT t))
                 | TCP_STATE_LAST_ACK \<Rightarrow>
                     let t = set_state i TCP_STATE_CLOSED t
                     in Done (0, notify e (closed_callback (sock i t)) (Closed i) t)
                 | _ \<Rightarrow> Done (0, t))"

definition tcp_process_data :: "tcp_env \<Rightarrow> sptr \<Rightarrow> u8 list \<Rightarrow> u32 \<Rightarrow> tcp \<Rightarrow> (int \<times> tcp) run" where
  "tcp_process_data e i data seq_num t =
     (let data_len = of_nat (length data)
      in if seq_num \<noteq> rcv_nxt (conn (sock i t))
         then rbind (tcp_send_segment e (Some i) TCP_FLAG_ACK None 0 t) (\<lambda>(_, t). Done (- 1, t))
         else rbind (tcp_buffer_write (Some i) (Some data) data_len
                       (upd_conn i (\<lambda>c. c\<lparr>rcv_nxt := rcv_nxt c + data_len\<rparr>) t)) (\<lambda>(r, t).
           if word_of_int r \<noteq> data_len then Done (- 1, t)
           else rbind (tcp_send_segment e (Some i) TCP_FLAG_ACK None 0
                         (notify e (data_ready_callback (sock i t)) (Data_ready i data_len) t)) (\<lambda>(_, t).
                Done (0, t))))"

definition tcp_process_fin :: "tcp_env \<Rightarrow> sptr \<Rightarrow> u32 \<Rightarrow> tcp \<Rightarrow> (int \<times> tcp) run" where
  "tcp_process_fin e i seq_num t =
     (let t = upd_conn i (\<lambda>c. c\<lparr>rcv_nxt := seq_num + 1\<rparr>) t
      in case so_state (sock i t) of
           TCP_STATE_ESTABLISHED \<Rightarrow>
             rbind (tcp_send_segment e (Some i) TCP_FLAG_ACK None 0 (set_state i TCP_STATE_CLOSE_WAIT t)) (\<lambda>(_, t).
             Done (0, notify e (closed_callback (sock i t)) (Closed i) t))
         | TCP_STATE_FIN_WAIT_1 \<Rightarrow>
             rbind (tcp_send_segment e (Some i) TCP_FLAG_ACK None 0 (set_state i TCP_STATE_CLOSING t)) (\<lambda>(_, t).
             Done (0, t))
         | TCP_STATE_FIN_WAIT_2 \<Rightarrow>
             rbind (tcp_send_segment e (Some i) TCP_FLAG_ACK None 0 (set_state i TCP_STATE_TIME_WAIT t)) (\<lambda>(_, t).
             Done (0, tcp_start_time_wait e (Some i) t))
         | _ \<Rightarrow>
             rbind (tcp_send_segment e (Some i) TCP_FLAG_ACK None 0 t) (\<lambda>(_, t). Done (- 1, t)))"

text \<open>The SYN branch of \<^verbatim>\<open>tcp_rx\<close>.\<close>

definition tcp_rx_syn ::
  "tcp_env \<Rightarrow> u8 list option \<Rightarrow> tcp_header \<Rightarrow> ipv4_address \<Rightarrow> ipv4_address \<Rightarrow> sptr option \<Rightarrow> tcp \<Rightarrow> (int \<times> tcp) run" where
  "tcp_rx_syn e mem h src_addr dest_addr socket t =
     (case socket of
        None \<Rightarrow> Done (- 1, t)
      | Some i \<Rightarrow>
          if h_flags h AND TCP_FLAG_ACK \<noteq> 0 \<and> so_state (sock i t) = TCP_STATE_SYN_SENT then
            (if swap32 (h_ack_num h) \<noteq> snd_nxt (conn (sock i t)) then Done (- 1, t)
             else rbind (tcp_send_segment e (Some i) TCP_FLAG_ACK None 0
                           (upd_sock i (\<lambda>s. s\<lparr>so_state := TCP_STATE_ESTABLISHED,
                              conn := (conn s)\<lparr>snd_una := swap32 (h_ack_num h), rcv_nxt := swap32 (h_seq_num h) + 1,
                                               snd_wnd := ucast (swap16 (h_window h))\<rparr>\<rparr>) t)) (\<lambda>(_, t).
               Done (0, notify e (connected_callback (sock i t)) (Connected i) t)))
          else if so_state (sock i t) = TCP_STATE_LISTEN then
            tcp_process_syn e mem i src_addr (swap16 (h_src_port h)) dest_addr (swap16 (h_dest_port h))
              (swap32 (h_seq_num h)) (swap16 (h_window h)) t
          else Done (- 1, t))"

text \<open>A segment whose header and checksum have been verified, with its data.\<close>

definition tcp_rx_segment ::
  "tcp_env \<Rightarrow> u8 list option \<Rightarrow> tcp_header \<Rightarrow> u8 list \<Rightarrow> ipv4_address \<Rightarrow> ipv4_address \<Rightarrow> tcp \<Rightarrow> (int \<times> tcp) run" where
  "tcp_rx_segment e mem h data src_addr dest_addr t =
     (let socket = tcp_find_socket e (swap16 (h_dest_port h)) dest_addr (swap16 (h_src_port h)) src_addr t;
          seq_num = swap32 (h_seq_num h);
          data_len = of_nat (length data)
      in if h_flags h AND TCP_FLAG_RST \<noteq> 0 then
           (case socket of
              None \<Rightarrow> Done (0, t)
            | Some i \<Rightarrow> let t = set_state i TCP_STATE_CLOSED t
                        in Done (0, notify e (closed_callback (sock i t)) (Closed i) t))
         else if h_flags h AND TCP_FLAG_SYN \<noteq> 0 then tcp_rx_syn e mem h src_addr dest_addr socket t
         else case socket of
           None \<Rightarrow> Done (- 1, t)
         | Some i \<Rightarrow>
             rbind (if h_flags h AND TCP_FLAG_ACK \<noteq> 0
                    then tcp_process_ack e i (swap32 (h_ack_num h)) (swap16 (h_window h)) t else Done (0, t)) (\<lambda>(_, t).
             rbind (if data_len > 0 then tcp_process_data e i data seq_num t else Done (0, t)) (\<lambda>(_, t).
             rbind (if h_flags h AND TCP_FLAG_FIN \<noteq> 0 then tcp_process_fin e i (seq_num + data_len) t else Done (0, t)) (\<lambda>(_, t).
             Done (0, t)))))"

text \<open>
  \<open>packet\<close> is the content of the buffer with the source and destination address beside it. The
  checksum is computed over the fixed header and the data behind the options.
\<close>

definition tcp_rx ::
  "tcp_env \<Rightarrow> u8 list option \<Rightarrow> (u8 list \<times> ipv4_address \<times> ipv4_address) option \<Rightarrow> tcp \<Rightarrow> (int \<times> tcp) run" where
  "tcp_rx e mem packet t =
     (case packet of
        None \<Rightarrow> Done (- 1, t)
      | Some (bytes, src_addr, dest_addr) \<Rightarrow>
          if (of_nat (length bytes) :: u32) < TCP_HEADER_SIZE then Done (- 1, t)
          else let h = tcp_header_of bytes;
                   hdr_size = (ucast (drop_bit 4 (h_data_offset h) AND 0x0F) :: u16) * 4
               in if hdr_size < 20 \<or> (ucast hdr_size :: u32) > of_nat (length bytes) then Done (- 1, t)
                  else let data = drop (unat hdr_size) bytes
                       in if h_checksum h \<noteq> tcp_checksum (h\<lparr>h_checksum := 0\<rparr>) data src_addr dest_addr
                          then Done (- 1, t)
                          else tcp_rx_segment e mem h data src_addr dest_addr t)"

section \<open>Socket calls\<close>

definition port_in_use :: "tcp \<Rightarrow> u16 \<Rightarrow> bool" where
  "port_in_use t port \<longleftrightarrow>
     (\<exists>i \<in> set [0..<TCP_MAX_SOCKETS]. so_state (sock i t) \<noteq> TCP_STATE_CLOSED \<and> local_port (sock i t) = port)"

text \<open>The loop of \<^verbatim>\<open>tcp_get_free_port\<close>; incrementing the 16-bit port wraps.\<close>

definition next_port :: "u16 \<Rightarrow> u16" where
  "next_port port = (let port = port + 1 in if uint port > TCP_DYNAMIC_PORT_END then TCP_DYNAMIC_PORT_START else port)"

lemma next_port_eq: "next_port port = port + 1"
  using uint_lt2p [of "port + 1"] by (simp add: next_port_def TCP_DYNAMIC_PORT_END_def)

function free_port_loop :: "(u16 \<Rightarrow> bool) \<Rightarrow> u16 \<Rightarrow> u16 \<Rightarrow> u16" where
  "free_port_loop in_use start_port port =
     (if \<not> in_use port then port
      else if next_port port \<noteq> start_port then free_port_loop in_use start_port (next_port port)
      else 0)"
  by pat_completeness auto

lemma port_distance:
  assumes "next_port port \<noteq> start_port"
  shows "unat (start_port - next_port port - 1) < unat (start_port - port - 1)"
proof -
  define d where "d = start_port - port - 1"
  have step: "start_port - next_port port - 1 = d - 1" "d = start_port - next_port port"
    by (simp_all add: d_def next_port_eq)
  have "d \<noteq> 0"
    using assms step(2) by auto
  then have "unat (d - 1) < unat d"
    by (metis measure_unat)
  then show ?thesis
    unfolding step(1) by (simp add: d_def)
qed

termination free_port_loop
proof (relation "measure (\<lambda>(_, start_port, port). unat (start_port - port - 1))", goal_cases)
  case (2 in_use start_port port)
  then show ?case
    using port_distance [of port start_port] by simp
qed simp

declare free_port_loop.simps [simp del]

definition tcp_get_free_port :: "tcp \<Rightarrow> u16 \<times> tcp" where
  "tcp_get_free_port t =
     (let start_port = last_dynamic_port t;
          last = last_dynamic_port t + 1;
          last = (if uint last > TCP_DYNAMIC_PORT_END \<or> last < TCP_DYNAMIC_PORT_START then TCP_DYNAMIC_PORT_START else last);
          t = t\<lparr>last_dynamic_port := last\<rparr>
      in (free_port_loop (port_in_use t) start_port last, t))"

text \<open>Another open socket with the same port and a clashing address.\<close>

definition create_clash :: "tcp_env \<Rightarrow> sptr \<Rightarrow> u16 \<Rightarrow> tcp \<Rightarrow> bool" where
  "create_clash e i port t \<longleftrightarrow>
     (\<exists>k \<in> set [0..<TCP_MAX_SOCKETS]. k \<noteq> i \<and> so_state (sock k t) \<noteq> TCP_STATE_CLOSED \<and> local_port (sock k t) = port \<and>
        (env_is_any e (local_addr (sock k t)) \<or> env_is_any e (local_addr (sock i t)) \<or>
         ip_addr_cmp (Some (local_addr (sock k t))) (Some (local_addr (sock i t))) = 0))"

definition tcp_socket_create ::
  "tcp_env \<Rightarrow> u8 list option \<Rightarrow> ipv4_address option \<Rightarrow> u16 \<Rightarrow> tcp \<Rightarrow> sptr option \<times> tcp" where
  "tcp_socket_create e mem laddr lport t =
     (case free_socket t of
        None \<Rightarrow> (None, t)
      | Some i \<Rightarrow>
          let t = upd_sock i (\<lambda>_. zero_socket\<lparr>local_addr := (case laddr of Some a \<Rightarrow> a | None \<Rightarrow> IPv4 0 0 0 0)\<rparr>) t;
              finish = (\<lambda>t.
                let t = upd_conn i (\<lambda>c. c\<lparr>rcv_wnd := TCP_DEFAULT_WINDOW, mss := TCP_DEFAULT_MSS\<rparr>) t;
                    (r, t) = tcp_buffer_init mem (Some i) TCP_DEFAULT_BUFFER_SIZE t
                in if r \<noteq> 0 then (None, t) else (Some i, t))
          in if lport > 0 then
               (if create_clash e i lport t then (None, t)
                else finish (upd_sock i (\<lambda>s. s\<lparr>local_port := lport\<rparr>) t))
             else let (port, t) = tcp_get_free_port t;
                      t = upd_sock i (\<lambda>s. s\<lparr>local_port := port\<rparr>) t
                  in if port = 0 then (None, t) else finish t)"

definition bind_clash :: "tcp_env \<Rightarrow> sptr \<Rightarrow> ipv4_address option \<Rightarrow> u16 \<Rightarrow> tcp \<Rightarrow> bool" where
  "bind_clash e i addr port t \<longleftrightarrow>
     (\<exists>k \<in> set [0..<TCP_MAX_SOCKETS]. k \<noteq> i \<and> so_state (sock k t) \<noteq> TCP_STATE_CLOSED \<and> local_port (sock k t) = port \<and>
        (addr = None \<or> env_is_any e (local_addr (sock k t)) \<or> ip_addr_cmp addr (Some (local_addr (sock k t))) = 0))"

definition tcp_socket_bind :: "tcp_env \<Rightarrow> sptr option \<Rightarrow> ipv4_address option \<Rightarrow> u16 \<Rightarrow> tcp \<Rightarrow> int \<times> tcp" where
  "tcp_socket_bind e socket addr port t =
     (case socket of
        None \<Rightarrow> (- 1, t)
      | Some i \<Rightarrow>
          let set_addr = (\<lambda>t. (0, case addr of None \<Rightarrow> t | Some a \<Rightarrow> upd_sock i (\<lambda>s. s\<lparr>local_addr := a\<rparr>) t))
          in if so_state (sock i t) \<noteq> TCP_STATE_CLOSED then (- 1, t)
             else if port > 0 then
               (if bind_clash e i addr port t then (- 1, t)
                else set_addr (upd_sock i (\<lambda>s. s\<lparr>local_port := port\<rparr>) t))
             else if local_port (sock i t) = 0 then
               (let (p, t) = tcp_get_free_port t;
                    t = upd_sock i (\<lambda>s. s\<lparr>local_port := p\<rparr>) t
                in if p = 0 then (- 1, t) else set_addr t)
             else set_addr t)"

text \<open>\<open>mem\<close>: whether the listener structure can be allocated.\<close>

definition tcp_socket_listen :: "bool \<Rightarrow> sptr option \<Rightarrow> u16 \<Rightarrow> tcp \<Rightarrow> int \<times> tcp" where
  "tcp_socket_listen mem socket n t =
     (case socket of
        None \<Rightarrow> (- 1, t)
      | Some i \<Rightarrow>
          if so_state (sock i t) \<noteq> TCP_STATE_CLOSED then (- 1, t)
          else if \<not> mem then (- 1, t)
          else (0, upd_sock i (\<lambda>s. s\<lparr>so_state := TCP_STATE_LISTEN,
                     listener := Some \<lparr>backlog = (if n > 0 then n else 1), pending_count = 0, pending_connections = None\<rparr>\<rparr>) t))"

definition tcp_socket_accept :: "sptr option \<Rightarrow> tcp \<Rightarrow> sptr option \<times> tcp" where
  "tcp_socket_accept socket t =
     (case socket of
        None \<Rightarrow> (None, t)
      | Some i \<Rightarrow>
          (case listener (sock i t) of
             None \<Rightarrow> (None, t)
           | Some l \<Rightarrow>
               if so_state (sock i t) \<noteq> TCP_STATE_LISTEN then (None, t)
               else (case pending_connections l of
                   None \<Rightarrow> (None, t)
                 | Some j \<Rightarrow>
                     let t = upd_sock i (\<lambda>s. s\<lparr>listener := Some (l\<lparr>pending_connections := so_next (sock j t),
                                                pending_count := pending_count l - 1\<rparr>)\<rparr>) t;
                         t = upd_sock j (\<lambda>s. s\<lparr>so_next := None\<rparr>) t
                     in (Some j, if so_state (sock j t) = TCP_STATE_SYN_RECEIVED
                                 then set_state j TCP_STATE_ESTABLISHED t else t))))"

text \<open>The address of the default device, when the socket has none of its own.\<close>

definition default_local_addr :: "net_state \<Rightarrow> ipv4_address option run" where
  "default_local_addr ns =
     (case network_get_default_device ns of
        None \<Rightarrow> Done None
      | Some p \<Rightarrow> (case ns_store ns p of None \<Rightarrow> Fault | Some d \<Rightarrow> Done (Some (nd_ip d))))"

definition start_connect ::
  "tcp_env \<Rightarrow> u8 list option \<Rightarrow> sptr \<Rightarrow> tcp \<Rightarrow> (int \<times> tcp) run" where
  "start_connect e mem i t =
     (let t = upd_sock i (\<lambda>s. s\<lparr>so_state := TCP_STATE_SYN_SENT,
                 conn := (conn s)\<lparr>snd_una := tcp_initial_seq t, snd_nxt := tcp_initial_seq t, rcv_nxt := 0,
                   retransmit := (retransmit (conn s))\<lparr>rto := TCP_RETRANSMIT_TIMEOUT, attempts := 0\<rparr>\<rparr>\<rparr>) t;
          (r, t) = tcp_buffer_init mem (Some i) TCP_DEFAULT_BUFFER_SIZE t
      in if r \<noteq> 0 then Done (- 1, t) else tcp_send_segment e (Some i) TCP_FLAG_SYN None 0 t)"

definition tcp_socket_connect ::
  "tcp_env \<Rightarrow> u8 list option \<Rightarrow> net_state \<Rightarrow> sptr option \<Rightarrow> ipv4_address option \<Rightarrow> u16 \<Rightarrow> tcp \<Rightarrow> (int \<times> tcp) run" where
  "tcp_socket_connect e mem ns socket addr port t =
     (case (socket, addr) of
        (Some i, Some a) \<Rightarrow>
          if so_state (sock i t) \<noteq> TCP_STATE_CLOSED then Done (- 1, t)
          else let t = upd_sock i (\<lambda>s. s\<lparr>remote_addr := a, remote_port := port\<rparr>) t
               in rbind (if env_is_any e (local_addr (sock i t)) then default_local_addr ns
                         else Done (Some (local_addr (sock i t)))) (\<lambda>laddr.
                  case laddr of
                    None \<Rightarrow> Done (- 1, t)
                  | Some la \<Rightarrow>
                      let t = upd_sock i (\<lambda>s. s\<lparr>local_addr := la\<rparr>) t
                      in if local_port (sock i t) = 0 then
                           (let (p, t) = tcp_get_free_port t;
                                t = upd_sock i (\<lambda>s. s\<lparr>local_port := p\<rparr>) t
                            in if p = 0 then Done (- 1, t) else start_connect e mem i t)
                         else start_connect e mem i t)
      | _ \<Rightarrow> Done (- 1, t))"

definition tcp_socket_close :: "tcp_env \<Rightarrow> sptr option \<Rightarrow> tcp \<Rightarrow> (int \<times> tcp) run" where
  "tcp_socket_close e socket t =
     (case socket of
        None \<Rightarrow> Done (- 1, t)
      | Some i \<Rightarrow>
          (case so_state (sock i t) of
             TCP_STATE_CLOSED \<Rightarrow> Done (0, t)
           | TCP_STATE_LISTEN \<Rightarrow> Done (0, upd_sock i (\<lambda>s. s\<lparr>listener := None, so_state := TCP_STATE_CLOSED\<rparr>) t)
           | TCP_STATE_SYN_SENT \<Rightarrow> Done (0, set_state i TCP_STATE_CLOSED t)
           | TCP_STATE_SYN_RECEIVED \<Rightarrow>
               tcp_send_segment e (Some i) (TCP_FLAG_FIN OR TCP_FLAG_ACK) None 0 (set_state i TCP_STATE_FIN_WAIT_1 t)
           | TCP_STATE_ESTABLISHED \<Rightarrow>
               tcp_send_segment e (Some i) (TCP_FLAG_FIN OR TCP_FLAG_ACK) None 0 (set_state i TCP_STATE_FIN_WAIT_1 t)
           | TCP_STATE_CLOSE_WAIT \<Rightarrow>
               tcp_send_segment e (Some i) (TCP_FLAG_FIN OR TCP_FLAG_ACK) None 0 (set_state i TCP_STATE_LAST_ACK t)
           | _ \<Rightarrow> Done (- 1, t)))"

definition tcp_socket_send :: "tcp_env \<Rightarrow> sptr option \<Rightarrow> u8 list option \<Rightarrow> u32 \<Rightarrow> tcp \<Rightarrow> (int \<times> tcp) run" where
  "tcp_socket_send e socket data len t =
     (case socket of
        None \<Rightarrow> Done (- 1, t)
      | Some i \<Rightarrow>
          if data = None then Done (- 1, t)
          else if so_state (sock i t) \<noteq> TCP_STATE_ESTABLISHED then Done (- 1, t)
          else rbind (tcp_send_segment e (Some i) (TCP_FLAG_PSH OR TCP_FLAG_ACK) data len t) (\<lambda>(result, t).
            Done (if result = 0 then i32 (uint len) else result,
                  if result = 0 then notify e (sent_callback (sock i t)) (Sent i len) t else t)))"

definition tcp_socket_recv :: "sptr option \<Rightarrow> u8 list option \<Rightarrow> u32 \<Rightarrow> tcp \<Rightarrow> (int \<times> u8 list option \<times> tcp) run" where
  "tcp_socket_recv socket out len t =
     (case socket of
        None \<Rightarrow> Done (- 1, out, t)
      | Some i \<Rightarrow>
          if out = None then Done (- 1, out, t)
          else if so_state (sock i t) \<notin> {TCP_STATE_ESTABLISHED, TCP_STATE_FIN_WAIT_1, TCP_STATE_FIN_WAIT_2, TCP_STATE_CLOSE_WAIT}
          then Done (- 1, out, t)
          else tcp_buffer_read (Some i) out len t)"

definition tcp_socket_available :: "sptr option \<Rightarrow> tcp \<Rightarrow> int" where
  "tcp_socket_available socket t =
     (case socket of None \<Rightarrow> - 1 | Some i \<Rightarrow> i32 (uint (tb_available (rx_buffer (sock i t)))))"

definition tcp_socket_register_callbacks :: "sptr option \<Rightarrow> bool \<Rightarrow> bool \<Rightarrow> bool \<Rightarrow> bool \<Rightarrow> tcp \<Rightarrow> int \<times> tcp" where
  "tcp_socket_register_callbacks socket connected data_ready sent closed t =
     (case socket of
        None \<Rightarrow> (- 1, t)
      | Some i \<Rightarrow>
          (0, upd_sock i (\<lambda>s. s\<lparr>connected_callback := connected, data_ready_callback := data_ready,
                               sent_callback := sent, closed_callback := closed\<rparr>) t))"

definition tcp_socket_set_options :: "sptr option \<Rightarrow> u8 \<Rightarrow> tcp \<Rightarrow> int \<times> tcp" where
  "tcp_socket_set_options socket opts t =
     (case socket of None \<Rightarrow> (- 1, t) | Some i \<Rightarrow> (0, upd_sock i (\<lambda>s. s\<lparr>so_options := opts\<rparr>) t))"

section \<open>Timers\<close>

definition expire_time_wait :: "tcp_env \<Rightarrow> nat \<Rightarrow> tcp \<Rightarrow> tcp" where
  "expire_time_wait e k t =
     (let tw = time_wait_sockets t k
      in case tw_socket tw of
           None \<Rightarrow> t
         | Some i \<Rightarrow>
             if env_time_ms e - tw_start_time tw \<ge> tw_duration tw
             then (set_state i TCP_STATE_CLOSED t)
                    \<lparr>time_wait_sockets := (time_wait_sockets t)(k := tw\<lparr>tw_socket := None\<rparr>)\<rparr>
             else t)"

definition retransmit_tick :: "tcp_env \<Rightarrow> u32 \<Rightarrow> sptr \<Rightarrow> tcp \<Rightarrow> tcp" where
  "retransmit_tick e msec i t =
     (let s = sock i t; r = retransmit (conn s)
      in if so_state s \<notin> {TCP_STATE_SYN_SENT, TCP_STATE_SYN_RECEIVED, TCP_STATE_ESTABLISHED} then t
         else if timer r > 0 then
           (if timer r - msec \<le> 0 then
              (let r = r\<lparr>timer := timer r - msec, attempts := attempts r + 1, rto := rto r * 2\<rparr>
               in if attempts r > TCP_MAX_RETRANSMITS then
                    (let t = set_state i TCP_STATE_CLOSED (upd_conn i (\<lambda>c. c\<lparr>retransmit := r\<rparr>) t)
                     in notify e (closed_callback (sock i t)) (Closed i) t)
                  else upd_conn i (\<lambda>c. c\<lparr>retransmit := r\<lparr>timer := rto r\<rparr>\<rparr>) t)
            else upd_conn i (\<lambda>c. c\<lparr>retransmit := r\<lparr>timer := timer r - msec\<rparr>\<rparr>) t)
         else t)"

definition tcp_timer :: "tcp_env \<Rightarrow> u32 \<Rightarrow> tcp \<Rightarrow> tcp" where
  "tcp_timer e msec t =
     fold (retransmit_tick e msec) [0..<TCP_MAX_SOCKETS]
       (fold (expire_time_wait e) [0..<TCP_MAX_TIME_WAIT_SOCKETS] t)"

end
