(* ===== verification/Tcp_Stream.thy ===== *)
theory Tcp_Stream
  imports Tcp
begin

text \<open>
  The receive buffer of a TCP socket as a queue of bytes: the invariant of its indices, the
  sequence of bytes it stands for, its interpretation as a bounded first-in first-out queue, and
  what \<^verbatim>\<open>tcp_buffer_write\<close>, \<^verbatim>\<open>tcp_buffer_read\<close> and \<^verbatim>\<open>tcp_buffer_peek\<close> do to that sequence.
\<close>

lemma returns_case_prod [simp]:
  "returns (case x of (a, b) \<Rightarrow> f a b) P = (case x of (a, b) \<Rightarrow> returns (f a b) P)"
  by (simp split: prod.split)

lemma sock_upd [simp]: "sock j (upd_sock i f t) = (if j = i then f (sock i t) else sock j t)"
  by (simp add: sock_def upd_sock_def)

lemma upd_sock_upd_sock [simp]: "upd_sock i f (upd_sock i g t) = upd_sock i (\<lambda>s. f (g s)) t"
  by (simp add: upd_sock_def)

lemma sock_update [simp]:
  "sock i (tcp_sent_update f t) = sock i t"
  "sock i (tcp_attempts_update g t) = sock i t"
  "sock i (time_wait_sockets_update h t) = sock i t"
  "sock i (last_dynamic_port_update k t) = sock i t"
  "sock i (tcp_initial_seq_update l t) = sock i t"
  by (simp_all add: sock_def)

lemma upd_sock_fields [simp]:
  "tcp_sent (upd_sock i f t) = tcp_sent t"
  "tcp_attempts (upd_sock i f t) = tcp_attempts t"
  "time_wait_sockets (upd_sock i f t) = time_wait_sockets t"
  "last_dynamic_port (upd_sock i f t) = last_dynamic_port t"
  "tcp_initial_seq (upd_sock i f t) = tcp_initial_seq t"
  by (simp_all add: upd_sock_def)

lemma upd_sock_commute [simp]:
  "upd_sock i f (tcp_sent_update g t) = tcp_sent_update g (upd_sock i f t)"
  "upd_sock i f (tcp_attempts_update h t) = tcp_attempts_update h (upd_sock i f t)"
  "upd_sock i f (last_dynamic_port_update k t) = last_dynamic_port_update k (upd_sock i f t)"
  by (simp_all add: upd_sock_def)

definition rx_ok :: "tcp_buffer \<Rightarrow> bool" where
  "rx_ok b \<longleftrightarrow> tb_data b \<noteq> None \<and> unat (tb_size b) < 2 ^ 31 \<and>
     ring_ok (the (tb_data b)) (unat (tb_size b)) (unat (tb_start b)) (unat (tb_end b)) (unat (tb_available b))"

definition stream :: "tcp_buffer \<Rightarrow> u8 list" where
  "stream b = ring_list (the (tb_data b)) (unat (tb_start b)) (unat (tb_available b))"

definition rx_cap :: "tcp_buffer \<Rightarrow> nat" where
  "rx_cap b = unat (tb_size b)"

text \<open>One byte in, the oldest byte, and one byte out.\<close>

definition rx_put :: "u8 \<Rightarrow> tcp_buffer \<Rightarrow> tcp_buffer" where
  "rx_put x b = b\<lparr>tb_data := map_option (\<lambda>d. d[unat (tb_end b) := x]) (tb_data b),
                   tb_end := (tb_end b + 1) mod tb_size b, tb_available := tb_available b + 1\<rparr>"

definition rx_front :: "tcp_buffer \<Rightarrow> u8" where
  "rx_front b = the (tb_data b) ! unat (tb_start b)"

definition rx_drop :: "tcp_buffer \<Rightarrow> tcp_buffer" where
  "rx_drop b = b\<lparr>tb_start := (tb_start b + 1) mod tb_size b, tb_available := tb_available b - 1\<rparr>"

lemma rx_okD:
  assumes "rx_ok b"
  obtains d where "tb_data b = Some d" "length d = unat (tb_size b)" "tb_size b \<noteq> 0"
    "unat (tb_size b) < 2 ^ 31" "unat (tb_end b) < length d" "unat (tb_start b) < length d"
    "unat (tb_available b) \<le> unat (tb_size b)"
    "ring_ok d (unat (tb_size b)) (unat (tb_start b)) (unat (tb_end b)) (unat (tb_available b))"
proof -
  from assms obtain d where d: "tb_data b = Some d" "unat (tb_size b) < 2 ^ 31"
    and r: "ring_ok d (unat (tb_size b)) (unat (tb_start b)) (unat (tb_end b)) (unat (tb_available b))"
    by (auto simp: rx_ok_def)
  note ok = ring_okD [OF r]
  from ok(1) have "tb_size b \<noteq> 0"
    by auto
  with d ok r show ?thesis
    by (intro that) simp_all
qed

lemma length_stream: "length (stream b) = unat (tb_available b)"
  by (simp add: stream_def)

lemma unat_next:
  assumes "unat (p :: u32) < unat n" "unat n < 2 ^ 31"
  shows "unat ((p + 1) mod n) = (unat p + 1) mod unat n"
proof -
  have "unat (p + 1) = unat p + 1"
    using assms unat_plus [of p 1] by simp
  then show ?thesis
    by (simp add: unat_mod)
qed

lemma rx_put_ok:
  assumes "rx_ok b" "length (stream b) < rx_cap b"
  shows "rx_ok (rx_put x b)" "stream (rx_put x b) = stream b @ [x]" "rx_cap (rx_put x b) = rx_cap b"
proof -
  obtain d where d: "tb_data b = Some d" "length d = unat (tb_size b)" "unat (tb_size b) < 2 ^ 31"
    "unat (tb_end b) < length d"
    and r: "ring_ok d (unat (tb_size b)) (unat (tb_start b)) (unat (tb_end b)) (unat (tb_available b))"
    by (rule rx_okD [OF assms(1)])
  have room: "unat (tb_available b) < unat (tb_size b)"
    using assms(2) by (simp add: length_stream rx_cap_def)
  have av: "unat (tb_available b + 1) = Suc (unat (tb_available b))"
    using room d(3) unat_plus [of "tb_available b" 1] by simp
  have e: "unat ((tb_end b + 1) mod tb_size b) = (unat (tb_end b) + 1) mod unat (tb_size b)"
    using d by (intro unat_next) simp_all
  show "rx_ok (rx_put x b)"
    using ring_ok_snoc [OF r room, of x] d by (simp add: rx_ok_def rx_put_def av e)
  show "stream (rx_put x b) = stream b @ [x]"
    using ring_list_snoc [OF r room, of x] d by (simp add: stream_def rx_put_def av)
  show "rx_cap (rx_put x b) = rx_cap b"
    by (simp add: rx_cap_def rx_put_def)
qed

lemma rx_drop_ok:
  assumes "rx_ok b" "stream b \<noteq> []"
  shows "rx_ok (rx_drop b)" "stream (rx_drop b) = tl (stream b)" "rx_cap (rx_drop b) = rx_cap b"
    "rx_front b = hd (stream b)"
proof -
  obtain d where d: "tb_data b = Some d" "length d = unat (tb_size b)" "unat (tb_size b) < 2 ^ 31"
    "unat (tb_start b) < length d"
    and r: "ring_ok d (unat (tb_size b)) (unat (tb_start b)) (unat (tb_end b)) (unat (tb_available b))"
    by (rule rx_okD [OF assms(1)])
  have n: "0 < unat (tb_available b)"
    using assms(2) by (simp add: length_stream flip: length_greater_0_conv)
  then have av: "unat (tb_available b - 1) = unat (tb_available b) - 1"
    by (simp add: unat_minus_one unat_gt_0)
  have s: "unat ((tb_start b + 1) mod tb_size b) = (unat (tb_start b) + 1) mod unat (tb_size b)"
    using d by (intro unat_next) simp_all
  show "rx_ok (rx_drop b)"
    using ring_ok_tl(2) [OF r n] d by (simp add: rx_ok_def rx_drop_def av s)
  show "stream (rx_drop b) = tl (stream b)"
    using ring_list_tl [OF r n] d by (simp add: stream_def rx_drop_def av s)
  show "rx_cap (rx_drop b) = rx_cap b"
    by (simp add: rx_cap_def rx_drop_def)
  show "rx_front b = hd (stream b)"
    using ring_list_hd [OF r n] d by (simp add: stream_def rx_front_def)
qed

lemma stream_le_cap: "rx_ok b \<Longrightarrow> length (stream b) \<le> rx_cap b"
  by (erule rx_okD) (simp add: length_stream rx_cap_def)

interpretation rx: bounded_fifo rx_ok stream rx_cap rx_put rx_front rx_drop
  by unfold_locales (simp_all add: stream_le_cap rx_put_ok rx_drop_ok)

text \<open>The loops of the code are the operations of the queue, with the count adjusted once.\<close>

lemma buffer_store_fold:
  assumes "rx_ok b" "length (stream b) + length xs \<le> rx_cap b"
  shows "buffer_store xs (b\<lparr>tb_available := n\<rparr>) = Done ((fold rx_put xs b)\<lparr>tb_available := n\<rparr>)"
  using assms
proof (induction xs arbitrary: b)
  case Nil
  then show ?case by simp
next
  case (Cons x xs)
  obtain d where d: "tb_data b = Some d" "length d = unat (tb_size b)" "tb_size b \<noteq> 0" "unat (tb_end b) < length d"
    by (rule rx_okD [OF Cons.prems(1)])
  have "length (stream b) < rx_cap b"
    using Cons.prems(2) by simp
  with Cons.IH [of "rx_put x b"] Cons.prems have
    "buffer_store xs ((rx_put x b)\<lparr>tb_available := n\<rparr>) = Done ((fold rx_put xs (rx_put x b))\<lparr>tb_available := n\<rparr>)"
    by (simp add: rx_put_ok)
  moreover have "(rx_put x b)\<lparr>tb_available := n\<rparr> = b\<lparr>tb_available := n, tb_data := Some (d[unat (tb_end b) := x]),
      tb_end := (tb_end b + 1) mod tb_size b\<rparr>"
    using d(1) by (cases b) (simp add: rx_put_def)
  ultimately show ?case
    using d by simp
qed

lemma available_fold_put:
  "tb_available (fold rx_put xs b) = tb_available b + of_nat (length xs)"
  by (induction xs arbitrary: b) (simp_all add: rx_put_def)

lemma buffer_store_spec:
  assumes "rx_ok b" "length (stream b) + length xs \<le> rx_cap b"
  shows "\<exists>b'. buffer_store xs b = Done b' \<and> tb_available b' = tb_available b \<and>
           b'\<lparr>tb_available := tb_available b + of_nat (length xs)\<rparr> = fold rx_put xs b"
  using buffer_store_fold [OF assms, of "tb_available b"] available_fold_put [of xs b]
  by simp

lemma buffer_fetch_take_out:
  assumes "rx_ok b" "n \<le> length (stream b)"
  shows "buffer_fetch n (b\<lparr>tb_start := p, tb_available := q\<rparr>) (tb_start b) =
           Done (fst (rx.take_out n b), tb_start (snd (rx.take_out n b))) \<and>
         snd (rx.take_out n b) = b\<lparr>tb_start := tb_start (snd (rx.take_out n b)), tb_available := tb_available b - of_nat n\<rparr>"
  using assms
proof (induction n arbitrary: b)
  case 0
  then show ?case by simp
next
  case (Suc n)
  obtain d where d: "tb_data b = Some d" "length d = unat (tb_size b)" "tb_size b \<noteq> 0" "unat (tb_start b) < length d"
    by (rule rx_okD [OF Suc.prems(1)])
  have ne: "stream b \<noteq> []"
    using Suc.prems(2) by auto
  from Suc.IH [of "rx_drop b"] rx_drop_ok [OF Suc.prems(1) ne] Suc.prems(2)
  have IH: "buffer_fetch n ((rx_drop b)\<lparr>tb_start := p, tb_available := q\<rparr>) (tb_start (rx_drop b)) =
           Done (fst (rx.take_out n (rx_drop b)), tb_start (snd (rx.take_out n (rx_drop b))))"
    "snd (rx.take_out n (rx_drop b)) = (rx_drop b)\<lparr>tb_start := tb_start (snd (rx.take_out n (rx_drop b))),
       tb_available := tb_available (rx_drop b) - of_nat n\<rparr>"
    by auto
  have "(rx_drop b)\<lparr>tb_start := p, tb_available := q\<rparr> = b\<lparr>tb_start := p, tb_available := q\<rparr>"
    by (simp add: rx_drop_def)
  with IH(1) have "buffer_fetch (Suc n) (b\<lparr>tb_start := p, tb_available := q\<rparr>) (tb_start b) =
     Done (fst (rx.take_out (Suc n) b), tb_start (snd (rx.take_out (Suc n) b)))"
    using d by (simp add: rx_drop_def rx_front_def split_beta)
  moreover have "snd (rx.take_out (Suc n) b) = b\<lparr>tb_start := tb_start (snd (rx.take_out (Suc n) b)),
      tb_available := tb_available b - of_nat (Suc n)\<rparr>"
    using IH(2) by (simp add: rx_drop_def split_beta diff_diff_eq)
  ultimately show ?case ..
qed

section \<open>The buffer operations\<close>

lemma i32_uint: "unat (w :: u32) < 2 ^ 31 \<Longrightarrow> i32 (uint w) = int (unat w)"
proof -
  assume "unat w < 2 ^ 31"
  then have "uint w < 2 ^ 31"
    by (simp only: unat_eq_nat_uint nat_less_iff [OF uint_ge_0] of_nat_power of_nat_numeral)
  moreover have "- (2 ^ 31) \<le> uint w"
    by (rule order_trans [OF _ uint_ge_0]) simp
  ultimately show ?thesis
    using i32_id by simp
qed

lemma unat_of_nat_u32: "n < 2 ^ 32 \<Longrightarrow> unat (of_nat n :: u32) = n"
  by (simp add: unat_of_nat)

lemma tcp_buffer_write_spec:
  assumes ok: "rx_ok (rx_buffer (sock i t))" and len: "unat len \<le> length bytes" "unat len < 2 ^ 31"
  shows "if length (stream (rx_buffer (sock i t))) + unat len \<le> rx_cap (rx_buffer (sock i t))
         then \<exists>b. tcp_buffer_write (Some i) (Some bytes) len t = Done (int (unat len), upd_sock i (\<lambda>s. s\<lparr>rx_buffer := b\<rparr>) t) \<and>
                rx_ok b \<and> stream b = stream (rx_buffer (sock i t)) @ take (unat len) bytes \<and> rx_cap b = rx_cap (rx_buffer (sock i t))
         else tcp_buffer_write (Some i) (Some bytes) len t = Done (- 1, t)"
proof -
  let ?b = "rx_buffer (sock i t)"
  obtain d where d: "tb_data ?b = Some d" "unat (tb_size ?b) < 2 ^ 31" "unat (tb_available ?b) \<le> unat (tb_size ?b)"
    by (rule rx_okD [OF ok])
  have "unat (tb_available ?b + len) = unat (tb_available ?b) + unat len"
    using d len by (intro unat_plus) simp
  then have room: "tb_available ?b + len > tb_size ?b \<longleftrightarrow> \<not> length (stream ?b) + unat len \<le> rx_cap ?b"
    by (simp add: word_less_nat_alt length_stream rx_cap_def not_le)
  note i32 = i32_uint [OF len(2)]
  show ?thesis
  proof (cases "length (stream ?b) + unat len \<le> rx_cap ?b")
    case True
    let ?xs = "take (unat len) bytes"
    have l: "length ?xs = unat len" using len(1) by simp
    obtain b' where b': "buffer_store ?xs ?b = Done b'" "tb_available b' = tb_available ?b"
      "b'\<lparr>tb_available := tb_available ?b + len\<rparr> = fold rx_put ?xs ?b"
      using buffer_store_spec [OF ok, of ?xs] True l by auto
    have "rx_ok (fold rx_put ?xs ?b)" "stream (fold rx_put ?xs ?b) = stream ?b @ ?xs" "rx_cap (fold rx_put ?xs ?b) = rx_cap ?b"
      using rx.enq_many [OF ok, of ?xs] True l by simp_all
    with True room len(1) d(1) b' i32 show ?thesis
      by (auto simp: tcp_buffer_write_def Let_def intro!: exI [of _ "fold rx_put ?xs ?b"])
  next
    case False
    with room d(1) show ?thesis
      by (simp add: tcp_buffer_write_def Let_def)
  qed
qed

text \<open>Reading takes the oldest bytes, as many as are wanted and there.\<close>

lemma tcp_buffer_read_spec:
  assumes ok: "rx_ok (rx_buffer (sock i t))" and n: "n = min (unat len) (length (stream (rx_buffer (sock i t))))"
    and arr: "n \<le> length arr"
  shows "\<exists>b. tcp_buffer_read (Some i) (Some arr) len t =
           Done (int n, Some (take n (stream (rx_buffer (sock i t))) @ drop n arr), upd_sock i (\<lambda>s. s\<lparr>rx_buffer := b\<rparr>) t) \<and>
         rx_ok b \<and> stream b = drop n (stream (rx_buffer (sock i t))) \<and> rx_cap b = rx_cap (rx_buffer (sock i t))"
proof -
  let ?b = "rx_buffer (sock i t)"
  define r where "r = (if len > tb_available ?b then tb_available ?b else len)"
  obtain d where d: "tb_data ?b = Some d" "unat (tb_size ?b) < 2 ^ 31" "unat (tb_available ?b) \<le> unat (tb_size ?b)"
    by (rule rx_okD [OF ok])
  have r: "unat r = n"
    by (auto simp: r_def n length_stream word_less_nat_alt)
  have le: "n \<le> length (stream ?b)"
    by (simp add: n)
  then have i32: "i32 (uint r) = int n"
    using i32_uint [of r] r d(2,3) by (simp add: length_stream)
  show ?thesis
  proof (cases "n = 0")
    case True
    then have "r = 0"
      using r by (simp add: unat_eq_0)
    moreover have "upd_sock i (\<lambda>s. s\<lparr>rx_buffer := ?b\<rparr>) t = t"
      by (simp add: upd_sock_def sock_def)
    ultimately show ?thesis
      using True d(1) ok by (auto simp: tcp_buffer_read_def Let_def simp flip: r_def intro!: exI [of _ ?b])
  next
    case False
    then have "r \<noteq> 0"
      using r by auto
    let ?b' = "snd (rx.take_out n ?b)"
    have f: "buffer_fetch n ?b (tb_start ?b) = Done (fst (rx.take_out n ?b), tb_start ?b')"
      "?b' = ?b\<lparr>tb_start := tb_start ?b', tb_available := tb_available ?b - of_nat n\<rparr>"
      using buffer_fetch_take_out [OF ok le, of "tb_available ?b" "tb_start ?b"] by auto
    have q: "fst (rx.take_out n ?b) = take n (stream ?b)" "rx_ok ?b'" "stream ?b' = drop n (stream ?b)" "rx_cap ?b' = rx_cap ?b"
      using rx.take_out_spec [OF ok le] by auto
    have m: "memcpy arr (take n (stream ?b)) n = Done (take n (stream ?b) @ drop n arr)"
      using arr le by (simp add: memcpy_def)
    have "r = of_nat n"
      using r by auto
    then have "tcp_buffer_read (Some i) (Some arr) len t =
      Done (int n, Some (take n (stream ?b) @ drop n arr), upd_sock i (\<lambda>s. s\<lparr>rx_buffer := (rx_buffer s)
         \<lparr>tb_start := tb_start ?b', tb_available := tb_available (rx_buffer s) - of_nat n\<rparr>\<rparr>) t)"
      using \<open>r \<noteq> 0\<close> d(1) f(1) q(1) m i32 r
      by (simp add: tcp_buffer_read_def Let_def flip: r_def)
    moreover have "upd_sock i (\<lambda>s. s\<lparr>rx_buffer := (rx_buffer s)
         \<lparr>tb_start := tb_start ?b', tb_available := tb_available (rx_buffer s) - of_nat n\<rparr>\<rparr>) t = upd_sock i (\<lambda>s. s\<lparr>rx_buffer := ?b'\<rparr>) t"
      using f(2) by (simp add: upd_sock_def sock_def)
    ultimately show ?thesis
      using q by auto
  qed
qed

lemma tcp_buffer_peek_read:
  "tcp_buffer_peek socket out len t = rmap (\<lambda>(r, out, _). (r, out)) (tcp_buffer_read socket out len t)"
proof -
  have "rbind m (\<lambda>(xs, _). rbind (memcpy arr xs n) (\<lambda>arr. Done (r, Some arr))) =
        rmap (\<lambda>(r, out, _). (r, out)) (rbind m (\<lambda>(xs, pos). rbind (memcpy arr xs n) (\<lambda>arr. Done (r, Some arr, f pos))))"
    for m :: "(u8 list \<times> u32) run" and arr n r f
    by (cases m) (auto simp: memcpy_def)
  then show ?thesis
    by (auto simp: tcp_buffer_peek_def tcp_buffer_read_def Let_def split: option.split)
qed

end
