(* ===== verification/Tcp_Safety.thy ===== *)
theory Tcp_Safety
  imports Tcp_Stream
begin

text \<open>
  Every entry point of TCP keeps the sockets well formed, makes no undefined access whatever
  packet arrives, and moves the state of each socket along the connection diagram only.
\<close>

section \<open>Well-formed sockets and the connection diagram\<close>

definition socket_ok :: "tcp_socket \<Rightarrow> bool" where
  "socket_ok s \<longleftrightarrow> (tb_data (rx_buffer s) \<noteq> None \<longrightarrow> rx_ok (rx_buffer s)) \<and>
                   (so_state s = TCP_STATE_LISTEN \<longrightarrow> listener s \<noteq> None)"

definition tcp_ok :: "tcp \<Rightarrow> bool" where
  "tcp_ok t \<longleftrightarrow> (\<forall>i. socket_ok (sock i t))"

text \<open>The edges of the diagram, the ones into the closed state apart.\<close>

fun tcp_successors :: "tcp_state \<Rightarrow> tcp_state set" where
  "tcp_successors TCP_STATE_CLOSED = {TCP_STATE_LISTEN, TCP_STATE_SYN_SENT, TCP_STATE_SYN_RECEIVED}"
| "tcp_successors TCP_STATE_SYN_SENT = {TCP_STATE_ESTABLISHED}"
| "tcp_successors TCP_STATE_SYN_RECEIVED = {TCP_STATE_ESTABLISHED, TCP_STATE_FIN_WAIT_1}"
| "tcp_successors TCP_STATE_ESTABLISHED = {TCP_STATE_FIN_WAIT_1, TCP_STATE_CLOSE_WAIT}"
| "tcp_successors TCP_STATE_FIN_WAIT_1 = {TCP_STATE_FIN_WAIT_2, TCP_STATE_CLOSING}"
| "tcp_successors TCP_STATE_FIN_WAIT_2 = {TCP_STATE_TIME_WAIT}"
| "tcp_successors TCP_STATE_CLOSING = {TCP_STATE_TIME_WAIT}"
| "tcp_successors TCP_STATE_CLOSE_WAIT = {TCP_STATE_LAST_ACK}"
| "tcp_successors _ = {}"

definition tcp_forward :: "tcp_state \<Rightarrow> tcp_state \<Rightarrow> bool" where
  "tcp_forward = (\<lambda>a b. b \<in> tcp_successors a)\<^sup>*\<^sup>*"

text \<open>
  One call: the state moves forward, or the socket is closed. A socket that is closed in the
  course of the call stays closed until its end, which makes the relation compose when the
  second part leaves closed sockets alone.
\<close>

definition moves :: "tcp \<Rightarrow> tcp \<Rightarrow> bool" where
  "moves t t' \<longleftrightarrow> (\<forall>i. so_state (sock i t') = TCP_STATE_CLOSED \<or>
                      tcp_forward (so_state (sock i t)) (so_state (sock i t')))"

definition leaves_closed :: "tcp \<Rightarrow> tcp \<Rightarrow> bool" where
  "leaves_closed t t' \<longleftrightarrow> (\<forall>i. so_state (sock i t) = TCP_STATE_CLOSED \<longrightarrow> so_state (sock i t') = TCP_STATE_CLOSED)"

definition same_states :: "tcp \<Rightarrow> tcp \<Rightarrow> bool" where
  "same_states t t' \<longleftrightarrow> (\<forall>i. so_state (sock i t') = so_state (sock i t))"

definition tcp_keeps :: "tcp \<Rightarrow> tcp \<Rightarrow> bool" where
  "tcp_keeps t t' \<longleftrightarrow> tcp_ok t' \<and> same_states t t'"

definition advances :: "tcp \<Rightarrow> tcp \<Rightarrow> bool" where
  "advances t t' \<longleftrightarrow> tcp_ok t' \<and> moves t t' \<and> leaves_closed t t'"

definition opens :: "tcp \<Rightarrow> tcp \<Rightarrow> bool" where
  "opens t t' \<longleftrightarrow> tcp_ok t' \<and> moves t t'"

text \<open>The application's callbacks keep the sockets well formed and do not change their states.\<close>

definition app_keeps :: "tcp_env \<Rightarrow> bool" where
  "app_keeps e \<longleftrightarrow> (\<forall>ev t. tcp_ok t \<longrightarrow> tcp_keeps t (env_app e ev t))"

lemma forward_refl [simp]: "tcp_forward s s"
  by (simp add: tcp_forward_def)

lemma forward_edge: "s' \<in> tcp_successors s \<Longrightarrow> tcp_forward s s'"
  by (auto simp: tcp_forward_def)

lemma forward_trans: "tcp_forward a b \<Longrightarrow> tcp_forward b c \<Longrightarrow> tcp_forward a c"
  by (auto simp: tcp_forward_def)

lemma tcp_keeps_refl: "tcp_ok t \<Longrightarrow> tcp_keeps t t"
  by (simp add: tcp_keeps_def same_states_def)

lemma tcp_keeps_trans: "tcp_keeps t u \<Longrightarrow> tcp_keeps u v \<Longrightarrow> tcp_keeps t v"
  by (simp add: tcp_keeps_def same_states_def)

lemma keeps_advances: "tcp_keeps t u \<Longrightarrow> advances t u"
  by (simp add: tcp_keeps_def advances_def same_states_def moves_def leaves_closed_def)

lemma advances_opens: "advances t u \<Longrightarrow> opens t u"
  by (simp add: advances_def opens_def)

lemma keeps_imp_opens: "tcp_keeps t u \<Longrightarrow> opens t u"
  by (simp add: advances_opens keeps_advances)

lemma advances_refl: "tcp_ok t \<Longrightarrow> advances t t"
  by (simp add: tcp_keeps_refl keeps_advances)

lemma advances_trans:
  assumes "advances t u" "advances u v"
  shows "advances t v"
proof -
  have "so_state (sock i v) = TCP_STATE_CLOSED \<or> tcp_forward (so_state (sock i t)) (so_state (sock i v))" for i
    using assms unfolding advances_def moves_def leaves_closed_def by (metis forward_trans)
  moreover have "leaves_closed t v"
    using assms by (simp add: advances_def leaves_closed_def)
  ultimately show ?thesis
    using assms by (simp add: advances_def moves_def)
qed

lemma opens_keeps: "opens t u \<Longrightarrow> tcp_keeps u v \<Longrightarrow> opens t v"
  by (simp add: opens_def tcp_keeps_def same_states_def moves_def)

lemma keeps_opens: "tcp_keeps t u \<Longrightarrow> opens u v \<Longrightarrow> opens t v"
  by (simp add: opens_def tcp_keeps_def same_states_def moves_def)

lemma keeps_ok: "tcp_keeps t u \<Longrightarrow> tcp_ok u"
  by (simp add: tcp_keeps_def)

lemma advances_ok: "advances t u \<Longrightarrow> tcp_ok u"
  by (simp add: advances_def)

lemma opens_ok: "opens t u \<Longrightarrow> tcp_ok u"
  by (simp add: opens_def)

lemma tcp_okD: "tcp_ok t \<Longrightarrow> socket_ok (sock i t)"
  by (simp add: tcp_ok_def)

lemma tcp_ok_rx: "tcp_ok t \<Longrightarrow> tb_data (rx_buffer (sock i t)) = Some d \<Longrightarrow> rx_ok (rx_buffer (sock i t))"
  using tcp_okD [of t i] by (simp add: socket_ok_def)

lemma socket_ok_update [simp]:
  "socket_ok (s\<lparr>conn := c\<rparr>) = socket_ok s"
  "socket_ok (s\<lparr>local_port := p\<rparr>) = socket_ok s"
  "socket_ok (s\<lparr>remote_port := p\<rparr>) = socket_ok s"
  "socket_ok (s\<lparr>local_addr := a\<rparr>) = socket_ok s"
  "socket_ok (s\<lparr>remote_addr := a\<rparr>) = socket_ok s"
  "socket_ok (s\<lparr>so_next := n\<rparr>) = socket_ok s"
  "socket_ok (s\<lparr>so_options := w\<rparr>) = socket_ok s"
  "socket_ok (s\<lparr>connected_callback := b\<rparr>) = socket_ok s"
  "socket_ok (s\<lparr>data_ready_callback := b\<rparr>) = socket_ok s"
  "socket_ok (s\<lparr>sent_callback := b\<rparr>) = socket_ok s"
  "socket_ok (s\<lparr>closed_callback := b\<rparr>) = socket_ok s"
  "socket_ok (s\<lparr>listener := Some l\<rparr>) = ((tb_data (rx_buffer s) \<noteq> None \<longrightarrow> rx_ok (rx_buffer s)))"
  by (simp_all add: socket_ok_def)

lemma keeps_upd:
  "tcp_ok t \<Longrightarrow> socket_ok (f (sock i t)) \<Longrightarrow> so_state (f (sock i t)) = so_state (sock i t) \<Longrightarrow>
     tcp_keeps t (upd_sock i f t)"
  by (simp add: tcp_keeps_def tcp_ok_def same_states_def)

lemma opens_upd:
  "tcp_ok t \<Longrightarrow> socket_ok (f (sock i t)) \<Longrightarrow>
     so_state (f (sock i t)) \<in> insert TCP_STATE_CLOSED (insert (so_state (sock i t)) (tcp_successors (so_state (sock i t)))) \<Longrightarrow>
     opens t (upd_sock i f t)"
  by (auto simp: opens_def tcp_ok_def moves_def forward_edge)

lemma advances_upd:
  "tcp_ok t \<Longrightarrow> socket_ok (f (sock i t)) \<Longrightarrow> so_state (sock i t) \<noteq> TCP_STATE_CLOSED \<Longrightarrow>
     so_state (f (sock i t)) \<in> insert TCP_STATE_CLOSED (insert (so_state (sock i t)) (tcp_successors (so_state (sock i t)))) \<Longrightarrow>
     advances t (upd_sock i f t)"
  by (auto simp: advances_def tcp_ok_def moves_def leaves_closed_def forward_edge)

lemma closes: "tcp_ok t \<Longrightarrow> advances t (set_state i TCP_STATE_CLOSED t)"
  by (auto simp: advances_def tcp_ok_def moves_def leaves_closed_def socket_ok_def)

lemma keeps_fields [simp]:
  "tcp_keeps t (tcp_sent_update f u) = tcp_keeps t u"
  "tcp_keeps t (tcp_attempts_update g u) = tcp_keeps t u"
  "tcp_keeps t (time_wait_sockets_update h u) = tcp_keeps t u"
  "tcp_keeps t (last_dynamic_port_update k u) = tcp_keeps t u"
  by (simp_all add: tcp_keeps_def same_states_def tcp_ok_def)

lemma advances_fields [simp]:
  "advances t (tcp_sent_update f u) = advances t u"
  "advances t (time_wait_sockets_update h u) = advances t u"
  by (simp_all add: advances_def moves_def leaves_closed_def tcp_ok_def)

lemma keeps_notify:
  "app_keeps e \<Longrightarrow> tcp_ok t \<Longrightarrow> tcp_keeps t (notify e b ev t)"
  by (auto simp: notify_def app_keeps_def tcp_keeps_refl)

section \<open>Transmission and reception\<close>

lemma send_segment_keeps:
  assumes "tcp_ok t" "unat len = 0 \<or> (\<exists>bytes. data = Some bytes \<and> unat len \<le> length bytes)"
  shows "returns (tcp_send_segment e (Some i) flags data len t) (\<lambda>(_, t'). tcp_keeps t t')"
proof -
  have "\<exists>bytes. segment_data data len = Done bytes"
    using assms(2) by (auto simp: segment_data_def unat_eq_0)
  then obtain bytes where "segment_data data len = Done bytes" ..
  moreover have "tcp_keeps t (upd_sock i (\<lambda>s. s\<lparr>conn := (conn s)\<lparr>snd_nxt := f (snd_nxt (conn s))\<rparr>\<rparr>) t)" for f
    using assms(1) by (intro keeps_upd) (simp_all add: tcp_okD)
  ultimately show ?thesis
    using assms(1)
    by (auto simp: tcp_send_segment_def Let_def tcp_keeps_refl split: option.split)
qed

lemmas send_control_keeps = send_segment_keeps [where data = None and len = 0, simplified]

lemma time_wait_advances:
  "tcp_ok t \<Longrightarrow> advances t (tcp_start_time_wait e (Some i) t)"
  by (auto simp: tcp_start_time_wait_def advances_refl closes split: option.split)

lemma conn_keeps: "tcp_ok t \<Longrightarrow> tcp_keeps t (upd_conn i f t)"
  by (intro keeps_upd) (simp_all add: tcp_okD)

lemma notify_advances:
  "app_keeps e \<Longrightarrow> advances t u \<Longrightarrow> advances t (notify e b ev u)"
  by (meson advances_ok advances_trans keeps_advances keeps_notify)

lemma time_wait_after:
  "advances t u \<Longrightarrow> advances t (tcp_start_time_wait e (Some i) u)"
  by (meson advances_ok advances_trans time_wait_advances)

lemma state_advances:
  "tcp_ok t \<Longrightarrow> s' \<in> tcp_successors (so_state (sock i t)) \<Longrightarrow> so_state (sock i t) \<noteq> TCP_STATE_CLOSED \<Longrightarrow>
     s' \<noteq> TCP_STATE_LISTEN \<Longrightarrow> advances t (set_state i s' t)"
  by (intro advances_upd) (auto simp: socket_ok_def dest: tcp_okD [where i = i])

lemma returns_advances:
  "advances t u \<Longrightarrow> returns m (\<lambda>(_, v). advances u v) \<Longrightarrow> returns m (\<lambda>(_, v). advances t v)"
  by (erule returns_mono) (auto intro: advances_trans)

lemma returns_keeps:
  "returns m (\<lambda>(_, v). tcp_keeps t v) \<Longrightarrow> returns m (\<lambda>(_, v). advances t v)"
  by (erule returns_mono) (auto intro: keeps_advances)

lemma process_ack_advances:
  assumes "app_keeps e" "tcp_ok t"
  shows "returns (tcp_process_ack e i ack window t) (\<lambda>(_, t'). advances t t')"
proof -
  define u where "u = upd_conn i (\<lambda>c. c\<lparr>snd_wnd := ucast window\<rparr>) t"
  define v where "v = upd_conn i (\<lambda>c. c\<lparr>snd_una := ack\<rparr>) u"
  have u: "tcp_keeps t u" "tcp_ok u"
    using conn_keeps [OF assms(2)] by (auto simp: u_def dest: keeps_ok)
  have v: "advances t v" "tcp_ok v"
    using conn_keeps [OF u(2)] u(1) by (auto simp: v_def intro: keeps_advances tcp_keeps_trans dest: keeps_ok)
  note adv = state_advances [OF v(2), of _ i]
  note cl = closes [OF v(2), of i]
  have "returns (tcp_process_ack e i ack window t) (\<lambda>(_, t'). advances v t')"
    if "\<not> (ack \<le> snd_una (conn (sock i u)) \<or> ack > snd_nxt (conn (sock i u)))"
  proof -
    have rst: "returns (tcp_send_segment e (Some i) TCP_FLAG_RST None 0 (set_state i TCP_STATE_CLOSED v)) (\<lambda>(_, t'). advances v t')"
      using returns_advances [OF cl returns_keeps [OF send_control_keeps [OF advances_ok [OF cl]]]] .
    show ?thesis
      using that rst adv cl assms(1)
      by (cases "so_state (sock i v)")
        (auto simp: tcp_process_ack_def Let_def simp flip: u_def v_def
          intro: advances_refl v(2) notify_advances time_wait_after)
  qed
  then show ?thesis
    using u(1) returns_advances [OF v(1)]
    by (cases "ack \<le> snd_una (conn (sock i u)) \<or> ack > snd_nxt (conn (sock i u))")
      (auto simp: tcp_process_ack_def Let_def keeps_advances simp flip: u_def v_def)
qed


lemma buffer_write_keeps:
  assumes "tcp_ok t" "unat len \<le> length bytes" "unat len < 2 ^ 31"
  shows "returns (tcp_buffer_write (Some i) (Some bytes) len t) (\<lambda>(_, t'). tcp_keeps t t')"
proof (cases "tb_data (rx_buffer (sock i t)) = None")
  case True
  then show ?thesis
    using assms(1) by (simp add: tcp_buffer_write_def Let_def tcp_keeps_refl)
next
  case False
  then have ok: "rx_ok (rx_buffer (sock i t))"
    using tcp_okD [OF assms(1), of i] by (simp add: socket_ok_def)
  have "tcp_keeps t (upd_sock i (\<lambda>s. s\<lparr>rx_buffer := b\<rparr>) t)" if "rx_ok b" for b
    using that assms(1) tcp_okD [OF assms(1), of i] by (intro keeps_upd) (simp_all add: socket_ok_def)
  then show ?thesis
    using tcp_buffer_write_spec [OF ok assms(2,3)] assms(1) by (auto split: if_splits simp: tcp_keeps_refl)
qed

lemma returns_keeps_trans:
  "tcp_keeps t u \<Longrightarrow> returns m (\<lambda>(_, v). tcp_keeps u v) \<Longrightarrow> returns m (\<lambda>(_, v). tcp_keeps t v)"
  by (erule returns_mono) (auto intro: tcp_keeps_trans)

lemma send_control_after:
  "tcp_keeps t u \<Longrightarrow> returns (tcp_send_segment e (Some i) flags None 0 u) (\<lambda>(_, v). tcp_keeps t v)"
  by (rule returns_mono [OF send_control_keeps [OF keeps_ok]]) (auto intro: tcp_keeps_trans)

lemma process_data_keeps:
  assumes "app_keeps e" "tcp_ok t" "length data < 2 ^ 31"
  shows "returns (tcp_process_data e i data seq t) (\<lambda>(_, t'). tcp_keeps t t')"
proof -
  let ?n = "of_nat (length data) :: u32"
  let ?u = "upd_conn i (\<lambda>c. c\<lparr>rcv_nxt := rcv_nxt c + ?n\<rparr>) t"
  have u: "tcp_keeps t ?u"
    using assms(2) by (rule conn_keeps)
  have n: "unat ?n = length data"
    using assms(3) by (intro unat_of_nat_u32) simp
  have "returns (tcp_buffer_write (Some i) (Some data) ?n ?u) (\<lambda>(_, v). tcp_keeps t v)"
    by (rule returns_keeps_trans [OF u buffer_write_keeps [OF keeps_ok [OF u]]]) (use n assms(3) in simp_all)
  moreover have "tcp_keeps t v \<Longrightarrow> tcp_keeps t (notify e b ev v)" for v b ev
    using keeps_notify [OF assms(1)] keeps_ok tcp_keeps_trans by blast
  ultimately show ?thesis
    using send_control_after [OF tcp_keeps_refl [OF assms(2)]]
    by (auto simp: tcp_process_data_def Let_def elim!: returns_mono intro!: send_control_after)
qed

lemma send_control_advances:
  "advances t u \<Longrightarrow> returns (tcp_send_segment e (Some i) flags None 0 u) (\<lambda>(_, v). advances t v)"
  by (rule returns_advances [OF _ returns_keeps [OF send_control_keeps [OF advances_ok]]])

lemma send_control_then:
  "advances t u \<Longrightarrow> (\<And>v. advances t v \<Longrightarrow> advances t (g v)) \<Longrightarrow>
     returns (tcp_send_segment e (Some i) flags None 0 u) (\<lambda>(_, v). advances t (g v))"
  by (rule returns_mono [OF send_control_advances]) auto

lemma process_fin_advances:
  assumes "app_keeps e" "tcp_ok t"
  shows "returns (tcp_process_fin e i seq t) (\<lambda>(_, t'). advances t t')"
proof -
  let ?u = "upd_conn i (\<lambda>c. c\<lparr>rcv_nxt := seq + 1\<rparr>) t"
  have u: "advances t ?u" "tcp_ok ?u"
    using conn_keeps [OF assms(2)] by (auto intro: keeps_advances dest: keeps_ok)
  note adv = advances_trans [OF u(1) state_advances [OF u(2), of _ i]]
  show ?thesis
    using adv u(1) assms(1)
    by (cases "so_state (sock i t)")
      (auto simp: tcp_process_fin_def Let_def intro!: send_control_advances send_control_then notify_advances time_wait_after)
qed


text \<open>A block that \<^verbatim>\<open>malloc\<close> gave for a receive buffer has the size asked for.\<close>

definition mem_ok :: "u8 list option \<Rightarrow> bool" where
  "mem_ok mem \<longleftrightarrow> (case mem of None \<Rightarrow> True | Some d \<Rightarrow> length d = unat TCP_DEFAULT_BUFFER_SIZE)"

lemma buffer_init_result:
  "tcp_buffer_init mem (Some i) n t =
     (if mem = None then - 1 else 0,
      upd_sock i (\<lambda>s. s\<lparr>rx_buffer := (case mem of None \<Rightarrow> (rx_buffer s)\<lparr>tb_data := None\<rparr>
        | Some d \<Rightarrow> \<lparr>tb_data = Some d, tb_size = n, tb_start = 0, tb_end = 0, tb_available = 0\<rparr>)\<rparr>) t)"
proof -
  have all: "b\<lparr>tb_data := m, tb_size := n, tb_start := 0, tb_end := 0, tb_available := 0\<rparr> =
        \<lparr>tb_data = m, tb_size = n, tb_start = 0, tb_end = 0, tb_available = 0\<rparr>" for b :: tcp_buffer and m
    by (cases b) simp
  show ?thesis
    by (simp add: tcp_buffer_init_def Let_def all split: option.split)
qed

lemma rx_ok_fresh:
  "length d = unat TCP_DEFAULT_BUFFER_SIZE \<Longrightarrow>
     rx_ok \<lparr>tb_data = Some d, tb_size = TCP_DEFAULT_BUFFER_SIZE, tb_start = 0, tb_end = 0, tb_available = 0\<rparr>"
  by (simp add: rx_ok_def ring_ok_def TCP_DEFAULT_BUFFER_SIZE_def)

lemma buffer_init_keeps:
  assumes "mem_ok mem" "tcp_ok t"
  shows "tcp_keeps t (snd (tcp_buffer_init mem (Some i) TCP_DEFAULT_BUFFER_SIZE t))"
  using assms tcp_okD [OF assms(2), of i]
  by (auto simp: buffer_init_result mem_ok_def socket_ok_def rx_ok_fresh split: option.split intro!: keeps_upd)

lemma free_socket_closed:
  "free_socket t = Some i \<Longrightarrow> so_state (sock i t) = TCP_STATE_CLOSED \<and> i < TCP_MAX_SOCKETS"
  by (auto simp: free_socket_def find_Some_iff)

lemma opens_send:
  "opens t u \<Longrightarrow> returns (tcp_send_segment e (Some i) flags None 0 u) (\<lambda>(_, v). opens t v)"
  by (rule returns_mono [OF send_control_keeps [OF opens_ok]]) (auto intro: opens_keeps)

lemma process_syn_opens:
  assumes "mem_ok mem" "tcp_ok t"
  shows "returns (tcp_process_syn e mem i src sport dst dport seq window t) (\<lambda>(_, t'). opens t t')"
proof -
  have refl: "opens t t"
    using assms(2) by (simp add: advances_opens advances_refl)
  show ?thesis
  proof (cases "so_state (sock i t) = TCP_STATE_LISTEN")
    case True
    then obtain l where l: "listener (sock i t) = Some l"
      using tcp_okD [OF assms(2), of i] by (auto simp: socket_ok_def)
    show ?thesis
    proof (cases "free_socket t")
      case None
      with True l refl show ?thesis
        by (simp add: tcp_process_syn_def)
    next
      case (Some j)
      define u where "u = upd_sock j (\<lambda>_. new_connection (tcp_initial_seq t) src sport dst dport seq window) t"
      define v where "v = snd (tcp_buffer_init mem (Some j) TCP_DEFAULT_BUFFER_SIZE u)"
      have u: "opens t u"
        unfolding u_def using assms(2) free_socket_closed [OF Some]
        by (intro opens_upd) (simp_all add: socket_ok_def new_connection_def zero_socket_def)
      have v: "opens t v"
        unfolding v_def by (rule opens_keeps [OF u buffer_init_keeps [OF assms(1) opens_ok [OF u]]])
      have w: "tcp_keeps v (upd_sock i (\<lambda>s. s\<lparr>listener := Some l'\<rparr>) (upd_sock j (\<lambda>s. s\<lparr>so_next := n\<rparr>) v))" for l' n
        using v unfolding opens_def
        by (auto simp: tcp_keeps_def same_states_def tcp_ok_def) (auto simp: socket_ok_def)
      show ?thesis
        using True l Some refl v opens_send [OF opens_keeps [OF v w]]
        by (simp add: tcp_process_syn_def Let_def split_beta flip: u_def v_def)
    qed
  qed (simp add: tcp_process_syn_def refl)
qed

lemma rx_syn_opens:
  assumes "app_keeps e" "mem_ok mem" "tcp_ok t"
  shows "returns (tcp_rx_syn e mem h src dst socket t) (\<lambda>(_, t'). opens t t')"
proof (cases socket)
  case None
  then show ?thesis
    using assms(3) by (simp add: tcp_rx_syn_def advances_opens advances_refl)
next
  case (Some i)
  have refl: "opens t t"
    using assms(3) by (simp add: advances_opens advances_refl)
  have "advances t (upd_sock i (\<lambda>s. s\<lparr>so_state := TCP_STATE_ESTABLISHED, conn := g s\<rparr>) t)"
    if "so_state (sock i t) = TCP_STATE_SYN_SENT" for g
    using that tcp_okD [OF assms(3), of i]
    by (intro advances_upd [OF assms(3)]) (simp_all add: socket_ok_def)
  then have "returns (tcp_send_segment e (Some i) TCP_FLAG_ACK None 0
      (upd_sock i (\<lambda>s. s\<lparr>so_state := TCP_STATE_ESTABLISHED, conn := g s\<rparr>) t))
      (\<lambda>(_, v). opens t (notify e (connected_callback (sock i v)) (Connected i) v))"
    if "so_state (sock i t) = TCP_STATE_SYN_SENT" for g
    using that by (intro returns_mono [OF send_control_advances]) (auto intro: advances_opens notify_advances assms(1))
  then show ?thesis
    using Some refl process_syn_opens [OF assms(2,3)] by (simp add: tcp_rx_syn_def)
qed


lemma returns_opens: "returns m (\<lambda>(_, v). advances t v) \<Longrightarrow> returns m (\<lambda>(_, v). opens t v)"
  by (erule returns_mono) (auto intro: advances_opens)

lemma returns_chain:
  "returns m (\<lambda>(_, u). advances t u) \<Longrightarrow> (\<And>u. advances t u \<Longrightarrow> returns (f u) (\<lambda>(_, v). advances t v)) \<Longrightarrow>
     returns (rbind m (\<lambda>(_, u). f u)) (\<lambda>(_, v). advances t v)"
  by (auto elim!: returns_mono)

lemma rx_segment_opens:
  assumes "app_keeps e" "mem_ok mem" "tcp_ok t" "length data < 2 ^ 31"
  shows "returns (tcp_rx_segment e mem h data src dst t) (\<lambda>(_, t'). opens t t')"
proof -
  define socket where "socket = tcp_find_socket e (swap16 (h_dest_port h)) dst (swap16 (h_src_port h)) src t"
  have refl: "advances t t" "opens t t"
    using assms(3) by (simp_all add: advances_opens advances_refl)
  have rst: "opens t (notify e (closed_callback (sock i u)) (Closed i) u)" if "u = set_state i TCP_STATE_CLOSED t" for i u
    using that closes [OF assms(3)] by (auto intro: advances_opens notify_advances assms(1))
  have main: "returns (rbind (if a then tcp_process_ack e i ack w t else Done (0, t)) (\<lambda>(_, t).
      rbind (if d then tcp_process_data e i data seq t else Done (0, t)) (\<lambda>(_, t).
      rbind (if f then tcp_process_fin e i fin t else Done (0, t)) (\<lambda>(_, t). Done (0 :: int, t))))) (\<lambda>(_, v). advances t v)"
    for i a ack w d seq f fin
  proof (rule returns_chain)
    show "returns (if a then tcp_process_ack e i ack w t else Done (0, t)) (\<lambda>(_, u). advances t u)"
      using process_ack_advances [OF assms(1,3)] refl by simp
    fix u
    assume u: "advances t u"
    show "returns (rbind (if d then tcp_process_data e i data seq u else Done (0, u)) (\<lambda>(_, t).
      rbind (if f then tcp_process_fin e i fin t else Done (0, t)) (\<lambda>(_, t). Done (0 :: int, t)))) (\<lambda>(_, v). advances t v)"
    proof (rule returns_chain)
      show "returns (if d then tcp_process_data e i data seq u else Done (0, u)) (\<lambda>(_, v). advances t v)"
        using returns_advances [OF u returns_keeps [OF process_data_keeps [OF assms(1) advances_ok [OF u] assms(4)]]] u by simp
      fix v
      assume v: "advances t v"
      show "returns (rbind (if f then tcp_process_fin e i fin v else Done (0, v)) (\<lambda>(_, t). Done (0 :: int, t))) (\<lambda>(_, w). advances t w)"
        using returns_advances [OF v process_fin_advances [OF assms(1) advances_ok [OF v]]] v by simp
    qed
  qed
  show ?thesis
    using rx_syn_opens [OF assms(1-3)] refl(2) rst [OF HOL.refl] returns_opens [OF main]
    by (simp add: tcp_rx_segment_def Let_def split: option.split flip: socket_def)
qed

lemma rx_opens:
  assumes "app_keeps e" "mem_ok mem" "tcp_ok t" "case packet of None \<Rightarrow> True | Some (bytes, _) \<Rightarrow> length bytes < 2 ^ 31"
  shows "returns (tcp_rx e mem packet t) (\<lambda>(_, t'). opens t t')"
proof -
  have refl: "opens t t"
    using assms(3) by (simp_all add: advances_opens advances_refl)
  show ?thesis
  proof (cases packet)
    case (Some p)
    obtain bytes src dst where p: "p = (bytes, src, dst)"
      by (cases p)
    with Some assms(4) have "length (drop n bytes) < 2 ^ 31" for n
      by simp
    note seg = rx_segment_opens [OF assms(1-3) this]
    show ?thesis
      using Some p refl seg by (simp add: tcp_rx_def Let_def)
  qed (simp add: tcp_rx_def refl)
qed

section \<open>The socket calls\<close>

lemma free_port_keeps: "tcp_ok t \<Longrightarrow> tcp_keeps t (snd (tcp_get_free_port t))"
  by (simp add: tcp_get_free_port_def Let_def tcp_keeps_refl)

lemma create_opens:
  assumes "mem_ok mem" "tcp_ok t"
  shows "opens t (snd (tcp_socket_create e mem addr port t))"
proof (cases "free_socket t")
  case None
  then show ?thesis
    using assms(2) by (simp add: tcp_socket_create_def advances_opens advances_refl)
next
  case (Some i)
  define u where "u = upd_sock i (\<lambda>_. zero_socket\<lparr>local_addr := (case addr of Some a \<Rightarrow> a | None \<Rightarrow> IPv4 0 0 0 0)\<rparr>) t"
  have u: "tcp_keeps t u"
    unfolding u_def using free_socket_closed [OF Some]
    by (intro keeps_upd [OF assms(2)]) (simp_all add: zero_socket_def socket_ok_def)
  have port: "tcp_keeps v (upd_sock i (\<lambda>s. s\<lparr>local_port := p\<rparr>) v)" if "tcp_ok v" for v p
    using that by (intro keeps_upd) (simp_all add: tcp_okD)
  have fin: "tcp_keeps t (snd (tcp_buffer_init mem (Some i) TCP_DEFAULT_BUFFER_SIZE (upd_sock i (\<lambda>s. s\<lparr>conn := g s\<rparr>) v)))"
    if "tcp_keeps t v" for v g
  proof -
    have "tcp_keeps v (upd_sock i (\<lambda>s. s\<lparr>conn := g s\<rparr>) v)"
      using keeps_ok [OF that] by (intro keeps_upd) (simp_all add: tcp_okD)
    note c = tcp_keeps_trans [OF that this]
    show ?thesis
      by (rule tcp_keeps_trans [OF c buffer_init_keeps [OF assms(1) keeps_ok [OF c]]])
  qed
  have v: "tcp_keeps t (upd_sock i (\<lambda>s. s\<lparr>local_port := p\<rparr>) u)" for p
    by (rule tcp_keeps_trans [OF u port [OF keeps_ok [OF u]]])
  have x: "tcp_keeps t (snd (tcp_get_free_port u))"
    by (rule tcp_keeps_trans [OF u free_port_keeps [OF keeps_ok [OF u]]])
  have w: "tcp_keeps t (upd_sock i (\<lambda>s. s\<lparr>local_port := p\<rparr>) (snd (tcp_get_free_port u)))" for p
    by (rule tcp_keeps_trans [OF x port [OF keeps_ok [OF x]]])
  show ?thesis
    using Some
    by (simp add: tcp_socket_create_def Let_def split_beta keeps_advances advances_opens fin u v w
        del: upd_sock_upd_sock flip: u_def)
qed


lemma bind_keeps:
  assumes "tcp_ok t"
  shows "tcp_keeps t (snd (tcp_socket_bind e socket addr port t))"
proof -
  have upd: "tcp_keeps t (upd_sock i (\<lambda>s. s\<lparr>local_port := p\<rparr>) u)" "tcp_keeps t (upd_sock i (\<lambda>s. s\<lparr>local_addr := a\<rparr>) u)"
    if "tcp_keeps t u" for u i p a
    by (rule tcp_keeps_trans [OF that keeps_upd [OF keeps_ok [OF that]]], simp_all add: tcp_okD keeps_ok [OF that])+
  have port: "tcp_keeps t (snd (tcp_get_free_port t))"
    using assms by (rule free_port_keeps)
  show ?thesis
    using assms
    by (simp add: tcp_socket_bind_def Let_def split_beta upd port tcp_keeps_refl del: upd_sock_upd_sock split: option.split)
qed

lemma listen_opens: "tcp_ok t \<Longrightarrow> opens t (snd (tcp_socket_listen mem socket n t))"
  by (auto simp: tcp_socket_listen_def advances_opens advances_refl socket_ok_def
      dest: tcp_ok_rx split: option.split intro!: opens_upd)

lemma accept_advances:
  assumes "tcp_ok t"
  shows "advances t (snd (tcp_socket_accept socket t))"
proof -
  have "tcp_keeps t (upd_sock j (\<lambda>s. s\<lparr>so_next := None\<rparr>) (upd_sock i (\<lambda>s. s\<lparr>listener := Some l\<rparr>) t))" for i j l
    using assms by (auto simp: tcp_keeps_def same_states_def tcp_ok_def) (auto simp: socket_ok_def)
  note k = this keeps_ok [OF this]
  show ?thesis
    using assms
    by (auto simp: tcp_socket_accept_def Let_def advances_refl k intro: keeps_advances advances_trans [OF keeps_advances [OF k(1)] state_advances [OF k(2)]]
        simp del: upd_sock_upd_sock split: option.split)
qed

lemma start_connect_opens:
  assumes "mem_ok mem" "tcp_keeps t u" "so_state (sock i u) = TCP_STATE_CLOSED"
  shows "returns (start_connect e mem i u) (\<lambda>(_, t'). opens t t')"
proof -
  have "opens u (upd_sock i (\<lambda>s. s\<lparr>so_state := TCP_STATE_SYN_SENT, conn := g s\<rparr>) u)" for g
    using keeps_ok [OF assms(2)] assms(3) tcp_okD [of u i] by (intro opens_upd) (simp_all add: socket_ok_def)
  note v = keeps_opens [OF assms(2) this]
  note w = opens_keeps [OF v buffer_init_keeps [OF assms(1) opens_ok [OF v]]]
  show ?thesis
    using w opens_send [OF w] by (simp add: start_connect_def Let_def split_beta)
qed

definition devices_valid :: "net_state \<Rightarrow> bool" where
  "devices_valid ns \<longleftrightarrow> (case network_get_default_device ns of None \<Rightarrow> True | Some p \<Rightarrow> ns_store ns p \<noteq> None)"

lemma connect_opens:
  assumes "mem_ok mem" "tcp_ok t" "devices_valid ns"
  shows "returns (tcp_socket_connect e mem ns socket addr port t) (\<lambda>(_, t'). opens t t')"
proof (cases "\<exists>i a. socket = Some i \<and> addr = Some a \<and> so_state (sock i t) = TCP_STATE_CLOSED")
  case True
  then obtain i a where i: "socket = Some i" "addr = Some a" "so_state (sock i t) = TCP_STATE_CLOSED"
    by auto
  define u where "u = upd_sock i (\<lambda>s. s\<lparr>remote_addr := a, remote_port := port\<rparr>) t"
  have u: "tcp_keeps t u"
    unfolding u_def using assms(2) by (intro keeps_upd) (simp_all add: tcp_okD)
  have upd: "tcp_keeps t (upd_sock i (\<lambda>s. s\<lparr>local_port := p\<rparr>) v)" "tcp_keeps t (upd_sock i (\<lambda>s. s\<lparr>local_addr := b\<rparr>) v)"
    if "tcp_keeps t v" for v p b
    by (rule tcp_keeps_trans [OF that keeps_upd [OF keeps_ok [OF that]]], simp_all add: tcp_okD keeps_ok [OF that])+
  have port: "tcp_keeps t (snd (tcp_get_free_port v))" if "tcp_keeps t v" for v
    by (rule tcp_keeps_trans [OF that free_port_keeps [OF keeps_ok [OF that]]])
  have closed: "so_state (sock i v) = TCP_STATE_CLOSED" if "tcp_keeps t v" for v
    using that i(3) by (simp add: tcp_keeps_def same_states_def)
  have conn: "returns (start_connect e mem i v) (\<lambda>(_, t'). opens t t')" if "tcp_keeps t v" for v
    using assms(1) that closed [OF that] by (rule start_connect_opens)
  have opens: "opens t v" if "tcp_keeps t v" for v
    using that by (intro advances_opens keeps_advances)
  have "\<exists>la. (if env_is_any e (local_addr (sock i u)) then default_local_addr ns else Done (Some (local_addr (sock i u)))) = Done la"
    using assms(3) by (auto simp: default_local_addr_def devices_valid_def split: option.split)
  then obtain la where la: "(if env_is_any e (local_addr (sock i u)) then default_local_addr ns else Done (Some (local_addr (sock i u)))) = Done la" ..
  show ?thesis
    using i la u
    by (simp add: tcp_socket_connect_def Let_def split_beta opens conn upd port
        del: upd_sock_upd_sock split: option.split flip: u_def)
next
  case False
  then show ?thesis
    using assms(2) by (auto simp: tcp_socket_connect_def advances_opens advances_refl split: option.split)
qed

lemma close_advances:
  assumes "tcp_ok t"
  shows "returns (tcp_socket_close e socket t) (\<lambda>(_, t'). advances t t')"
proof (cases socket)
  case None
  then show ?thesis
    using assms by (simp add: tcp_socket_close_def advances_refl)
next
  case (Some i)
  have "advances t (upd_sock i (\<lambda>s. s\<lparr>listener := None, so_state := TCP_STATE_CLOSED\<rparr>) t)" if "so_state (sock i t) = TCP_STATE_LISTEN"
    using that assms tcp_okD [OF assms, of i] by (intro advances_upd) (simp_all add: socket_ok_def)
  then show ?thesis
    using Some assms state_advances [OF assms, of _ i]
    by (cases "so_state (sock i t)")
      (simp_all add: tcp_socket_close_def advances_refl closes send_control_advances)
qed

lemma send_keeps:
  assumes "app_keeps e" "tcp_ok t" "case data of None \<Rightarrow> True | Some bytes \<Rightarrow> unat len \<le> length bytes"
  shows "returns (tcp_socket_send e socket data len t) (\<lambda>(_, t'). tcp_keeps t t')"
proof (cases "\<exists>i bytes. socket = Some i \<and> data = Some bytes \<and> so_state (sock i t) = TCP_STATE_ESTABLISHED")
  case True
  then obtain i bytes where i: "socket = Some i" "data = Some bytes" "so_state (sock i t) = TCP_STATE_ESTABLISHED"
    by auto
  have "returns (tcp_send_segment e (Some i) (TCP_FLAG_PSH OR TCP_FLAG_ACK) data len t) (\<lambda>(_, t'). tcp_keeps t t')"
    using assms(2,3) i(2) by (intro send_segment_keeps) auto
  moreover have "tcp_keeps t (notify e b ev u)" if "tcp_keeps t u" for b ev u
    using that keeps_notify [OF assms(1) keeps_ok [OF that]] by (rule tcp_keeps_trans)
  ultimately show ?thesis
    using i by (auto simp: tcp_socket_send_def elim!: returns_mono)
next
  case False
  then show ?thesis
    using assms(2) by (auto simp: tcp_socket_send_def tcp_keeps_refl split: option.split)
qed

lemma recv_keeps:
  assumes "tcp_ok t" "case out of None \<Rightarrow> True | Some arr \<Rightarrow> unat len \<le> length arr"
  shows "returns (tcp_socket_recv socket out len t) (\<lambda>(_, _, t'). tcp_keeps t t')"
proof (cases "\<exists>i arr. socket = Some i \<and> out = Some arr \<and> tb_data (rx_buffer (sock i t)) \<noteq> None")
  case True
  then obtain i arr where i: "socket = Some i" "out = Some arr" "tb_data (rx_buffer (sock i t)) \<noteq> None"
    by blast
  have ok: "rx_ok (rx_buffer (sock i t))"
    using tcp_okD [OF assms(1), of i] i(3) by (simp add: socket_ok_def)
  have "tcp_keeps t (upd_sock i (\<lambda>s. s\<lparr>rx_buffer := b\<rparr>) t)" if "rx_ok b" for b
    using that assms(1) tcp_okD [OF assms(1), of i] by (intro keeps_upd) (simp_all add: socket_ok_def)
  moreover have le: "min (unat len) (length (stream (rx_buffer (sock i t)))) \<le> length arr"
    using assms(2) i(2) by simp
  ultimately have "returns (tcp_buffer_read (Some i) out len t) (\<lambda>(_, _, t'). tcp_keeps t t')"
    using tcp_buffer_read_spec [OF ok refl le] i(2) by auto
  then show ?thesis
    using i assms(1) by (simp add: tcp_socket_recv_def tcp_keeps_refl)
next
  case False
  then show ?thesis
    using assms(1) by (auto simp: tcp_socket_recv_def tcp_buffer_read_def Let_def tcp_keeps_refl split: option.split)
qed


lemma expire_advances: "tcp_ok t \<Longrightarrow> advances t (expire_time_wait e k t)"
  using closes [of t] by (auto simp: expire_time_wait_def Let_def advances_refl split: option.split)

lemma tick_advances:
  assumes "app_keeps e" "tcp_ok t"
  shows "advances t (retransmit_tick e msec i t)"
proof -
  have k: "tcp_keeps t (upd_sock i (\<lambda>s. s\<lparr>conn := g s\<rparr>) t)" for g
    using assms(2) by (intro keeps_upd) (simp_all add: tcp_okD)
  note c = advances_trans [OF keeps_advances [OF k] closes [OF keeps_ok [OF k]]]
  show ?thesis
    using assms by (simp add: retransmit_tick_def Let_def advances_refl k keeps_advances notify_advances c del: upd_sock_upd_sock)
qed

lemma fold_advances:
  assumes "\<And>x t. tcp_ok t \<Longrightarrow> advances t (f x t)" "tcp_ok t"
  shows "advances t (fold f xs t)"
  using assms(2)
proof (induction xs arbitrary: t)
  case (Cons x xs)
  from assms(1) [OF Cons.prems, of x] show ?case
    using Cons.IH [OF advances_ok] advances_trans by fastforce
qed (simp add: advances_refl)

lemma timer_advances:
  assumes "app_keeps e" "tcp_ok t"
  shows "advances t (tcp_timer e msec t)"
proof -
  have "advances t (fold (expire_time_wait e) [0..<TCP_MAX_TIME_WAIT_SOCKETS] t)"
    by (rule fold_advances [OF expire_advances assms(2)])
  note a = this fold_advances [OF tick_advances [OF assms(1)] advances_ok [OF this]]
  show ?thesis
    unfolding tcp_timer_def by (rule advances_trans [OF a])
qed

section \<open>All entry points\<close>

datatype tcp_call =
    Rx "u8 list option" "(u8 list \<times> ipv4_address \<times> ipv4_address) option"
  | Create "u8 list option" "ipv4_address option" u16
  | Bind "sptr option" "ipv4_address option" u16
  | Listen bool "sptr option" u16
  | Accept "sptr option"
  | Connect "u8 list option" net_state "sptr option" "ipv4_address option" u16
  | Close "sptr option"
  | Send "sptr option" "u8 list option" u32
  | Recv "sptr option" "u8 list option" u32
  | Callbacks "sptr option" bool bool bool bool
  | Options "sptr option" u8
  | Timer u32

text \<open>The state after a call.\<close>

fun tcp_exec :: "tcp_env \<Rightarrow> tcp_call \<Rightarrow> tcp \<Rightarrow> tcp run" where
  "tcp_exec e (Rx mem packet) t = rmap snd (tcp_rx e mem packet t)"
| "tcp_exec e (Create mem addr port) t = Done (snd (tcp_socket_create e mem addr port t))"
| "tcp_exec e (Bind socket addr port) t = Done (snd (tcp_socket_bind e socket addr port t))"
| "tcp_exec e (Listen mem socket n) t = Done (snd (tcp_socket_listen mem socket n t))"
| "tcp_exec e (Accept socket) t = Done (snd (tcp_socket_accept socket t))"
| "tcp_exec e (Connect mem ns socket addr port) t = rmap snd (tcp_socket_connect e mem ns socket addr port t)"
| "tcp_exec e (Close socket) t = rmap snd (tcp_socket_close e socket t)"
| "tcp_exec e (Send socket data len) t = rmap snd (tcp_socket_send e socket data len t)"
| "tcp_exec e (Recv socket out len) t = rmap (snd \<circ> snd) (tcp_socket_recv socket out len t)"
| "tcp_exec e (Callbacks socket a b c d) t = Done (snd (tcp_socket_register_callbacks socket a b c d t))"
| "tcp_exec e (Options socket w) t = Done (snd (tcp_socket_set_options socket w t))"
| "tcp_exec e (Timer msec) t = Done (tcp_timer e msec t)"

text \<open>
  What the callers owe: arrays as long as they say, a block of the size asked for from the
  allocator, packets below 2 GiB, a valid default device. Nothing is asked of a packet's bytes.
\<close>

fun tcp_call_ok :: "tcp_call \<Rightarrow> bool" where
  "tcp_call_ok (Rx mem packet) \<longleftrightarrow> mem_ok mem \<and> (case packet of None \<Rightarrow> True | Some (bytes, _) \<Rightarrow> length bytes < 2 ^ 31)"
| "tcp_call_ok (Create mem addr port) \<longleftrightarrow> mem_ok mem"
| "tcp_call_ok (Connect mem ns socket addr port) \<longleftrightarrow> mem_ok mem \<and> devices_valid ns"
| "tcp_call_ok (Send socket data len) \<longleftrightarrow> (case data of None \<Rightarrow> True | Some bytes \<Rightarrow> unat len \<le> length bytes)"
| "tcp_call_ok (Recv socket out len) \<longleftrightarrow> (case out of None \<Rightarrow> True | Some arr \<Rightarrow> unat len \<le> length arr)"
| "tcp_call_ok _ \<longleftrightarrow> True"

lemma exec_opens:
  assumes "app_keeps e" "tcp_ok t" "tcp_call_ok c"
  shows "returns (tcp_exec e c t) (opens t)"
proof -
  have snd_adv: "returns m (\<lambda>(_, u). advances t u) \<Longrightarrow> returns m (\<lambda>x. opens t (snd x))" for m :: "(int \<times> tcp) run"
    by (erule returns_mono) (auto intro: advances_opens)
  have snd_opens: "returns m (\<lambda>(_, u). opens t u) \<Longrightarrow> returns m (\<lambda>x. opens t (snd x))" for m :: "(int \<times> tcp) run"
    by (erule returns_mono) auto
  show ?thesis
  proof (cases c)
    case (Rx mem packet)
    with assms show ?thesis
      using snd_opens [OF rx_opens [OF assms(1) _ assms(2)]] by simp
  next
    case (Connect mem ns socket addr port)
    with assms show ?thesis
      using snd_opens [OF connect_opens [OF _ assms(2)]] by simp
  next
    case (Send socket data len)
    with assms show ?thesis
      using snd_adv [OF returns_keeps [OF send_keeps [OF assms(1,2)]]] by simp
  next
    case (Recv socket out len)
    then have "returns (tcp_socket_recv socket out len t) (\<lambda>(_, _, t'). tcp_keeps t t')"
      using assms by (intro recv_keeps) simp_all
    then show ?thesis
      using Recv by (auto elim!: returns_mono intro: keeps_imp_opens)
  next
    case (Callbacks socket a b c d)
    then show ?thesis
      using assms(2) by (auto simp: tcp_socket_register_callbacks_def tcp_keeps_refl tcp_okD
          split: option.split intro!: keeps_imp_opens keeps_upd)
  next
    case (Options socket w)
    then show ?thesis
      using assms(2) by (auto simp: tcp_socket_set_options_def tcp_keeps_refl tcp_okD
          split: option.split intro!: keeps_imp_opens keeps_upd)
  qed (use assms in \<open>auto simp: create_opens listen_opens accept_advances timer_advances bind_keeps keeps_imp_opens
      advances_opens intro: snd_adv close_advances\<close>)
qed

end
