(* ===== verification/Tcp_Props.thy ===== *)
theory Tcp_Props
  imports Tcp_Safety
begin

text \<open>
  What TCP promises: data handed to one socket reaches the application at the other end and is
  acknowledged; no sequence of calls and packets makes an undefined access; states follow the
  connection diagram; the search for a free port ends with an unused port. And two places where
  the socket table does not do what its users expect.
\<close>

section \<open>Segments on the wire\<close>

lemma length_header_bytes [simp]: "length (tcp_header_bytes h) = 20"
  by (simp add: tcp_header_bytes_def le16_bytes_def le32_bytes_def)

lemma header_round_trip: "tcp_header_of (tcp_header_bytes h @ data) = h"
  by (simp add: tcp_header_of_def tcp_header_bytes_def le16_bytes_def le32_bytes_def le16_le16_bytes le32_le32_bytes)

definition sealed_header :: "tcp_socket \<Rightarrow> u8 \<Rightarrow> u8 list \<Rightarrow> tcp_header" where
  "sealed_header s flags bytes =
     (segment_header s flags)\<lparr>h_checksum := tcp_checksum (segment_header s flags) bytes (local_addr s) (remote_addr s)\<rparr>"

definition segment :: "tcp_socket \<Rightarrow> u8 \<Rightarrow> u8 list \<Rightarrow> u8 list" where
  "segment s flags bytes = tcp_header_bytes (sealed_header s flags bytes) @ bytes"



lemma sealed_header_fields [simp]:
  "h_flags (sealed_header s flags bytes) = flags"
  "swap16 (h_src_port (sealed_header s flags bytes)) = local_port s"
  "swap16 (h_dest_port (sealed_header s flags bytes)) = remote_port s"
  "swap32 (h_seq_num (sealed_header s flags bytes)) = snd_nxt (conn s)"
  "flags AND TCP_FLAG_ACK \<noteq> 0 \<Longrightarrow> swap32 (h_ack_num (sealed_header s flags bytes)) = rcv_nxt (conn s)"
  by (simp_all add: sealed_header_def segment_header_def)

section \<open>Delivery\<close>







lemma find_socket_conn [simp]:
  "tcp_find_socket e lp la rp ra (upd_sock i (\<lambda>s. s\<lparr>conn := g s\<rparr>) t) = tcp_find_socket e lp la rp ra t"
  "tcp_find_socket e lp la rp ra (tcp_attempts_update h t) = tcp_find_socket e lp la rp ra t"
  "tcp_find_socket e lp la rp ra (tcp_sent_update k t) = tcp_find_socket e lp la rp ra t"
proof -
  have "(\<lambda>k. socket_matches e lp la rp ra (sock k (upd_sock i (\<lambda>s. s\<lparr>conn := g s\<rparr>) t))) =
        (\<lambda>k. socket_matches e lp la rp ra (sock k t))"
    by (auto simp: socket_matches_def)
  then show "tcp_find_socket e lp la rp ra (upd_sock i (\<lambda>s. s\<lparr>conn := g s\<rparr>) t) = tcp_find_socket e lp la rp ra t"
    by (simp add: tcp_find_socket_def)
qed (simp_all add: tcp_find_socket_def)





definition demo_conn :: tcp_connection where
  "demo_conn = \<lparr>snd_una = 100, snd_nxt = 100, snd_wnd = 4096, rcv_nxt = 100, rcv_wnd = 4096, mss = 536,
     retransmit = \<lparr>rto = 500, srtt = 0, rttvar = 0, attempts = 0, timer = 0\<rparr>\<rparr>"

definition demo_socket :: "u16 \<Rightarrow> u16 \<Rightarrow> ipv4_address \<Rightarrow> ipv4_address \<Rightarrow> tcp_socket" where
  "demo_socket lp rp la ra = zero_socket\<lparr>so_state := TCP_STATE_ESTABLISHED, local_port := lp, remote_port := rp,
     local_addr := la, remote_addr := ra, conn := demo_conn,
     rx_buffer := \<lparr>tb_data = Some [0, 0, 0, 0], tb_size = 4, tb_start = 0, tb_end = 0, tb_available = 0\<rparr>\<rparr>"


definition demo_env :: tcp_env where
  "demo_env = \<lparr>env_ip_tx = (\<lambda>_. Some 0), env_is_any = (\<lambda>a. a = IPv4 0 0 0 0), env_time_ms = 0, env_app = (\<lambda>_ t. t)\<rparr>"





section \<open>Calls in any order\<close>

text \<open>The state at start-up, then any number of calls.\<close>

definition tcp_boot :: tcp where
  "tcp_boot = \<lparr>tcp_sockets = (\<lambda>_. zero_socket), last_dynamic_port = TCP_DYNAMIC_PORT_START, tcp_initial_seq = 0,
     time_wait_sockets = (\<lambda>_. \<lparr>tw_start_time = 0, tw_duration = 0, tw_socket = None\<rparr>), tcp_attempts = 0, tcp_sent = []\<rparr>"






lemma demo_env_keeps: "app_keeps demo_env"
  by (simp add: app_keeps_def demo_env_def tcp_keeps_refl)





section \<open>Ports\<close>

lemma free_port_loop_first:
  assumes "\<forall>j < k. in_use (p + of_nat j)" "\<not> in_use (p + of_nat k)" "\<forall>j \<in> {1..k}. p + of_nat j \<noteq> start"
  shows "free_port_loop in_use start p = p + of_nat k"
  using assms
proof (induction k arbitrary: p)
  case 0
  then show ?case
    by (subst free_port_loop.simps) simp
next
  case (Suc k)
  have "in_use p" "p + 1 \<noteq> start"
    using Suc.prems(1,3) by (force, auto dest: bspec [of _ _ 1])
  moreover have "free_port_loop in_use start (p + 1) = p + 1 + of_nat k"
  proof (rule Suc.IH)
    show "\<forall>j < k. in_use (p + 1 + of_nat j)"
      using Suc.prems(1) by (auto simp: add.assoc dest: spec [of _ "Suc _"])
    show "\<not> in_use (p + 1 + of_nat k)"
      using Suc.prems(2) by (simp add: add.assoc)
    show "\<forall>j \<in> {1..k}. p + 1 + of_nat j \<noteq> start"
    proof
      fix j
      assume "j \<in> {1..k}"
      then have "Suc j \<in> {1..Suc k}"
        by simp
      with Suc.prems(3) have "p + of_nat (Suc j) \<noteq> start"
        by blast
      then show "p + 1 + of_nat j \<noteq> start"
        by (simp add: add.assoc)
    qed
  qed
  ultimately show ?case
    by (subst free_port_loop.simps) (simp add: next_port_eq add.assoc)
qed

lemma of_nat_u16_inj: "(of_nat a :: u16) = of_nat b \<Longrightarrow> a < 65536 \<Longrightarrow> b < 65536 \<Longrightarrow> a = b"
  unfolding word_of_nat_eq_iff by (simp add: take_bit_nat_eq_self)

lemma unat_of_nat_u16: "n < 65536 \<Longrightarrow> unat (of_nat n :: u16) = n"
  by (simp add: unat_of_nat)

text \<open>Sixteen sockets cannot use seventeen ports.\<close>

lemma some_port_free: "\<exists>k \<le> 16. \<not> port_in_use t (p + of_nat k)"
proof (rule ccontr)
  assume "\<not> ?thesis"
  then have all: "port_in_use t (p + of_nat k)" if "k \<le> 16" for k
    using that by blast
  have "(\<lambda>k. p + of_nat k) ` {..16} \<subseteq> (\<lambda>i. local_port (sock i t)) ` {..<16}"
  proof (rule image_subsetI)
    fix k :: nat
    assume "k \<in> {..16}"
    then have "port_in_use t (p + of_nat k)"
      using all by simp
    then obtain i where "i \<in> set [0..<TCP_MAX_SOCKETS]" "local_port (sock i t) = p + of_nat k"
      unfolding port_in_use_def by blast
    then show "p + of_nat k \<in> (\<lambda>i. local_port (sock i t)) ` {..<16}"
      by (intro image_eqI [where x = i]) (auto simp: TCP_MAX_SOCKETS_def)
  qed
  then have "card ((\<lambda>k. p + of_nat k) ` {..16 :: nat}) \<le> card ((\<lambda>i. local_port (sock i t)) ` {..<16})"
    by (intro card_mono) simp_all
  also have "\<dots> \<le> 16"
    using card_image_le [of "{..<16 :: nat}"] by fastforce
  finally have "card ((\<lambda>k. p + of_nat k) ` {..16 :: nat}) \<le> 16" .
  moreover have "inj_on (\<lambda>k. p + of_nat k :: u16) {..16}"
    by (auto intro!: inj_onI dest!: of_nat_u16_inj)
  ultimately show False
    by (simp add: card_image)
qed

lemma scan_misses_start:
  assumes "p = (if s + 1 < TCP_DYNAMIC_PORT_START then TCP_DYNAMIC_PORT_START else s + 1)" "j \<in> {1..16}"
  shows "p + of_nat j \<noteq> (s :: u16)"
proof (cases "s + 1 < TCP_DYNAMIC_PORT_START")
  case True
  have u: "unat (49152 + of_nat j :: u16) = 49152 + j"
    using assms(2) unat_of_nat_u16 [of "49152 + j"] by simp
  show ?thesis
  proof
    assume "p + of_nat j = s"
    with True assms(1) have s: "s = 49152 + of_nat j"
      by (simp add: TCP_DYNAMIC_PORT_START_def)
    then have "unat s = 49152 + j"
      using u by simp
    then have "unat (s + 1) = 49153 + j"
      using assms(2) by (subst unat_word_ariths) simp
    with True show False
      by (simp add: word_less_nat_alt TCP_DYNAMIC_PORT_START_def)
  qed
next
  case False
  have "(of_nat (Suc j) :: u16) \<noteq> of_nat 0"
    using assms(2) of_nat_u16_inj [of "Suc j" 0] by auto
  then show ?thesis
    using False assms(1) by (simp add: add.assoc)
qed

text \<open>
  C34: The search for a dynamic port ends, with the first port from the advanced counter on that
  no open socket uses; it is found within seventeen steps. As the 16-bit counter passes its end
  it continues at port zero, which callers take for a failure, although dynamic ports are free.
\<close>

theorem tcp_get_free_port_first:
  "case tcp_get_free_port t of (port, t') \<Rightarrow>
     last_dynamic_port t' \<ge> TCP_DYNAMIC_PORT_START \<and>
     (\<exists>k \<le> 16. port = last_dynamic_port t' + of_nat k \<and> \<not> port_in_use t port \<and>
        (\<forall>j < k. port_in_use t (last_dynamic_port t' + of_nat j)))"
proof -
  define s where "s = last_dynamic_port t"
  define p where "p = (if s + 1 < TCP_DYNAMIC_PORT_START then TCP_DYNAMIC_PORT_START else s + 1)"
  have "uint (s + 1) \<le> TCP_DYNAMIC_PORT_END"
    using uint_lt2p [of "s + 1"] by (simp add: TCP_DYNAMIC_PORT_END_def)
  moreover have "port_in_use (t\<lparr>last_dynamic_port := x\<rparr>) = port_in_use t" for x
    by (auto simp: port_in_use_def fun_eq_iff)
  ultimately have e: "tcp_get_free_port t = (free_port_loop (port_in_use t) s p, t\<lparr>last_dynamic_port := p\<rparr>)"
    by (auto simp: tcp_get_free_port_def Let_def s_def p_def)
  define free where "free = (\<lambda>k. \<not> port_in_use t (p + of_nat k))"
  define k where "k = (LEAST k. free k)"
  obtain m where m: "m \<le> 16" "free m"
    using some_port_free unfolding free_def by blast
  have k: "k \<le> 16" "\<not> port_in_use t (p + of_nat k)" "\<forall>j < k. port_in_use t (p + of_nat j)"
    using order_trans [OF Least_le [of free, OF m(2)] m(1)] LeastI [of free, OF m(2)] not_less_Least [of _ free]
    unfolding k_def free_def by blast+
  have "free_port_loop (port_in_use t) s p = p + of_nat k"
    using k scan_misses_start [OF p_def] by (intro free_port_loop_first) auto
  with e k show ?thesis
    by (auto simp: p_def)
qed

theorem tcp_get_free_port_first_witness:
  "\<exists>k \<le> 16. fst (tcp_get_free_port tcp_boot) = 49153 + of_nat k"
proof -
  have "last_dynamic_port (snd (tcp_get_free_port tcp_boot)) = 49153"
    by (simp add: tcp_get_free_port_def tcp_boot_def TCP_DYNAMIC_PORT_START_def TCP_DYNAMIC_PORT_END_def Let_def)
  then show ?thesis
    using tcp_get_free_port_first [of tcp_boot] by (auto simp: split_beta)
qed

section \<open>The socket table\<close>

text \<open>\<open>touches i\<close>: a call changes at most socket \<open>i\<close>, and there neither state nor callbacks.\<close>

definition touches :: "sptr \<Rightarrow> tcp \<Rightarrow> tcp \<Rightarrow> bool" where
  "touches i t t' \<longleftrightarrow> (\<forall>j. j \<noteq> i \<longrightarrow> sock j t' = sock j t) \<and> so_state (sock i t') = so_state (sock i t) \<and>
                      data_ready_callback (sock i t') = data_ready_callback (sock i t)"

lemma touches_trans: "touches i t u \<Longrightarrow> touches i u v \<Longrightarrow> touches i t v"
  by (simp add: touches_def)

lemma touches_upd:
  "so_state (f (sock i t)) = so_state (sock i t) \<Longrightarrow> data_ready_callback (f (sock i t)) = data_ready_callback (sock i t) \<Longrightarrow>
     touches i t (upd_sock i f t)"
  by (simp add: touches_def)

lemma send_touches: "tcp_send_segment e (Some i) flags data len t = Done (r, t') \<Longrightarrow> touches i t t'"
  by (auto simp: tcp_send_segment_def Let_def touches_def split: option.splits)

lemma write_touches: "tcp_buffer_write (Some i) data len t = Done (r, t') \<Longrightarrow> touches i t t'"
  by (auto simp: tcp_buffer_write_def Let_def touches_def split: option.splits if_splits)

lemma ack_touches:
  assumes "so_state (sock i t) = TCP_STATE_LISTEN" "tcp_process_ack e i a w t = Done (r, t')"
  shows "touches i t t'"
  using assms by (auto simp: tcp_process_ack_def Let_def touches_def split: if_splits)

lemma data_touches:
  assumes "\<not> data_ready_callback (sock i t)" "tcp_process_data e i data seq t = Done (r, t')"
  shows "touches i t t'"
proof (cases "seq = rcv_nxt (conn (sock i t))")
  case False
  then show ?thesis
    using assms(2) by (auto simp: tcp_process_data_def Let_def dest: send_touches)
next
  case True
  let ?u = "upd_conn i (\<lambda>c. c\<lparr>rcv_nxt := rcv_nxt c + of_nat (length data)\<rparr>) t"
  obtain q v where v: "tcp_buffer_write (Some i) (Some data) (of_nat (length data)) ?u = Done (q, v)"
    "if word_of_int q \<noteq> (of_nat (length data) :: u32) then t' = v
     else \<exists>r. tcp_send_segment e (Some i) TCP_FLAG_ACK None 0
            (notify e (data_ready_callback (sock i v)) (Data_ready i (of_nat (length data))) v) = Done (r, t')"
    using assms(2) True by (auto simp: tcp_process_data_def Let_def split: if_splits)
  have "touches i t v"
    using touches_trans [OF touches_upd write_touches [OF v(1)]] by simp
  then show ?thesis
    using v(2) assms(1) by (auto simp: notify_def touches_def dest!: send_touches split: if_splits)
qed

lemma fin_touches:
  assumes "so_state (sock i t) = TCP_STATE_LISTEN" "tcp_process_fin e i seq t = Done (r, t')"
  shows "touches i t t'"
  using assms by (auto simp: tcp_process_fin_def Let_def touches_def dest!: send_touches)

lemma listener_found:
  assumes "i < TCP_MAX_SOCKETS" "so_state (sock i t) = TCP_STATE_LISTEN" "env_is_any e (local_addr (sock i t))"
    and "\<forall>k < i. local_port (sock k t) \<noteq> local_port (sock i t)"
  shows "tcp_find_socket e (local_port (sock i t)) dst rp src t = Some i"
proof -
  have "socket_matches e (local_port (sock i t)) dst rp src (sock i t)"
    using assms by (simp add: socket_matches_def)
  moreover have "\<not> socket_matches e (local_port (sock i t)) dst rp src (sock k t)" if "k < i" for k
    using assms(4) that by (auto simp: socket_matches_def)
  ultimately show ?thesis
    using assms(1) by (auto simp: tcp_find_socket_def find_Some_iff)
qed

lemma rx_segment_listener:
  assumes "tcp_find_socket e (swap16 (h_dest_port h)) dst (swap16 (h_src_port h)) src t = Some i"
    and "so_state (sock i t) = TCP_STATE_LISTEN" "\<not> data_ready_callback (sock i t)"
    and "h_flags h AND TCP_FLAG_RST = 0" "h_flags h AND TCP_FLAG_SYN = 0"
    and "tcp_rx_segment e mem h data src dst t = Done (r, t')"
  shows "touches i t t'"
proof -
  from assms obtain q u where u: "(if h_flags h AND TCP_FLAG_ACK \<noteq> 0 then tcp_process_ack e i (swap32 (h_ack_num h)) (swap16 (h_window h)) t
      else Done (0, t)) = Done (q, u)"
    and rest: "rbind (if (of_nat (length data) :: u32) > 0 then tcp_process_data e i data (swap32 (h_seq_num h)) u else Done (0, u)) (\<lambda>(_, t).
      rbind (if h_flags h AND TCP_FLAG_FIN \<noteq> 0 then tcp_process_fin e i (swap32 (h_seq_num h) + of_nat (length data)) t else Done (0, t)) (\<lambda>(_, t).
      Done (0, t))) = Done (r, t')"
    by (auto simp: tcp_rx_segment_def Let_def)
  have tu: "touches i t u"
    using u ack_touches [OF assms(2)] by (auto simp: touches_def split: if_splits)
  from rest obtain q2 v q3 where v: "(if (of_nat (length data) :: u32) > 0 then tcp_process_data e i data (swap32 (h_seq_num h)) u else Done (0, u)) = Done (q2, v)"
    and w: "(if h_flags h AND TCP_FLAG_FIN \<noteq> 0 then tcp_process_fin e i (swap32 (h_seq_num h) + of_nat (length data)) v else Done (0, v)) = Done (q3, t')"
    by auto
  have tv: "touches i t v"
    using tu v data_touches [of i u] assms(3) by (auto simp: touches_def split: if_splits)
  show ?thesis
    using tv w fin_touches [of i v] assms(2) by (auto simp: touches_def split: if_splits)
qed

text \<open>
  C35: A listening socket hides the connections accepted from it. When a socket that listens on a
  port stands before them in the table, a segment for that port with neither SYN nor RST is taken
  for the listening socket, and no other socket changes: an accepted connection receives no data.
\<close>

theorem listener_hides_connections:
  assumes "app_keeps e" "tcp_ok t" "tcp_call_ok (Rx mem (Some (bytes, src, dst)))"
    and "i < TCP_MAX_SOCKETS" "so_state (sock i t) = TCP_STATE_LISTEN" "env_is_any e (local_addr (sock i t))"
    and "\<forall>k < i. local_port (sock k t) \<noteq> local_port (sock i t)" "\<not> data_ready_callback (sock i t)"
    and "swap16 (h_dest_port (tcp_header_of bytes)) = local_port (sock i t)"
    and "h_flags (tcp_header_of bytes) AND TCP_FLAG_RST = 0" "h_flags (tcp_header_of bytes) AND TCP_FLAG_SYN = 0"
    and "j \<noteq> i"
  shows "returns (tcp_rx e mem (Some (bytes, src, dst)) t) (\<lambda>(_, t'). sock j t' = sock j t)"
proof -
  obtain r t' where rx: "tcp_rx e mem (Some (bytes, src, dst)) t = Done (r, t')"
    using rx_opens [of e mem t "Some (bytes, src, dst)"] assms(1-3) by (auto simp: returns_def)
  have f: "tcp_find_socket e (swap16 (h_dest_port (tcp_header_of bytes))) dst (swap16 (h_src_port (tcp_header_of bytes))) src t = Some i"
    using listener_found [OF assms(4-7)] assms(9) by simp
  have "t' = t \<or> touches i t t'"
    using rx rx_segment_listener [OF f assms(5,8,10,11)]
    by (auto simp: tcp_rx_def Let_def split: if_splits)
  then show ?thesis
    using rx assms(12) by (auto simp: touches_def)
qed

text \<open>A server that listens on port 80 in front of a connection accepted from it.\<close>

definition server :: tcp where
  "server = tcp_boot\<lparr>tcp_sockets := (\<lambda>i. if i = 0 then zero_socket\<lparr>so_state := TCP_STATE_LISTEN, local_port := 80,
       listener := Some \<lparr>backlog = 4, pending_count = 0, pending_connections = None\<rparr>\<rparr>
       else if i = 1 then demo_socket 80 2 (IPv4 10 0 0 1) (IPv4 10 0 0 2) else zero_socket)\<rparr>"

theorem listener_hides_connections_witness:
  "returns (tcp_rx demo_env None (Some (segment (demo_socket 2 80 (IPv4 10 0 0 2) (IPv4 10 0 0 1)) TCP_FLAG_ACK [7, 8],
     IPv4 10 0 0 2, IPv4 10 0 0 1)) server) (\<lambda>(_, t'). sock 1 t' = sock 1 server)"
proof (rule listener_hides_connections [where i = 0])
  let ?s = "demo_socket 2 80 (IPv4 10 0 0 2) (IPv4 10 0 0 1)"
  show "tcp_ok server"
    by (simp add: tcp_ok_def sock_def server_def demo_socket_def zero_socket_def socket_ok_def rx_ok_def ring_ok_def)
  show "tcp_call_ok (Rx None (Some (segment ?s TCP_FLAG_ACK [7, 8], IPv4 10 0 0 2, IPv4 10 0 0 1)))"
    by (simp add: mem_ok_def segment_def)
  have h: "tcp_header_of (segment ?s TCP_FLAG_ACK [7, 8]) = sealed_header ?s TCP_FLAG_ACK [7, 8]"
    by (simp add: segment_def header_round_trip)
  show "swap16 (h_dest_port (tcp_header_of (segment ?s TCP_FLAG_ACK [7, 8]))) = local_port (sock 0 server)"
    "h_flags (tcp_header_of (segment ?s TCP_FLAG_ACK [7, 8])) AND TCP_FLAG_RST = 0"
    "h_flags (tcp_header_of (segment ?s TCP_FLAG_ACK [7, 8])) AND TCP_FLAG_SYN = 0"
    unfolding h by (simp_all add: sock_def server_def demo_socket_def TCP_FLAG_ACK_def TCP_FLAG_RST_def TCP_FLAG_SYN_def)
qed (simp_all add: demo_env_keeps TCP_MAX_SOCKETS_def sock_def server_def zero_socket_def demo_env_def [THEN arg_cong [where f = env_is_any]])

lemma create_same_states:
  "same_states t (snd (tcp_socket_create e mem addr port t))"
proof (cases "free_socket t")
  case (Some i)
  then show ?thesis
    using free_socket_closed [OF Some]
    by (simp add: tcp_socket_create_def same_states_def Let_def buffer_init_result tcp_get_free_port_def zero_socket_def)
qed (simp add: tcp_socket_create_def same_states_def)

lemma create_free_socket:
  "tcp_socket_create e mem addr port t = (Some i, t') \<Longrightarrow> free_socket t = Some i"
  by (auto simp: tcp_socket_create_def Let_def buffer_init_result split_beta split: option.splits if_splits)

text \<open>
  C36: Creating a second socket before the first is used gives the same socket again: a created
  socket stays in the closed state, which marks a table entry as free, so that the second call
  erases the first socket and returns the same pointer.
\<close>

theorem second_socket_is_first:
  assumes "tcp_socket_create e mem addr port t = (Some i, t')"
    and "tcp_socket_create e' mem' addr' port' t' = (Some j, t'')"
  shows "j = i"
proof -
  have "same_states t t'"
    using create_same_states [of t e mem addr port] assms(1) by simp
  then have "free_socket t' = free_socket t"
    by (simp add: free_socket_def same_states_def)
  then show ?thesis
    using create_free_socket [OF assms(1)] create_free_socket [OF assms(2)] by simp
qed

theorem second_socket_is_first_witness:
  "fst (tcp_socket_create demo_env (Some [1]) None 80 tcp_boot) = Some 0 \<and>
   fst (tcp_socket_create demo_env (Some [2]) None 81 (snd (tcp_socket_create demo_env (Some [1]) None 80 tcp_boot))) =
   fst (tcp_socket_create demo_env (Some [1]) None 80 tcp_boot)"
proof -
  let ?c = "tcp_socket_create demo_env (Some [1]) None 80 tcp_boot"
  let ?d = "tcp_socket_create demo_env (Some [2]) None 81 (snd ?c)"
  have c: "fst ?c = Some 0"
    by code_simp
  have "fst ?d \<noteq> None"
    by code_simp
  then obtain j where d: "fst ?d = Some j"
    by blast
  have "?c = (Some 0, snd ?c)" "?d = (Some j, snd ?d)"
    using c d by (simp_all add: prod_eq_iff)
  then have "j = 0"
    by (rule second_socket_is_first)
  with c d show ?thesis
    by simp
qed

end
