(* ===== verification/Paging.thy ===== *)
theory Paging
  imports Prelude
begin

text \<open>
  The page allocator and the page tables, \<^verbatim>\<open>memory/paging.c\<close>. Physical memory is one array of
  32-bit words, indexed by byte addresses that are multiples of four. The page information array,
  the page directories, the page tables and the pages themselves all live in it, so that the model
  shows when one overlaps another. An entry of the page information array takes twelve bytes:
  state (one byte), references (the upper half of the first word), flags and owner.

  Each function holds the re-entrant mutex \<^verbatim>\<open>paging_mutex\<close> from its first to its last access and
  is one step of the model. The size of the memory, the identity of the running process, and the
  contents of the fault registers are arguments. The translation buffer of the processor is not
  modelled: flushing an entry has no effect here.
\<close>

section \<open>Words in memory\<close>

type_synonym memory = "u32 \<Rightarrow> u32"

text \<open>\<^verbatim>\<open>memset\<close> and \<^verbatim>\<open>memcpy\<close> on whole words: \<open>n\<close> bytes from \<open>a\<close> on.\<close>

definition in_range :: "u32 \<Rightarrow> u32 \<Rightarrow> u32 \<Rightarrow> bool" where
  "in_range a n x \<longleftrightarrow> x - a < n"

definition memset_words :: "u32 \<Rightarrow> u32 \<Rightarrow> u32 \<Rightarrow> memory \<Rightarrow> memory" where
  "memset_words a v n m = (\<lambda>x. if in_range a n x then v else m x)"

definition memcpy_words :: "u32 \<Rightarrow> u32 \<Rightarrow> u32 \<Rightarrow> memory \<Rightarrow> memory" where
  "memcpy_words dst src n m = (\<lambda>x. if in_range dst n x then m (x - dst + src) else m x)"

text \<open>A loop that stores one word for each index.\<close>

fun store_words :: "u32 \<Rightarrow> (u32 \<Rightarrow> u32) \<Rightarrow> nat list \<Rightarrow> memory \<Rightarrow> memory" where
  "store_words a f [] m = m"
| "store_words a f (j # js) m = store_words a f js (m(a + 4 * of_nat j := f (of_nat j)))"

section \<open>State\<close>

definition PAGE_FREE :: u8 where "PAGE_FREE = 0"
definition PAGE_USED :: u8 where "PAGE_USED = 1"
definition PAGE_RESERVED :: u8 where "PAGE_RESERVED = 2"
definition PAGE_SIZE :: u32 where "PAGE_SIZE = 4096"
definition PAGE_TABLE_ENTRIES :: nat where "PAGE_TABLE_ENTRIES = 1024"
definition PAGE_DIRECTORY_ENTRIES :: nat where "PAGE_DIRECTORY_ENTRIES = 1024"
definition PAGE_FLAG_PRESENT :: u32 where "PAGE_FLAG_PRESENT = 0x01"
definition PAGE_FLAG_WRITABLE :: u32 where "PAGE_FLAG_WRITABLE = 0x02"
definition PAGE_FLAG_USER :: u32 where "PAGE_FLAG_USER = 0x04"
definition PAGE_FLAG_GLOBAL :: u32 where "PAGE_FLAG_GLOBAL = 0x100"
definition PAGE_FLAG_GUARD :: u32 where "PAGE_FLAG_GUARD = 0x200"
definition MAX_PROTECTED_REGIONS :: nat where "MAX_PROTECTED_REGIONS = 32"
definition PAGE_INFO_SIZE :: u32 where "PAGE_INFO_SIZE = 12"

record protected_region =
  pr_start :: u32
  pr_end :: u32
  pr_flags :: u32
  pr_name :: string

record memory_statistics =
  pages_allocated :: u32
  pages_freed :: u32
  address_space_switches :: u32
  page_faults :: u32
  tlb_flushes :: u32
  cow_faults_handled :: u32
  demand_pages_loaded :: u32
  memory_mapped_regions :: u32

record paging =
  mem :: memory
  shadow_page_directory :: "nat \<Rightarrow> u32"
  current_page_directory :: u32
  page_info_array :: u32
  total_pages :: u32
  free_page_count :: u32
  protected_regions :: "protected_region list"
  memory_stats :: memory_statistics
  cr3 :: u32

abbreviation upd_mem :: "(memory \<Rightarrow> memory) \<Rightarrow> 'a paging_scheme \<Rightarrow> 'a paging_scheme" where
  "upd_mem f \<equiv> mem_update f"

abbreviation upd_stats :: "(memory_statistics \<Rightarrow> memory_statistics) \<Rightarrow> 'a paging_scheme \<Rightarrow> 'a paging_scheme" where
  "upd_stats f \<equiv> memory_stats_update f"

definition page_info :: "'a paging_scheme \<Rightarrow> u32 \<Rightarrow> u32" where
  "page_info st i = page_info_array st + PAGE_INFO_SIZE * i"

definition page_state :: "'a paging_scheme \<Rightarrow> u32 \<Rightarrow> u8" where
  "page_state st i = ucast (mem st (page_info st i))"

definition page_references :: "'a paging_scheme \<Rightarrow> u32 \<Rightarrow> u16" where
  "page_references st i = ucast (drop_bit 16 (mem st (page_info st i)))"

definition set_page_state :: "u32 \<Rightarrow> u8 \<Rightarrow> 'a paging_scheme \<Rightarrow> 'a paging_scheme" where
  "set_page_state i s st =
     upd_mem (\<lambda>m. m(page_info st i := (m (page_info st i) AND 0xFFFFFF00) OR ucast s)) st"

definition set_page_references :: "u32 \<Rightarrow> u16 \<Rightarrow> 'a paging_scheme \<Rightarrow> 'a paging_scheme" where
  "set_page_references i r st =
     upd_mem (\<lambda>m. m(page_info st i := (m (page_info st i) AND 0xFFFF) OR push_bit 16 (ucast r))) st"

definition set_page_flags :: "u32 \<Rightarrow> u32 \<Rightarrow> 'a paging_scheme \<Rightarrow> 'a paging_scheme" where
  "set_page_flags i f st = upd_mem (\<lambda>m. m(page_info st i + 4 := f)) st"

definition set_page_owner :: "u32 \<Rightarrow> u32 \<Rightarrow> 'a paging_scheme \<Rightarrow> 'a paging_scheme" where
  "set_page_owner i p st = upd_mem (\<lambda>m. m(page_info st i + 8 := p)) st"

section \<open>Protected regions\<close>

definition paging_protect_region :: "u32 \<Rightarrow> u32 \<Rightarrow> u32 \<Rightarrow> string \<Rightarrow> 'a paging_scheme \<Rightarrow> int \<times> 'a paging_scheme" where
  "paging_protect_region start stop flags name st =
     (if length (protected_regions st) \<ge> MAX_PROTECTED_REGIONS then (- 1, st)
      else (0, st\<lparr>protected_regions := protected_regions st @ [\<lparr>pr_start = start, pr_end = stop, pr_flags = flags, pr_name = name\<rparr>]\<rparr>))"

definition get_protected_region :: "u32 \<Rightarrow> 'a paging_scheme \<Rightarrow> protected_region option" where
  "get_protected_region addr st = List.find (\<lambda>r. addr \<ge> pr_start r \<and> addr < pr_end r) (protected_regions st)"

section \<open>Initialisation\<close>

text \<open>A kernel page is reserved.\<close>

definition reserve_page :: "nat \<Rightarrow> 'a paging_scheme \<Rightarrow> 'a paging_scheme" where
  "reserve_page i st =
     (let st = set_page_state (of_nat i) PAGE_RESERVED st;
          st = set_page_flags (of_nat i) (PAGE_FLAG_PRESENT OR PAGE_FLAG_GLOBAL) st
      in st\<lparr>free_page_count := free_page_count st - 1\<rparr>)"

text \<open>Page table number \<open>i\<close> of four, identity mapping four megabytes, and its directory entry.\<close>

definition init_table :: "u32 \<Rightarrow> u32 \<Rightarrow> nat \<Rightarrow> 'a paging_scheme \<Rightarrow> 'a paging_scheme" where
  "init_table tables dir_index i st =
     (let table = tables + of_nat i * PAGE_SIZE;
          st = upd_mem (memset_words table 0 4096) st;
          st = upd_mem (store_words table
                 (\<lambda>j. ((of_nat i * of_nat PAGE_TABLE_ENTRIES + j) * PAGE_SIZE) OR PAGE_FLAG_PRESENT OR PAGE_FLAG_WRITABLE OR PAGE_FLAG_GLOBAL)
                 [0..<PAGE_TABLE_ENTRIES]) st
      in upd_mem (\<lambda>m. m(current_page_directory st + 4 * (dir_index + of_nat i) := table OR PAGE_FLAG_PRESENT OR PAGE_FLAG_WRITABLE)) st)"

text \<open>\<open>memsize\<close> is what the boot loader reports.\<close>

definition paging_init :: "u32 \<Rightarrow> 'a paging_scheme \<Rightarrow> 'a paging_scheme" where
  "paging_init memsize st =
     (let total = memsize div PAGE_SIZE;
          st = st\<lparr>total_pages := total, free_page_count := total, page_info_array := 0x100000\<rparr>;
          st = upd_mem (memset_words 0x100000 0 (total * PAGE_INFO_SIZE)) st;
          st = fold reserve_page [0..<256] st;
          st = st\<lparr>current_page_directory := 0x1000\<rparr>;
          st = upd_mem (memset_words 0x1000 0 4096) st;
          st = fold (init_table 0x2000 0) [0..<4] st;
          st = fold (init_table 0x6000 (0xC0000000 div (PAGE_SIZE * of_nat PAGE_TABLE_ENTRIES))) [0..<4] st;
          (_, st) = paging_protect_region 0x0 0x1000 PAGE_FLAG_PRESENT ''Null guard page'' st;
          (_, st) = paging_protect_region 0x1000 0xA000 (PAGE_FLAG_PRESENT OR PAGE_FLAG_GLOBAL) ''Kernel page tables'' st;
          (_, st) = paging_protect_region 0x100000 0x200000 (PAGE_FLAG_PRESENT OR PAGE_FLAG_WRITABLE OR PAGE_FLAG_GLOBAL) ''Kernel code & data'' st
      in st\<lparr>cr3 := 0x1000\<rparr>)"

section \<open>Allocating and freeing pages\<close>

definition mark_used :: "u32 \<Rightarrow> u32 \<Rightarrow> 'a paging_scheme \<Rightarrow> 'a paging_scheme" where
  "mark_used pid i st =
     (let st = set_page_state i PAGE_USED st;
          st = set_page_references i 1 st;
          st = set_page_flags i (PAGE_FLAG_PRESENT OR PAGE_FLAG_WRITABLE) st
      in if pid \<noteq> 0 then set_page_owner i pid st else st)"

definition allocate_page :: "u32 \<Rightarrow> 'a paging_scheme \<Rightarrow> u32 \<times> 'a paging_scheme" where
  "allocate_page pid st =
     (case List.find (\<lambda>i. page_state st (of_nat i) = PAGE_FREE) [0..<unat (total_pages st)] of
        None \<Rightarrow> (0, st)
      | Some i \<Rightarrow>
          let st = mark_used pid (of_nat i) st;
              st = st\<lparr>free_page_count := free_page_count st - 1\<rparr>;
              st = upd_stats (\<lambda>s. s\<lparr>pages_allocated := pages_allocated s + 1\<rparr>) st;
              page = of_nat i * PAGE_SIZE
          in (page, upd_mem (memset_words page 0 PAGE_SIZE) st))"

definition free_page :: "u32 \<Rightarrow> 'a paging_scheme \<Rightarrow> 'a paging_scheme" where
  "free_page page st =
     (let i = page div PAGE_SIZE
      in if i \<ge> total_pages st then st
         else if page_state st i = PAGE_FREE then st
         else if get_protected_region page st \<noteq> None then st
         else if page_references st i > 1 then set_page_references i (page_references st i - 1) st
         else let st = set_page_state i PAGE_FREE st;
                  st = set_page_references i 0 st;
                  st = set_page_flags i 0 st;
                  st = set_page_owner i 0 st;
                  st = st\<lparr>free_page_count := free_page_count st + 1\<rparr>;
                  st = upd_stats (\<lambda>s. s\<lparr>pages_freed := pages_freed s + 1\<rparr>) st
              in upd_mem (memset_words page 0 PAGE_SIZE) st)"

text \<open>The search for \<open>num\<close> free pages in a row: the first of them.\<close>

fun find_run :: "(nat \<Rightarrow> bool) \<Rightarrow> nat \<Rightarrow> nat list \<Rightarrow> nat \<Rightarrow> nat \<Rightarrow> nat option" where
  "find_run is_free num [] start found = None"
| "find_run is_free num (i # is) start found =
     (if is_free i
      then let start = (if found = 0 then i else start); found = found + 1
           in if found = num then Some start else find_run is_free num is start found
      else find_run is_free num is start 0)"

definition allocate_pages :: "u32 \<Rightarrow> u32 \<Rightarrow> 'a paging_scheme \<Rightarrow> u32 \<times> 'a paging_scheme" where
  "allocate_pages pid num st =
     (if num = 0 then (0, st)
      else if num = 1 then allocate_page pid st
      else if num > free_page_count st then (0, st)
      else case find_run (\<lambda>i. page_state st (of_nat i) = PAGE_FREE) (unat num) [0..<unat (total_pages st)] 0 0 of
             None \<Rightarrow> (0, st)
           | Some start \<Rightarrow>
               let st = fold (\<lambda>j. mark_used pid (of_nat (start + j))) [0..<unat num] st;
                   st = st\<lparr>free_page_count := free_page_count st - num\<rparr>;
                   st = upd_stats (\<lambda>s. s\<lparr>pages_allocated := pages_allocated s + num\<rparr>) st;
                   result = of_nat start * PAGE_SIZE
               in (result, upd_mem (memset_words result 0 (num * PAGE_SIZE)) st))"

definition free_pages :: "u32 \<Rightarrow> u32 \<Rightarrow> 'a paging_scheme \<Rightarrow> 'a paging_scheme" where
  "free_pages start num st = fold (\<lambda>i. free_page (start + of_nat i * PAGE_SIZE)) [0..<unat num] st"

definition get_free_pages_count :: "'a paging_scheme \<Rightarrow> u32" where
  "get_free_pages_count st = free_page_count st"

section \<open>Page tables\<close>

definition pd_index :: "u32 \<Rightarrow> u32" where
  "pd_index virtual = drop_bit 22 virtual"

definition pt_index :: "u32 \<Rightarrow> u32" where
  "pt_index virtual = drop_bit 12 virtual AND 0x3FF"

definition dir_entry :: "'a paging_scheme \<Rightarrow> u32 \<Rightarrow> u32" where
  "dir_entry st i = mem st (current_page_directory st + 4 * i)"

text \<open>The table of a directory entry, and the address of its entry number \<open>j\<close>.\<close>

definition table_entry :: "u32 \<Rightarrow> u32 \<Rightarrow> u32" where
  "table_entry pde j = (pde AND 0xFFFFF000) + 4 * j"

definition pte_addr :: "'a paging_scheme \<Rightarrow> u32 \<Rightarrow> u32" where
  "pte_addr st virtual = table_entry (dir_entry st (pd_index virtual)) (pt_index virtual)"

definition ensure_table :: "u32 \<Rightarrow> u32 \<Rightarrow> u32 \<Rightarrow> 'a paging_scheme \<Rightarrow> bool \<times> 'a paging_scheme" where
  "ensure_table pid virtual flags st =
     (if dir_entry st (pd_index virtual) AND PAGE_FLAG_PRESENT \<noteq> 0 then (True, st)
      else let (pt, st) = allocate_page pid st
           in if pt = 0 then (False, st)
              else let st = upd_mem (memset_words pt 0 PAGE_SIZE) st
                   in (True, upd_mem (\<lambda>m. m(current_page_directory st + 4 * pd_index virtual :=
                         pt OR PAGE_FLAG_PRESENT OR PAGE_FLAG_WRITABLE OR
                         (if flags AND PAGE_FLAG_USER \<noteq> 0 then PAGE_FLAG_USER else 0))) st))"

definition paging_map_page :: "u32 \<Rightarrow> u32 \<Rightarrow> u32 \<Rightarrow> u32 \<Rightarrow> 'a paging_scheme \<Rightarrow> int \<times> 'a paging_scheme" where
  "paging_map_page pid physical virtual flags st =
     (if get_protected_region virtual st \<noteq> None then (- 1, st)
      else let (present, st) = ensure_table pid virtual flags st
           in if \<not> present then (- 1, st)
              else (0, upd_mem (\<lambda>m. m(pte_addr st virtual := (physical AND 0xFFFFF000) OR (flags AND 0xFFF))) st))"

definition unmap_page :: "u32 \<Rightarrow> 'a paging_scheme \<Rightarrow> 'a paging_scheme" where
  "unmap_page virtual st =
     (if get_protected_region virtual st \<noteq> None then st
      else if dir_entry st (pd_index virtual) AND PAGE_FLAG_PRESENT = 0 then st
      else upd_mem (\<lambda>m. m(pte_addr st virtual := 0)) st)"

definition paging_get_page_flags :: "u32 \<Rightarrow> 'a paging_scheme \<Rightarrow> u32" where
  "paging_get_page_flags virtual st =
     (if dir_entry st (pd_index virtual) AND PAGE_FLAG_PRESENT = 0 then 0
      else mem st (pte_addr st virtual) AND 0xFFF)"

definition paging_update_flags :: "u32 \<Rightarrow> u32 \<Rightarrow> 'a paging_scheme \<Rightarrow> int \<times> 'a paging_scheme" where
  "paging_update_flags virtual flags st =
     (if dir_entry st (pd_index virtual) AND PAGE_FLAG_PRESENT = 0 then (- 1, st)
      else if mem st (pte_addr st virtual) AND PAGE_FLAG_PRESENT = 0 then (- 1, st)
      else if get_protected_region virtual st \<noteq> None then (- 1, st)
      else (0, upd_mem (\<lambda>m. m(pte_addr st virtual := (m (pte_addr st virtual) AND 0xFFFFF000) OR (flags AND 0xFFF))) st))"

definition get_physical_address :: "u32 \<Rightarrow> 'a paging_scheme \<Rightarrow> u32" where
  "get_physical_address virtual st =
     (if dir_entry st (pd_index virtual) AND PAGE_FLAG_PRESENT = 0 then 0
      else if mem st (pte_addr st virtual) AND PAGE_FLAG_PRESENT = 0 then 0
      else (mem st (pte_addr st virtual) AND 0xFFFFF000) OR (virtual AND 0xFFF))"

section \<open>Address spaces\<close>

definition paging_create_address_space :: "u32 \<Rightarrow> bool \<Rightarrow> 'a paging_scheme \<Rightarrow> u32 \<times> 'a paging_scheme" where
  "paging_create_address_space pid kernel_accessible st =
     (let (dir, st) = allocate_page pid st
      in if dir = 0 then (0, st)
         else let st = upd_mem (memset_words dir 0 PAGE_SIZE) st
              in (dir, if kernel_accessible
                       then fold (\<lambda>i. upd_mem (\<lambda>m. m(dir + 4 * of_nat i := m (current_page_directory st + 4 * of_nat i))))
                              [768..<PAGE_DIRECTORY_ENTRIES] st
                       else st))"

definition paging_switch_address_space :: "u32 \<Rightarrow> 'a paging_scheme \<Rightarrow> 'a paging_scheme" where
  "paging_switch_address_space page_directory st =
     (if page_directory = 0 then st
      else upd_stats (\<lambda>s. s\<lparr>address_space_switches := address_space_switches s + 1\<rparr>)
             (st\<lparr>cr3 := page_directory, current_page_directory := page_directory\<rparr>))"

definition paging_get_current_address_space :: "'a paging_scheme \<Rightarrow> u32" where
  "paging_get_current_address_space st = cr3 st"

text \<open>Cloning. One table entry shared copy-on-write: both sides become read-only.\<close>

definition share_entry :: "u32 \<Rightarrow> u32 \<Rightarrow> nat \<Rightarrow> 'a paging_scheme \<Rightarrow> 'a paging_scheme" where
  "share_entry src dst j st =
     (let sa = src + 4 * of_nat j; da = dst + 4 * of_nat j;
          entry = mem st sa;
          phys_addr = entry AND 0xFFFFF000;
          new_flags = entry AND 0xFFF AND NOT PAGE_FLAG_WRITABLE;
          st = upd_mem (\<lambda>m. m(sa := m sa AND NOT PAGE_FLAG_WRITABLE)) st;
          i = phys_addr div PAGE_SIZE;
          st = set_page_references i (page_references st i + 1) st
      in upd_mem (\<lambda>m. m(da := phys_addr OR new_flags)) st)"

text \<open>One entry copied to a page of its own; \<open>Inl\<close> when no page is left.\<close>

definition copy_entry :: "u32 \<Rightarrow> u32 \<Rightarrow> u32 \<Rightarrow> nat \<Rightarrow> 'a paging_scheme \<Rightarrow> 'a paging_scheme + 'a paging_scheme" where
  "copy_entry pid src dst j st =
     (let sa = src + 4 * of_nat j; da = dst + 4 * of_nat j;
          (page, st) = allocate_page pid st
      in if page = 0 then Inl st
         else let st = upd_mem (memcpy_words page (mem st sa AND 0xFFFFF000) PAGE_SIZE) st
              in Inr (upd_mem (\<lambda>m. m(da := page OR (m sa AND 0xFFF))) st))"

text \<open>
  The loop over one table. \<open>Inl\<close>: an allocation failed, with the entry number reached.
\<close>

fun clone_entries :: "u32 \<Rightarrow> bool \<Rightarrow> u32 \<Rightarrow> u32 \<Rightarrow> nat list \<Rightarrow> 'a paging_scheme \<Rightarrow> (nat \<times> 'a paging_scheme) + 'a paging_scheme" where
  "clone_entries pid cow src dst [] st = Inr st"
| "clone_entries pid cow src dst (j # js) st =
     (if mem st (src + 4 * of_nat j) AND PAGE_FLAG_PRESENT = 0
      then clone_entries pid cow src dst js (upd_mem (\<lambda>m. m(dst + 4 * of_nat j := 0)) st)
      else if cow then clone_entries pid cow src dst js (share_entry src dst j st)
      else case copy_entry pid src dst j st of
             Inl st \<Rightarrow> Inl (j, st)
           | Inr st \<Rightarrow> clone_entries pid cow src dst js st)"

text \<open>What is undone when a table page cannot be allocated: the tables of the earlier entries.\<close>

definition free_tables :: "u32 \<Rightarrow> nat \<Rightarrow> 'a paging_scheme \<Rightarrow> 'a paging_scheme" where
  "free_tables dir pd st =
     fold (\<lambda>i st. if mem st (dir + 4 * of_nat i) AND PAGE_FLAG_PRESENT \<noteq> 0
                  then free_page (mem st (dir + 4 * of_nat i) AND 0xFFFFF000) st else st) [0..<pd] st"

text \<open>What is undone when a copied page cannot be allocated: pages and tables.\<close>

definition free_table_pages :: "nat \<Rightarrow> nat \<Rightarrow> u32 \<Rightarrow> nat \<Rightarrow> 'a paging_scheme \<Rightarrow> 'a paging_scheme" where
  "free_table_pages pd pt table i st =
     fold (\<lambda>j st. if (i < pd \<or> j < pt) \<and> mem st (table + 4 * of_nat j) AND PAGE_FLAG_PRESENT \<noteq> 0
                  then free_page (mem st (table + 4 * of_nat j) AND 0xFFFFF000) st else st) [0..<PAGE_TABLE_ENTRIES] st"

definition free_pages_and_tables :: "u32 \<Rightarrow> nat \<Rightarrow> nat \<Rightarrow> 'a paging_scheme \<Rightarrow> 'a paging_scheme" where
  "free_pages_and_tables dir pd pt st =
     fold (\<lambda>i st. if mem st (dir + 4 * of_nat i) AND PAGE_FLAG_PRESENT \<noteq> 0
                  then let table = mem st (dir + 4 * of_nat i) AND 0xFFFFF000;
                           st = free_table_pages pd pt table i st
                       in free_page (mem st (dir + 4 * of_nat i) AND 0xFFFFF000) st
                  else st) [0..<pd] st"

fun clone_tables :: "u32 \<Rightarrow> bool \<Rightarrow> u32 \<Rightarrow> nat list \<Rightarrow> 'a paging_scheme \<Rightarrow> u32 \<times> 'a paging_scheme" where
  "clone_tables pid cow dir [] st =
     (dir, st\<lparr>shadow_page_directory := (\<lambda>i. if i < PAGE_DIRECTORY_ENTRIES then mem st (dir + 4 * of_nat i) else shadow_page_directory st i)\<rparr>)"
| "clone_tables pid cow dir (i # is) st =
     (if dir_entry st (of_nat i) AND PAGE_FLAG_PRESENT = 0 then clone_tables pid cow dir is st
      else let src = dir_entry st (of_nat i) AND 0xFFFFF000;
               (table, st) = allocate_page pid st
           in if table = 0 then (0, free_page dir (free_tables dir i st))
              else let st = upd_mem (\<lambda>m. m(dir + 4 * of_nat i := table OR (dir_entry st (of_nat i) AND 0xFFF))) st
                   in case clone_entries pid cow src table [0..<PAGE_TABLE_ENTRIES] st of
                        Inl (j, st) \<Rightarrow> (0, free_page dir (free_pages_and_tables dir i j st))
                      | Inr st \<Rightarrow> clone_tables pid cow dir is st)"

definition paging_clone_address_space :: "u32 \<Rightarrow> bool \<Rightarrow> 'a paging_scheme \<Rightarrow> u32 \<times> 'a paging_scheme" where
  "paging_clone_address_space pid copy_on_write st =
     (let (dir, st) = paging_create_address_space pid True st
      in if dir = 0 then (0, st) else clone_tables pid copy_on_write dir [0..<768] st)"

text \<open>Giving back the pages mapped so far.\<close>

definition unmap_range :: "u32 \<Rightarrow> nat \<Rightarrow> 'a paging_scheme \<Rightarrow> 'a paging_scheme" where
  "unmap_range aligned n st =
     fold (\<lambda>j st. let virt = aligned + of_nat j * PAGE_SIZE; phys = get_physical_address virt st
                  in free_page phys (unmap_page virt st)) [0..<n] st"

fun map_user_loop :: "u32 \<Rightarrow> u32 \<Rightarrow> u32 \<Rightarrow> nat list \<Rightarrow> 'a paging_scheme \<Rightarrow> int \<times> 'a paging_scheme" where
  "map_user_loop pid aligned flags [] st =
     (0, upd_stats (\<lambda>s. s\<lparr>memory_mapped_regions := memory_mapped_regions s + 1\<rparr>) st)"
| "map_user_loop pid aligned flags (i # is) st =
     (let (phys, st) = allocate_page pid st
      in if phys = 0 then (- 1, unmap_range aligned i st)
         else let (r, st) = paging_map_page pid phys (aligned + of_nat i * PAGE_SIZE) flags st
              in if r \<noteq> 0 then (- 1, unmap_range aligned i (free_page phys st))
                 else map_user_loop pid aligned flags is st)"

definition paging_map_user_memory :: "u32 \<Rightarrow> u32 \<Rightarrow> u32 \<Rightarrow> bool \<Rightarrow> bool \<Rightarrow> 'a paging_scheme \<Rightarrow> int \<times> 'a paging_scheme" where
  "paging_map_user_memory pid virtual sz writable executable st =
     (if virtual \<ge> 0xC0000000 then (- 1, st)
      else let aligned = virtual AND 0xFFFFF000;
               num_pages = (virtual + sz + PAGE_SIZE - 1) div PAGE_SIZE - aligned div PAGE_SIZE;
               flags = PAGE_FLAG_PRESENT OR PAGE_FLAG_USER OR (if writable then PAGE_FLAG_WRITABLE else 0) OR
                       (if \<not> executable then PAGE_FLAG_GUARD else 0)
           in map_user_loop pid aligned flags [0..<unat num_pages] st)"

section \<open>Page faults\<close>

text \<open>A write to a page that is present and read-only.\<close>

definition cow_fault :: "u32 \<Rightarrow> u32 \<Rightarrow> 'a paging_scheme \<Rightarrow> (int \<times> 'a paging_scheme) option" where
  "cow_fault pid pte st =
     (let entry = mem st pte;
          old_phys = entry AND 0xFFFFF000;
          i = old_phys div PAGE_SIZE
      in if page_references st i > 1 then
           (let (new_phys, st) = allocate_page pid st
            in if new_phys = 0 then Some (- 1, st)
               else let st = upd_mem (memcpy_words new_phys old_phys PAGE_SIZE) st;
                        st = set_page_references i (page_references st i - 1) st
                    in Some (0, upd_mem (\<lambda>m. m(pte := new_phys OR (m pte AND 0xFFF) OR PAGE_FLAG_WRITABLE)) st))
         else if page_references st i = 1 then Some (0, upd_mem (\<lambda>m. m(pte := m pte OR PAGE_FLAG_WRITABLE)) st)
         else None)"

text \<open>A page that the shadow directory has.\<close>

definition demand_page :: "u32 \<Rightarrow> bool \<Rightarrow> u32 \<Rightarrow> u32 \<Rightarrow> u32 \<Rightarrow> 'a paging_scheme \<Rightarrow> int \<times> 'a paging_scheme" where
  "demand_page pid is_write pd j pte st =
     (let shadow = table_entry (shadow_page_directory st (unat pd)) j
      in if shadow_page_directory st (unat pd) AND 0xFFFFF000 \<noteq> 0 \<and> mem st shadow AND PAGE_FLAG_PRESENT \<noteq> 0 then
           (let (new_phys, st) = allocate_page pid st
            in if new_phys = 0 then (- 1, st)
               else let st = upd_mem (memcpy_words new_phys (mem st shadow AND 0xFFFFF000) PAGE_SIZE) st;
                        flags = (mem st shadow AND 0xFFF) OR (if is_write then PAGE_FLAG_WRITABLE else 0);
                        st = upd_mem (\<lambda>m. m(pte := new_phys OR flags)) st
                    in (0, upd_stats (\<lambda>s. s\<lparr>demand_pages_loaded := demand_pages_loaded s + 1\<rparr>) st))
         else (- 1, st))"

definition handle_page_fault :: "u32 \<Rightarrow> u32 \<Rightarrow> bool \<Rightarrow> 'a paging_scheme \<Rightarrow> int \<times> 'a paging_scheme" where
  "handle_page_fault pid fault_addr is_write st =
     (let page_addr = fault_addr AND 0xFFFFF000; pd = pd_index page_addr; pte = pte_addr st page_addr
      in if dir_entry st pd AND PAGE_FLAG_PRESENT = 0 then (- 1, st)
         else let demand = (if mem st pte AND PAGE_FLAG_PRESENT = 0 \<and> shadow_page_directory st (unat pd) \<noteq> 0
                            then demand_page pid is_write pd (pt_index page_addr) pte st else (- 1, st))
              in if mem st pte AND PAGE_FLAG_PRESENT \<noteq> 0 \<and> mem st pte AND PAGE_FLAG_WRITABLE = 0 \<and> is_write
                 then (case cow_fault pid pte st of Some r \<Rightarrow> r | None \<Rightarrow> demand)
                 else demand)"

text \<open>The handler halts the machine, ends the process, or returns to the faulting instruction.\<close>

datatype fault_outcome = Resumed | System_halted | Process_terminated u32

definition page_fault_handler :: "u32 \<Rightarrow> u32 \<Rightarrow> u32 \<Rightarrow> 'a paging_scheme \<Rightarrow> fault_outcome \<times> 'a paging_scheme" where
  "page_fault_handler pid fault_addr error_code st =
     (let present = (error_code AND 1 = 0); write = (error_code AND 2 \<noteq> 0); user = (error_code AND 4 \<noteq> 0);
          st = upd_stats (\<lambda>s. s\<lparr>page_faults := page_faults s + 1\<rparr>) st;
          (r, st) = (if \<not> present \<and> write then handle_page_fault pid fault_addr write st else (- 1, st))
      in if r = 0 then (Resumed, upd_stats (\<lambda>s. s\<lparr>cow_faults_handled := cow_faults_handled s + 1\<rparr>) st)
         else if \<not> user then (System_halted, st) else (Process_terminated pid, st))"

definition flush_entire_tlb :: "'a paging_scheme \<Rightarrow> 'a paging_scheme" where
  "flush_entire_tlb st = upd_stats (\<lambda>s. s\<lparr>tlb_flushes := tlb_flushes s + 1\<rparr>) st"

text \<open>The statistics, when the caller's array has room for their 32 bytes.\<close>

definition paging_get_stats :: "u32 \<Rightarrow> 'a paging_scheme \<Rightarrow> memory_statistics option" where
  "paging_get_stats sz st = (if sz \<ge> 32 then Some (memory_stats st) else None)"

definition paging_reset_stats :: "'a paging_scheme \<Rightarrow> 'a paging_scheme" where
  "paging_reset_stats st =
     st\<lparr>memory_stats := \<lparr>pages_allocated = 0, pages_freed = 0, address_space_switches = 0, page_faults = 0,
        tlb_flushes = 0, cow_faults_handled = 0, demand_pages_loaded = 0, memory_mapped_regions = 0\<rparr>\<rparr>"

end
