(* ===== verification/Paging_Alloc.thy ===== *)
theory Paging_Alloc
  imports Paging
begin

text \<open>
  The page allocator: where the entries of the page information array lie, what the operations on
  one entry change, the invariant of the allocator and what allocation promises under it.
\<close>

section \<open>Addresses\<close>

lemma unat_add_le: "unat (x + y :: u32) \<le> unat x + unat y"
  by (simp add: unat_word_ariths)

lemma unat_mult_le: "unat (x * y :: u32) \<le> unat x * unat y"
  by (simp add: unat_word_ariths)

lemma unat_of_nat_le: "unat (of_nat n :: u32) \<le> n"
  by (simp add: unat_of_nat)

lemma u32_of_nat: "n < 2 ^ 32 \<Longrightarrow> unat (of_nat n :: u32) = n"
  by (simp add: unat_of_nat)

lemma u32_bound: "unat (x :: u32) < 4294967296"
  using unsigned_less [of x, where 'a = nat] by simp

text \<open>The number of the page an address is in.\<close>

definition page_of :: "u32 \<Rightarrow> nat" where
  "page_of x = unat x div 4096"

lemma unat_page_addr: "s < 2 ^ 20 \<Longrightarrow> unat (of_nat s * PAGE_SIZE) = s * 4096"
proof -
  assume s: "s < 2 ^ 20"
  then have "unat (of_nat (s * 4096) :: u32) = s * 4096"
    by (intro u32_of_nat) simp
  then show ?thesis
    by (simp add: PAGE_SIZE_def)
qed

lemma in_pages:
  assumes "s + n \<le> 2 ^ 20" "n < 2 ^ 20"
  shows "in_range (of_nat s * PAGE_SIZE) (of_nat n * PAGE_SIZE) x \<longleftrightarrow> s \<le> page_of x \<and> page_of x < s + n"
proof (cases "n = 0")
  case True
  then show ?thesis by (simp add: in_range_def)
next
  case False
  have s: "unat (of_nat s * PAGE_SIZE) = s * 4096" and n: "unat (of_nat n * PAGE_SIZE) = n * 4096"
    using assms False by (simp_all add: unat_page_addr)
  show ?thesis
  proof (cases "s * 4096 \<le> unat x")
    case True
    then have "unat (x - of_nat s * PAGE_SIZE) = unat x - s * 4096"
      using s by (subst unat_sub) (simp_all add: word_le_nat_alt)
    then have "in_range (of_nat s * PAGE_SIZE) (of_nat n * PAGE_SIZE) x \<longleftrightarrow> unat x < (s + n) * 4096"
      using True n by (auto simp: in_range_def word_less_nat_alt)
    then show ?thesis
      using True by (simp add: page_of_def less_eq_div_iff_mult_less_eq div_less_iff_less_mult)
  next
    case False
    then have "unat (x - of_nat s * PAGE_SIZE) = unat x + 2 ^ 32 - s * 4096"
      using s by (subst unat_sub_if_size) (simp add: word_size word_le_nat_alt)
    then have "\<not> in_range (of_nat s * PAGE_SIZE) (of_nat n * PAGE_SIZE) x"
      using assms n by (simp add: in_range_def word_less_nat_alt)
    then show ?thesis
      using False by (simp add: page_of_def less_eq_div_iff_mult_less_eq)
  qed
qed

lemma in_page: "i < 2 ^ 20 \<Longrightarrow> in_range (of_nat i * PAGE_SIZE) PAGE_SIZE x \<longleftrightarrow> page_of x = i"
  using in_pages [of i 1 x] by auto

section \<open>The page information array\<close>

definition info_fits :: "'a paging_scheme \<Rightarrow> bool" where
  "info_fits st \<longleftrightarrow> unat (total_pages st) \<le> 2 ^ 20 \<and> unat (page_info_array st) + 12 * unat (total_pages st) \<le> 2 ^ 32"

definition info_region :: "'a paging_scheme \<Rightarrow> u32 \<Rightarrow> bool" where
  "info_region st x \<longleftrightarrow> unat (page_info_array st) \<le> unat x \<and> unat x < unat (page_info_array st) + 12 * unat (total_pages st)"

lemma unat_page_info:
  assumes "info_fits st" "i < unat (total_pages st)" "unat off < 12"
  shows "unat (page_info st (of_nat i) + off) = unat (page_info_array st) + 12 * i + unat off"
proof -
  have b: "unat (page_info_array st) + 12 * i + unat off < 2 ^ 32"
    using assms by (simp add: info_fits_def)
  have "page_info st (of_nat i) + off = of_nat (unat (page_info_array st) + 12 * i + unat off)"
    by (simp add: page_info_def PAGE_INFO_SIZE_def)
  then show ?thesis
    using u32_of_nat [OF b] by simp
qed

lemma page_info_region:
  assumes "info_fits st" "i < unat (total_pages st)" "unat off < 12"
  shows "info_region st (page_info st (of_nat i) + off)"
  using unat_page_info [OF assms] assms by (simp add: info_region_def)

lemma page_info_eq_iff:
  assumes "info_fits st" "i < unat (total_pages st)" "k < unat (total_pages st)" "unat off < 12" "unat off' < 12"
  shows "page_info st (of_nat i) + off = page_info st (of_nat k) + off' \<longleftrightarrow> i = k \<and> off = off'"
proof
  assume "page_info st (of_nat i) + off = page_info st (of_nat k) + off'"
  then have "12 * i + unat off = 12 * k + unat off'"
    using unat_page_info [OF assms(1,2,4)] unat_page_info [OF assms(1,3,5)] by simp
  then have "i = k" "unat off = unat off'"
    using assms(4,5) by presburger+
  then show "i = k \<and> off = off'"
    by (simp add: word_unat_eq_iff)
qed simp

lemmas page_info_simps = page_info_eq_iff [where off = 0, simplified] page_info_eq_iff [where off' = 0, simplified]
  page_info_eq_iff page_info_eq_iff [where off = 0 and off' = 0, simplified]

text \<open>The two fields in the first word of an entry.\<close>

lemma field_masks: "(0xFFFFFF00 :: u32) = NOT (mask 8)" "(0xFFFF :: u32) = mask 16"
  by code_simp+

lemma state_field [simp]:
  "ucast ((w AND 0xFFFFFF00) OR ucast (s :: u8) :: u32) = s"
  "ucast (v AND 0xFFFF :: u32) = (ucast v :: u16)"
  unfolding field_masks by (auto intro!: bit_word_eqI simp: bit_simps)

lemma drop16_u8 [simp]: "drop_bit 16 (ucast (s :: u8) :: u32) = 0"
  by (rule bit_word_eqI) (auto simp: bit_simps dest!: bit_imp_le_length)

lemma references_field [simp]:
  "ucast ((w AND 0xFFFF) OR push_bit 16 (ucast (r :: u16)) :: u32) = (ucast w :: u8)"
  "ucast (drop_bit 16 (push_bit 16 (ucast r :: u32))) = r"
  unfolding field_masks by (auto intro!: bit_word_eqI simp: bit_simps)

lemma set_fields [simp]:
  "page_info_array (set_page_state i s st) = page_info_array st" "total_pages (set_page_state i s st) = total_pages st"
  "page_info_array (set_page_references i r st) = page_info_array st" "total_pages (set_page_references i r st) = total_pages st"
  "page_info_array (set_page_flags i f st) = page_info_array st" "total_pages (set_page_flags i f st) = total_pages st"
  "page_info_array (set_page_owner i p st) = page_info_array st" "total_pages (set_page_owner i p st) = total_pages st"
  by (simp_all add: set_page_state_def set_page_references_def set_page_flags_def set_page_owner_def)

definition mem_only :: "'a paging_scheme \<Rightarrow> 'a paging_scheme \<Rightarrow> bool" where
  "mem_only st st' \<longleftrightarrow> st' = st\<lparr>mem := mem st'\<rparr>"

lemma mem_onlyD:
  assumes "mem_only st st'"
  shows "total_pages st' = total_pages st" "page_info_array st' = page_info_array st" "free_page_count st' = free_page_count st"
    "current_page_directory st' = current_page_directory st" "protected_regions st' = protected_regions st"
    "shadow_page_directory st' = shadow_page_directory st" "info_fits st' = info_fits st" "info_region st' = info_region st"
    "page_info st' = page_info st"
proof -
  obtain m where m: "st' = st\<lparr>mem := m\<rparr>"
    using assms by (auto simp: mem_only_def)
  show "total_pages st' = total_pages st" "page_info_array st' = page_info_array st" "free_page_count st' = free_page_count st"
    "current_page_directory st' = current_page_directory st" "protected_regions st' = protected_regions st"
    "shadow_page_directory st' = shadow_page_directory st" "info_fits st' = info_fits st" "info_region st' = info_region st"
    "page_info st' = page_info st"
    unfolding m by (simp_all add: info_fits_def info_region_def page_info_def fun_eq_iff)
qed

lemma mem_only_update [simp]: "mem_only st (mem_update f st)" "mem_only st st"
  by (simp_all add: mem_only_def)

lemma mem_only_trans:
  assumes "mem_only st u" "mem_only u v"
  shows "mem_only st v"
proof -
  have u: "u = st\<lparr>mem := mem u\<rparr>" and v: "v = u\<lparr>mem := mem v\<rparr>"
    using assms by (simp_all only: mem_only_def)
  have "u\<lparr>mem := x\<rparr> = st\<lparr>mem := x\<rparr>" for x
    by (subst u) simp
  with v show ?thesis
    by (simp add: mem_only_def)
qed

text \<open>
  \<open>info_change i s r st st'\<close>: only entry \<open>i\<close> of the array changes, to state \<open>s\<close> and references \<open>r\<close>,
  and nothing but memory in the region of the array.
\<close>

definition info_change :: "nat \<Rightarrow> u8 \<Rightarrow> u16 \<Rightarrow> 'a paging_scheme \<Rightarrow> 'a paging_scheme \<Rightarrow> bool" where
  "info_change i s r st st' \<longleftrightarrow>
     mem_only st st' \<and> (\<forall>x. \<not> info_region st x \<longrightarrow> mem st' x = mem st x) \<and>
     page_state st' (of_nat i) = s \<and> page_references st' (of_nat i) = r \<and>
     (\<forall>k < unat (total_pages st). k \<noteq> i \<longrightarrow>
        page_state st' (of_nat k) = page_state st (of_nat k) \<and> page_references st' (of_nat k) = page_references st (of_nat k))"

lemma page_info_update [simp]: "page_info (mem_update f st) i = page_info st i"
  by (simp add: page_info_def)

lemma info_change_state:
  assumes "info_fits st" "i < unat (total_pages st)"
  shows "info_change i s (page_references st (of_nat i)) st (set_page_state (of_nat i) s st)"
  using assms page_info_region [OF assms, of 0]
  by (auto simp: info_change_def set_page_state_def page_state_def page_references_def page_info_simps)

lemma info_change_references:
  assumes "info_fits st" "i < unat (total_pages st)"
  shows "info_change i (page_state st (of_nat i)) r st (set_page_references (of_nat i) r st)"
  using assms page_info_region [OF assms, of 0]
  by (auto simp: info_change_def set_page_references_def page_state_def page_references_def page_info_simps)

lemma info_change_word:
  assumes "info_fits st" "i < unat (total_pages st)"
  shows "info_change i (page_state st (of_nat i)) (page_references st (of_nat i)) st (set_page_flags (of_nat i) f st)"
    "info_change i (page_state st (of_nat i)) (page_references st (of_nat i)) st (set_page_owner (of_nat i) p st)"
  using assms page_info_region [OF assms, of 4] page_info_region [OF assms, of 8]
  by (auto simp: info_change_def set_page_flags_def set_page_owner_def page_state_def page_references_def page_info_simps)

lemma info_change_trans:
  assumes "info_change i s r st u" "info_change i s' r' u v"
  shows "info_change i s' r' st v"
  using assms mem_onlyD [of st u] mem_only_trans [of st u v] by (simp add: info_change_def)

lemma mark_used_change:
  assumes "info_fits st" "i < unat (total_pages st)"
  shows "info_change i PAGE_USED 1 st (mark_used pid (of_nat i) st)"
proof -
  define u where "u = set_page_state (of_nat i) PAGE_USED st"
  define v where "v = set_page_references (of_nat i) 1 u"
  define w where "w = set_page_flags (of_nat i) (PAGE_FLAG_PRESENT OR PAGE_FLAG_WRITABLE) v"
  have u: "info_change i PAGE_USED (page_references st (of_nat i)) st u"
    unfolding u_def by (rule info_change_state [OF assms])
  have iu: "info_fits u" "i < unat (total_pages u)" "page_state u (of_nat i) = PAGE_USED"
    using u assms by (auto simp: info_change_def mem_onlyD)
  have v: "info_change i PAGE_USED 1 u v"
    using info_change_references [OF iu(1,2), of 1] iu(3) by (simp add: v_def)
  have iv: "info_fits v" "i < unat (total_pages v)" "page_state v (of_nat i) = PAGE_USED" "page_references v (of_nat i) = 1"
    using v iu by (auto simp: info_change_def mem_onlyD)
  have w: "info_change i PAGE_USED 1 v w"
    using info_change_word(1) [OF iv(1,2)] iv(3,4) by (simp add: w_def)
  have iw: "info_fits w" "i < unat (total_pages w)" "page_state w (of_nat i) = PAGE_USED" "page_references w (of_nat i) = 1"
    using w iv by (auto simp: info_change_def mem_onlyD)
  have o: "info_change i PAGE_USED 1 w (set_page_owner (of_nat i) pid w)"
    using info_change_word(2) [OF iw(1,2)] iw(3,4) by simp
  note w' = info_change_trans [OF info_change_trans [OF u v] w]
  show ?thesis
    using w' info_change_trans [OF w' o] by (simp add: mark_used_def Let_def u_def v_def w_def)
qed

section \<open>The allocator\<close>

definition is_free :: "'a paging_scheme \<Rightarrow> nat \<Rightarrow> bool" where
  "is_free st i \<longleftrightarrow> i < unat (total_pages st) \<and> page_state st (of_nat i) = PAGE_FREE"

text \<open>
  The invariant: the array lies in memory that is never handed out, page zero is not free, and
  the counter is right.
\<close>

definition alloc_ok :: "'a paging_scheme \<Rightarrow> bool" where
  "alloc_ok st \<longleftrightarrow> info_fits st \<and> (\<forall>x. info_region st x \<longrightarrow> \<not> is_free st (page_of x)) \<and> \<not> is_free st 0 \<and>
     unat (free_page_count st) = card {i. is_free st i}"

lemma finite_free: "finite {i. is_free st i}"
  by (rule finite_subset [of _ "{..<unat (total_pages st)}"]) (auto simp: is_free_def)

text \<open>Marking a run of pages.\<close>

lemma mark_run:
  assumes "info_fits st" "s + n \<le> unat (total_pages st)"
  shows "let st' = fold (\<lambda>j. mark_used pid (of_nat (s + j))) [0..<n] st in
     mem_only st st' \<and> (\<forall>x. \<not> info_region st x \<longrightarrow> mem st' x = mem st x) \<and>
     (\<forall>k < unat (total_pages st).
        page_state st' (of_nat k) = (if s \<le> k \<and> k < s + n then PAGE_USED else page_state st (of_nat k)) \<and>
        page_references st' (of_nat k) = (if s \<le> k \<and> k < s + n then 1 else page_references st (of_nat k)))"
  using assms(2)
proof (induction n)
  case 0
  then show ?case by auto
next
  case (Suc n)
  define u where "u = fold (\<lambda>j. mark_used pid (of_nat (s + j))) [0..<n] st"
  have IH: "mem_only st u" "\<And>x. \<not> info_region st x \<Longrightarrow> mem u x = mem st x"
    "\<And>k. k < unat (total_pages st) \<Longrightarrow> page_state u (of_nat k) = (if s \<le> k \<and> k < s + n then PAGE_USED else page_state st (of_nat k)) \<and>
        page_references u (of_nat k) = (if s \<le> k \<and> k < s + n then 1 else page_references st (of_nat k))"
    using Suc by (simp_all add: u_def Let_def)
  have "info_change (s + n) PAGE_USED 1 u (mark_used pid (of_nat (s + n)) u)"
    using Suc.prems assms(1) by (intro mark_used_change) (simp_all add: mem_onlyD [OF IH(1)])
  then have c: "mem_only st (mark_used pid (of_nat (s + n)) u)"
    "\<And>x. \<not> info_region st x \<Longrightarrow> mem (mark_used pid (of_nat (s + n)) u) x = mem st x"
    "page_state (mark_used pid (of_nat (s + n)) u) (of_nat (s + n)) = PAGE_USED"
    "page_references (mark_used pid (of_nat (s + n)) u) (of_nat (s + n)) = 1"
    "\<And>k. k < unat (total_pages st) \<Longrightarrow> k \<noteq> s + n \<Longrightarrow> page_state (mark_used pid (of_nat (s + n)) u) (of_nat k) = page_state u (of_nat k) \<and>
       page_references (mark_used pid (of_nat (s + n)) u) (of_nat k) = page_references u (of_nat k)"
    using IH(1,2) mem_only_trans by (auto simp: info_change_def mem_onlyD [OF IH(1)])
  have f: "fold (\<lambda>j. mark_used pid (of_nat (s + j))) [0..<Suc n] st = mark_used pid (of_nat (s + n)) u"
    by (simp add: u_def)
  have "page_state (mark_used pid (of_nat (s + n)) u) (of_nat k) = (if s \<le> k \<and> k < s + Suc n then PAGE_USED else page_state st (of_nat k)) \<and>
        page_references (mark_used pid (of_nat (s + n)) u) (of_nat k) = (if s \<le> k \<and> k < s + Suc n then 1 else page_references st (of_nat k))"
    if "k < unat (total_pages st)" for k
    using that c(3,4,5) IH(3) by (cases "k = s + n") (auto simp: less_Suc_eq)
  then show ?case
    unfolding f Let_def using c(1,2) by blast
qed


text \<open>The search finds the first run that is long enough, and finds one if there is one.\<close>

definition has_run :: "(nat \<Rightarrow> bool) \<Rightarrow> nat \<Rightarrow> nat \<Rightarrow> nat \<Rightarrow> bool" where
  "has_run P n s hi \<longleftrightarrow> s + n \<le> hi \<and> (\<forall>k. s \<le> k \<and> k < s + n \<longrightarrow> P k)"

lemma find_run_inv:
  assumes "found < num" "found \<le> lo" "lo \<le> hi" "0 < found \<longrightarrow> start = lo - found"
    and "\<forall>k. lo - found \<le> k \<and> k < lo \<longrightarrow> P k" "found < lo \<longrightarrow> \<not> P (lo - found - 1)"
    and "\<forall>s. \<not> has_run P num s lo"
  shows "case find_run P num [lo..<hi] start found of
           None \<Rightarrow> \<forall>s. \<not> has_run P num s hi
         | Some s \<Rightarrow> has_run P num s hi"
  using assms
proof (induction "hi - lo" arbitrary: lo start found)
  case 0
  then show ?case
    by simp
next
  case (Suc d)
  then have lo: "lo < hi" "[lo..<hi] = lo # [Suc lo..<hi]"
    by (auto simp: upt_conv_Cons)
  show ?case
  proof (cases "P lo")
    case True
    let ?start = "if found = 0 then lo else start"
    have start: "?start = lo - found"
      using Suc.prems(4) by auto
    have run: "\<forall>k. lo - found \<le> k \<and> k < Suc lo \<longrightarrow> P k"
      using Suc.prems(5) True by (auto simp: less_Suc_eq)
    show ?thesis
    proof (cases "Suc found = num")
      case True
      have "has_run P num (lo - found) hi"
        unfolding has_run_def using run True lo(1) Suc.prems(2) by auto
      then show ?thesis
        using True \<open>P lo\<close> start lo(2) by (simp add: Let_def split: if_splits)
    next
      case False
      have "\<not> has_run P num s (Suc lo)" for s
      proof
        assume s: "has_run P num s (Suc lo)"
        then have "s + num = Suc lo"
          using Suc.prems(7) by (auto simp: has_run_def le_Suc_eq)
        then have "s \<le> lo - found - 1" "lo - found - 1 < s + num" "found < lo"
          using False Suc.prems(1,2) by auto
        then show False
          using s Suc.prems(6) by (auto simp: has_run_def)
      qed
      then have "case find_run P num [Suc lo..<hi] ?start (Suc found) of
          None \<Rightarrow> \<forall>s. \<not> has_run P num s hi | Some s \<Rightarrow> has_run P num s hi"
        using Suc.hyps(2) Suc.prems lo(1) False start run
        by (intro Suc.hyps(1)) (auto simp: Suc_diff_le)
      then show ?thesis
        using False True lo(2) by (simp add: Let_def)
    qed
  next
    case False
    have "\<not> has_run P num s (Suc lo)" for s
      using Suc.prems(1,7) False by (auto simp: has_run_def le_Suc_eq)
    then have "case find_run P num [Suc lo..<hi] start 0 of
        None \<Rightarrow> \<forall>s. \<not> has_run P num s hi | Some s \<Rightarrow> has_run P num s hi"
      using Suc.hyps(2) Suc.prems(1) lo(1) False by (intro Suc.hyps(1)) auto
    then show ?thesis
      using False lo(2) by simp
  qed
qed

lemma find_run_spec:
  assumes "0 < num"
  shows "case find_run P num [0..<hi] 0 0 of None \<Rightarrow> \<forall>s. \<not> has_run P num s hi | Some s \<Rightarrow> has_run P num s hi"
  using assms by (intro find_run_inv) (auto simp: has_run_def)

text \<open>
  \<open>handed_out st s n st'\<close>: pages \<open>s\<close> to \<open>s + n - 1\<close> were free and are now used once and filled with
  zeros; no other page changes its state or its contents, but for the array itself.
\<close>

definition handed_out :: "'a paging_scheme \<Rightarrow> nat \<Rightarrow> nat \<Rightarrow> 'a paging_scheme \<Rightarrow> bool" where
  "handed_out st s n st' \<longleftrightarrow>
     s + n \<le> unat (total_pages st) \<and> (\<forall>k. s \<le> k \<and> k < s + n \<longrightarrow> is_free st k) \<and>
     total_pages st' = total_pages st \<and> page_info_array st' = page_info_array st \<and>
     (\<forall>k < unat (total_pages st).
        page_state st' (of_nat k) = (if s \<le> k \<and> k < s + n then PAGE_USED else page_state st (of_nat k)) \<and>
        page_references st' (of_nat k) = (if s \<le> k \<and> k < s + n then 1 else page_references st (of_nat k))) \<and>
     (\<forall>x. \<not> info_region st x \<longrightarrow> mem st' x = (if s \<le> page_of x \<and> page_of x < s + n then 0 else mem st x))"

lemma hand_out:
  assumes ok: "alloc_ok st" and run: "has_run (is_free st) n s (unat (total_pages st))" and n: "0 < n"
    and st': "st' = upd_stats f (upd_mem (memset_words (of_nat s * PAGE_SIZE) 0 (of_nat n * PAGE_SIZE))
          ((fold (\<lambda>j. mark_used pid (of_nat (s + j))) [0..<n] st)\<lparr>free_page_count := free_page_count st - of_nat n\<rparr>))"
  shows "handed_out st s n st'" "alloc_ok st'"
proof -
  define u where "u = fold (\<lambda>j. mark_used pid (of_nat (s + j))) [0..<n] st"
  note st'' = st' [folded u_def]
  have fits: "info_fits st" "unat (total_pages st) \<le> 2 ^ 20"
    using ok by (auto simp: alloc_ok_def info_fits_def)
  have sn: "s + n \<le> unat (total_pages st)" "\<And>k. s \<le> k \<Longrightarrow> k < s + n \<Longrightarrow> is_free st k"
    using run by (auto simp: has_run_def)
  have s0: "0 < s"
    using sn(2) [of s] n ok by (cases s) (auto simp: alloc_ok_def)
  have u: "mem_only st u" "\<And>x. \<not> info_region st x \<Longrightarrow> mem u x = mem st x"
    "\<And>k. k < unat (total_pages st) \<Longrightarrow> page_state u (of_nat k) = (if s \<le> k \<and> k < s + n then PAGE_USED else page_state st (of_nat k)) \<and>
        page_references u (of_nat k) = (if s \<le> k \<and> k < s + n then 1 else page_references st (of_nat k))"
    using mark_run [OF fits(1) sn(1), of pid] by (simp_all add: u_def Let_def)
  have zero: "memset_words (of_nat s * PAGE_SIZE) 0 (of_nat n * PAGE_SIZE) m x =
      (if s \<le> page_of x \<and> page_of x < s + n then 0 else m x)" for m x
    using in_pages [of s n x] sn(1) fits(2) s0 by (simp add: memset_words_def)
  have mem': "mem st' x = (if s \<le> page_of x \<and> page_of x < s + n then 0 else mem u x)" for x
    by (simp add: st'' zero)
  have fields: "total_pages st' = total_pages st" "page_info_array st' = page_info_array st"
    "free_page_count st' = free_page_count st - of_nat n" "page_info st' = page_info st"
    "info_region st' = info_region st" "info_fits st' = info_fits st"
    using mem_onlyD [OF u(1)] by (simp_all add: st'' page_info_def info_region_def info_fits_def fun_eq_iff)
  have safe: "\<not> (s \<le> page_of x \<and> page_of x < s + n)" if "info_region st x" for x
    using that sn(2) ok by (auto simp: alloc_ok_def)
  have "info_region st (page_info st (of_nat k))" if "k < unat (total_pages st)" for k
    using page_info_region [OF fits(1) that, of 0] by simp
  then have same: "mem st' (page_info st (of_nat k)) = mem u (page_info st (of_nat k))" if "k < unat (total_pages st)" for k
    using that mem' safe by meson
  have st: "page_state st' (of_nat k) = page_state u (of_nat k)" "page_references st' (of_nat k) = page_references u (of_nat k)"
    if "k < unat (total_pages st)" for k
    using same [OF that] mem_onlyD [OF u(1)] by (simp_all add: page_state_def page_references_def fields)
  then show ho: "handed_out st s n st'"
    using sn u(2,3) mem' fields by (simp add: handed_out_def)
  have free: "is_free st' k \<longleftrightarrow> is_free st k \<and> \<not> (s \<le> k \<and> k < s + n)" for k
  proof (cases "k < unat (total_pages st)")
    case True
    then show ?thesis
      using st(1) u(3) by (simp add: is_free_def fields PAGE_USED_def PAGE_FREE_def)
  qed (simp add: is_free_def fields)
  have "{k. is_free st' k} = {k. is_free st k} - {s..<s + n}"
    by (auto simp: free)
  moreover have "{s..<s + n} \<subseteq> {k. is_free st k}"
    using sn(2) by auto
  ultimately have card: "card {k. is_free st' k} = card {k. is_free st k} - n" "n \<le> card {k. is_free st k}"
    using card_mono [OF finite_free, of "{s..<s + n}" st] by (simp_all add: card_Diff_subset)
  have c: "unat (free_page_count st) = card {k. is_free st k}"
    using ok by (simp add: alloc_ok_def)
  have n32: "unat (of_nat n :: u32) = n"
    using sn(1) fits(2) by (intro u32_of_nat) simp
  have "unat (free_page_count st - of_nat n) = unat (free_page_count st) - n"
    using card(2) c n32 by (subst unat_sub) (simp_all add: word_le_nat_alt)
  then show "alloc_ok st'"
    using ok card(1) c by (auto simp: alloc_ok_def fields free)
qed


lemma free_page_nonnull:
  assumes "alloc_ok st" "is_free st s"
  shows "of_nat s * PAGE_SIZE \<noteq> 0"
proof -
  have "0 < s" "s < 2 ^ 20"
    using assms by (cases s; auto simp: alloc_ok_def info_fits_def is_free_def)+
  then have "unat (of_nat s * PAGE_SIZE) \<noteq> 0"
    using unat_page_addr [of s] by simp
  then show ?thesis
    by auto
qed

lemma allocate_page_ok:
  assumes "alloc_ok st" "allocate_page pid st = (p, st')"
  shows "alloc_ok st' \<and> (if p = 0 then st' = st \<and> (\<forall>k. \<not> is_free st k)
     else \<exists>s. p = of_nat s * PAGE_SIZE \<and> handed_out st s 1 st')"
proof (cases "List.find (\<lambda>i. page_state st (of_nat i) = PAGE_FREE) [0..<unat (total_pages st)]")
  case None
  then have "\<forall>k. \<not> is_free st k"
    by (auto simp: find_None_iff is_free_def)
  then show ?thesis
    using assms None by (auto simp: allocate_page_def)
next
  case (Some s)
  then have s: "is_free st s"
    by (auto simp: find_Some_iff is_free_def)
  have run: "has_run (is_free st) 1 s (unat (total_pages st))"
    using s by (auto simp: has_run_def is_free_def less_Suc_eq)
  define f :: "memory_statistics \<Rightarrow> memory_statistics" where "f = (\<lambda>m. m\<lparr>pages_allocated := pages_allocated m + 1\<rparr>)"
  have st': "st' = upd_stats f (upd_mem (memset_words (of_nat s * PAGE_SIZE) 0 (of_nat 1 * PAGE_SIZE))
          ((fold (\<lambda>j. mark_used pid (of_nat (s + j))) [0..<1] st)\<lparr>free_page_count := free_page_count st - of_nat 1\<rparr>))"
    and p: "p = of_nat s * PAGE_SIZE"
    using assms(2) Some mem_onlyD(3) [of st "mark_used pid (of_nat s) st"] mark_used_change [of st s pid] assms(1) s
    by (auto simp: allocate_page_def Let_def f_def alloc_ok_def is_free_def info_change_def)
  have "p \<noteq> 0"
    unfolding p by (rule free_page_nonnull [OF assms(1) s])
  then show ?thesis
    using hand_out [OF assms(1) run _ st'] p by auto
qed


lemma run_le_free:
  assumes "alloc_ok st" "has_run (is_free st) n s (unat (total_pages st))"
  shows "n \<le> unat (free_page_count st)"
proof -
  have "{s..<s + n} \<subseteq> {k. is_free st k}"
    using assms(2) by (auto simp: has_run_def)
  from card_mono [OF finite_free this] show ?thesis
    using assms(1) by (simp add: alloc_ok_def)
qed

lemma allocate_run_ok:
  assumes "alloc_ok st" "has_run (is_free st) (unat num) s (unat (total_pages st))" "num \<noteq> 0" "num \<noteq> 1"
    and "find_run (\<lambda>i. page_state st (of_nat i) = PAGE_FREE) (unat num) [0..<unat (total_pages st)] 0 0 = Some s"
    and "allocate_pages pid num st = (p, st')"
  shows "p \<noteq> 0 \<and> p = of_nat s * PAGE_SIZE \<and> handed_out st s (unat num) st' \<and> alloc_ok st'"
proof -
  define f :: "memory_statistics \<Rightarrow> memory_statistics" where "f = (\<lambda>m. m\<lparr>pages_allocated := pages_allocated m + num\<rparr>)"
  let ?u = "fold (\<lambda>j. mark_used pid (of_nat (s + j))) [0..<unat num] st"
  have n: "0 < unat num" "is_free st s" "\<not> num > free_page_count st"
    using assms(2,3) run_le_free [OF assms(1,2)] by (auto simp: unat_gt_0 has_run_def word_less_nat_alt)
  have "free_page_count ?u = free_page_count st"
    using mark_run [of st s "unat num" pid] assms(1,2)
    by (auto simp: Let_def has_run_def alloc_ok_def dest: mem_onlyD(3))
  then have st': "st' = upd_stats f (upd_mem (memset_words (of_nat s * PAGE_SIZE) 0 (of_nat (unat num) * PAGE_SIZE))
      (?u\<lparr>free_page_count := free_page_count st - of_nat (unat num)\<rparr>))"
    and p: "p = of_nat s * PAGE_SIZE"
    using assms(3-6) n(3) by (auto simp: allocate_pages_def Let_def f_def)
  show ?thesis
    using hand_out [OF assms(1,2) n(1) st'] free_page_nonnull [OF assms(1) n(2)] p by simp
qed

text \<open>
  C37: Allocation of pages is sound and complete. The allocator returns the null pointer and
  changes nothing exactly when there is no run of that many free pages (or none is asked for);
  otherwise it returns a run of pages that were all free, marks them used with one reference,
  fills them with zeros, and changes the state and the contents of no other page. The invariant
  is kept: the counter stays the number of free pages.
\<close>

theorem allocate_pages_correct:
  assumes "alloc_ok st" "allocate_pages pid num st = (p, st')"
  shows "alloc_ok st' \<and>
     (if p = 0 then st' = st \<and> (num = 0 \<or> (\<forall>s. \<not> has_run (is_free st) (unat num) s (unat (total_pages st))))
      else \<exists>s. p = of_nat s * PAGE_SIZE \<and> handed_out st s (unat num) st')"
proof -
  let ?total = "unat (total_pages st)"
  consider "num = 0" | "num = 1" | "num \<noteq> 0" "num \<noteq> 1" "num > free_page_count st" | "num \<noteq> 0" "num \<noteq> 1" "\<not> num > free_page_count st"
    by blast
  then show ?thesis
  proof cases
    case 1
    then show ?thesis
      using assms by (simp add: allocate_pages_def)
  next
    case 2
    have "\<not> has_run (is_free st) 1 s ?total" if "\<forall>k. \<not> is_free st k" for s
      using that by (auto simp: has_run_def)
    then show ?thesis
      using 2 allocate_page_ok [OF assms(1), of pid p st'] assms(2) by (auto simp: allocate_pages_def)
  next
    case 3
    have "\<not> has_run (is_free st) (unat num) s ?total" for s
      using run_le_free [OF assms(1)] 3(3) by (fastforce simp: word_less_nat_alt)
    then show ?thesis
      using 3 assms by (simp add: allocate_pages_def)
  next
    case 4
    have eq: "has_run (\<lambda>i. page_state st (of_nat i) = PAGE_FREE) n s ?total = has_run (is_free st) n s ?total" for n s
      by (auto simp: has_run_def is_free_def)
    have n: "0 < unat num"
      using 4(1) by (simp add: unat_gt_0)
    note spec = find_run_spec [OF n, where P = "\<lambda>i. page_state st (of_nat i) = PAGE_FREE" and hi = ?total, unfolded eq]
    show ?thesis
    proof (cases "find_run (\<lambda>i. page_state st (of_nat i) = PAGE_FREE) (unat num) [0..<?total] 0 0")
      case None
      then show ?thesis
        using 4 assms spec by (simp add: allocate_pages_def)
    next
      case (Some s)
      with spec have "has_run (is_free st) (unat num) s ?total"
        by simp
      from allocate_run_ok [OF assms(1) this 4(1,2) Some assms(2)] show ?thesis
        by auto
    qed
  qed
qed

text \<open>Four pages: the first holds the array, the second is in use, the last two are free.\<close>

definition small_paging :: paging where
  "small_paging =
     \<lparr>mem = (\<lambda>x. if x = 0x100 then 2 else if x = 0x10C then 0x10001 else 0), shadow_page_directory = (\<lambda>_. 0),
      current_page_directory = 0x1000, page_info_array = 0x100, total_pages = 4, free_page_count = 2,
      protected_regions = [],
      memory_stats = \<lparr>pages_allocated = 0, pages_freed = 0, address_space_switches = 0, page_faults = 0,
        tlb_flushes = 0, cow_faults_handled = 0, demand_pages_loaded = 0, memory_mapped_regions = 0\<rparr>,
      cr3 = 0x1000\<rparr>"

lemma small_free: "is_free small_paging i \<longleftrightarrow> i = 2 \<or> i = 3"
proof -
  have "i < 4 \<Longrightarrow> i = 0 \<or> i = 1 \<or> i = 2 \<or> i = 3"
    by linarith
  then show ?thesis
    by (auto simp: is_free_def small_paging_def page_state_def page_info_def PAGE_INFO_SIZE_def PAGE_FREE_def)
qed

lemma small_ok: "alloc_ok small_paging"
proof -
  have "{i. is_free small_paging i} = {2, 3}"
    by (auto simp: small_free)
  moreover have "page_of x = 0" if "info_region small_paging x" for x
    using that by (simp add: info_region_def small_paging_def page_of_def)
  ultimately show ?thesis
    by (auto simp: alloc_ok_def small_free) (simp_all add: info_fits_def small_paging_def)
qed

theorem allocate_pages_correct_witness:
  "alloc_ok (snd (allocate_pages 7 2 small_paging)) \<and> fst (allocate_pages 7 2 small_paging) = 0x2000"
proof -
  have "fst (allocate_pages 7 2 small_paging) = 0x2000"
    by code_simp
  then show ?thesis
    using allocate_pages_correct [OF small_ok surjective_pairing, of 7 2] by simp
qed

end
