(* ===== verification/Paging_Tables.thy ===== *)
theory Paging_Tables
  imports Paging_Alloc
begin

text \<open>
  Page tables: how an address is translated, the invariant that keeps directory and tables apart
  from each other and from free pages, and what mapping a page and a copy-on-write fault do to the
  translation of every address.
\<close>

section \<open>Parts of an address\<close>

lemma page_masks: "(0xFFFFF000 :: u32) = NOT (mask 12)" "(0xFFF :: u32) = mask 12" "(0x3FF :: u32) = mask 10"
  by code_simp+

lemma unat_drop12: "unat (drop_bit 12 (x :: u32)) = page_of x"
  by (simp add: drop_bit_eq_div unat_div page_of_def)

lemma page_of_less: "page_of x < 2 ^ 20"
  using u32_bound [of x] by (simp add: page_of_def div_less_iff_less_mult)

lemma page_base: "x AND 0xFFFFF000 = of_nat (page_of x) * PAGE_SIZE"
proof -
  have "x AND 0xFFFFF000 = push_bit 12 (drop_bit 12 x)"
    unfolding page_masks by (rule bit_word_eqI) (auto simp: bit_simps)
  also have "\<dots> = drop_bit 12 x * PAGE_SIZE"
    by (simp add: push_bit_eq_mult PAGE_SIZE_def)
  also have "drop_bit 12 x = of_nat (page_of x)"
    using unat_drop12 [of x] by (simp add: word_unat_eq_iff u32_of_nat page_of_less [THEN order_less_trans])
  finally show ?thesis .
qed

lemma unat_page_base: "unat (x AND 0xFFFFF000 :: u32) = page_of x * 4096"
  unfolding page_base by (rule unat_page_addr [OF page_of_less])

lemma unat_pd_index: "unat (pd_index v) = page_of v div 1024"
  by (simp add: pd_index_def drop_bit_eq_div unat_div page_of_def div_mult2_eq flip: div_mult2_eq)

lemma unat_pt_index: "unat (pt_index v) = page_of v mod 1024"
proof -
  have "pt_index v = take_bit 10 (drop_bit 12 v)"
    by (simp add: pt_index_def page_masks take_bit_eq_mask)
  also have "unat \<dots> = unat (drop_bit 12 v) mod 1024"
    by (simp add: take_bit_eq_mod unat_mod)
  finally show ?thesis
    by (simp add: unat_drop12)
qed


lemma same_page: "pd_index v = pd_index w \<and> pt_index v = pt_index w \<longleftrightarrow> page_of v = page_of w"
proof -
  have "page_of v = page_of w \<longleftrightarrow> page_of v div 1024 = page_of w div 1024 \<and> page_of v mod 1024 = page_of w mod 1024"
    by (metis div_mult_mod_eq)
  then show ?thesis
    by (simp add: word_unat_eq_iff unat_pd_index unat_pt_index)
qed

lemma page_of_page_addr [simp]: "s < 2 ^ 20 \<Longrightarrow> page_of (of_nat s * PAGE_SIZE) = s"
  by (simp add: page_of_def unat_page_addr)

lemma page_of_base [simp]: "page_of (x AND 0xFFFFF000) = page_of x"
  by (simp add: page_of_def unat_page_base)

lemma indices_base [simp]: "pd_index (x AND 0xFFFFF000) = pd_index x" "pt_index (x AND 0xFFFFF000) = pt_index x"
  using same_page [of "x AND 0xFFFFF000" x] by simp_all



section \<open>Translation\<close>

definition present :: "u32 \<Rightarrow> bool" where
  "present entry \<longleftrightarrow> entry AND PAGE_FLAG_PRESENT \<noteq> 0"

definition dir_page :: "'a paging_scheme \<Rightarrow> nat" where
  "dir_page st = page_of (current_page_directory st)"

definition table_page :: "'a paging_scheme \<Rightarrow> u32 \<Rightarrow> nat" where
  "table_page st i = page_of (dir_entry st i)"

text \<open>A page the allocator does not hand out and that has no part of the information array.\<close>

definition kept_page :: "'a paging_scheme \<Rightarrow> nat \<Rightarrow> bool" where
  "kept_page st p \<longleftrightarrow> p < unat (total_pages st) \<and> \<not> is_free st p \<and> (\<forall>x. info_region st x \<longrightarrow> page_of x \<noteq> p)"

definition tables_ok :: "'a paging_scheme \<Rightarrow> bool" where
  "tables_ok st \<longleftrightarrow>
     alloc_ok st \<and> current_page_directory st = of_nat (dir_page st) * PAGE_SIZE \<and> kept_page st (dir_page st) \<and>
     (\<forall>i. unat i < 1024 \<and> present (dir_entry st i) \<longrightarrow> kept_page st (table_page st i) \<and> table_page st i \<noteq> dir_page st) \<and>
     (\<forall>i j. unat i < 1024 \<and> unat j < 1024 \<and> present (dir_entry st i) \<and> present (dir_entry st j) \<and> i \<noteq> j \<longrightarrow>
        table_page st i \<noteq> table_page st j)"


lemma dir_entry_eq: "tables_ok st \<Longrightarrow> dir_entry st i = mem st (of_nat (dir_page st) * PAGE_SIZE + 4 * i)"
  by (simp add: dir_entry_def tables_ok_def)




section \<open>Writing a word of a kept page\<close>


lemma dir_page_upd [simp]: "dir_page (upd_mem f st) = dir_page st"
  by (simp add: dir_page_def)


section \<open>Mapping a page\<close>





text \<open>Handing out a page keeps directory, tables and all translations.\<close>

lemma mark_used_dir [simp]: "current_page_directory (mark_used pid i st) = current_page_directory st"
  by (simp add: mark_used_def Let_def set_page_state_def set_page_references_def set_page_flags_def set_page_owner_def)











section \<open>Copy on write\<close>

























end
