(* ===== verification/Paging_Init.thy ===== *)
theory Paging_Init
  imports Paging_Alloc
begin

text \<open>
  The state that \<^verbatim>\<open>paging_init\<close> leaves: which pages are reserved, where the page information array
  lies, and what the first two allocations do to it.
\<close>

lemma page_state_low:
  assumes "page_info_array st' = page_info_array st" "mem st' (page_info st i) = mem st (page_info st i)"
  shows "page_state st' i = page_state st i"
  using assms by (simp add: page_state_def page_info_def)

lemma reserve_page_state:
  assumes "info_fits st" "i < unat (total_pages st)" "k < unat (total_pages st)"
  shows "page_state (reserve_page i st) (of_nat k) = (if k = i then PAGE_RESERVED else page_state st (of_nat k))"
proof -
  define u where "u = set_page_state (of_nat i) PAGE_RESERVED st"
  define v where "v = set_page_flags (of_nat i) (PAGE_FLAG_PRESENT OR PAGE_FLAG_GLOBAL) u"
  have u: "info_change i PAGE_RESERVED (page_references st (of_nat i)) st u"
    unfolding u_def by (rule info_change_state [OF assms(1,2)])
  have iu: "info_fits u" "i < unat (total_pages u)" "page_state u (of_nat i) = PAGE_RESERVED"
    using u assms by (auto simp: info_change_def mem_onlyD)
  have v: "info_change i PAGE_RESERVED (page_references u (of_nat i)) u v"
    using info_change_word(1) [OF iu(1,2)] iu(3) by (simp add: v_def)
  have "page_state (reserve_page i st) (of_nat k) = page_state v (of_nat k)"
    by (simp add: reserve_page_def u_def v_def Let_def page_state_def page_info_def)
  then show ?thesis
    using info_change_trans [OF u v] assms(3) by (auto simp: info_change_def)
qed

lemma reserve_page_fields [simp]:
  "page_info_array (reserve_page i st) = page_info_array st" "total_pages (reserve_page i st) = total_pages st"
  by (simp_all add: reserve_page_def Let_def)

lemma reserve_run:
  assumes "info_fits st" "n \<le> unat (total_pages st)"
  shows "page_info_array (fold reserve_page [0..<n] st) = page_info_array st \<and> total_pages (fold reserve_page [0..<n] st) = total_pages st \<and>
    (\<forall>k < unat (total_pages st). page_state (fold reserve_page [0..<n] st) (of_nat k) =
       (if k < n then PAGE_RESERVED else page_state st (of_nat k)))"
  using assms(2)
proof (induction n)
  case (Suc n)
  then have "info_fits (fold reserve_page [0..<n] st)"
    using assms(1) by (simp add: info_fits_def)
  then show ?case
    using Suc reserve_page_state [of "fold reserve_page [0..<n] st" n] by (auto simp: less_Suc_eq)
qed simp

section \<open>Writes below the array\<close>

lemma outside_range:
  assumes "unat a + unat n \<le> unat x"
  shows "\<not> in_range a n x"
proof -
  have "unat (x - a) = unat x - unat a"
    using assms by (intro unat_sub) (simp add: word_le_nat_alt)
  then show ?thesis
    using assms by (simp add: in_range_def word_less_nat_alt)
qed

lemma store_words_below:
  assumes "\<forall>j \<in> set js. unat a + 4 * j < unat x"
  shows "store_words a f js m x = m x"
  using assms
proof (induction js arbitrary: m)
  case (Cons j js)
  have "unat (a + 4 * of_nat j) \<le> unat a + 4 * j"
    using unat_add_le [of a "4 * of_nat j"] unat_mult_le [of 4 "of_nat j"] unat_of_nat_le [of j] by simp
  then have "a + 4 * of_nat j \<noteq> x"
    using Cons.prems by auto
  then show ?case
    using Cons by simp
qed simp

lemma init_table_below:
  assumes "0x10000 \<le> unat x" "unat tables \<le> 0x6000" "unat d \<le> 768" "i < 4" "current_page_directory st = 0x1000"
  shows "mem (init_table tables d i st) x = mem st x"
proof -
  let ?t = "tables + of_nat i * PAGE_SIZE"
  have t: "unat ?t \<le> 0x9000"
    using unat_add_le [of tables "of_nat i * PAGE_SIZE"] unat_page_addr [of i] assms(2,4) by simp
  have "unat (0x1000 + 4 * (d + of_nat i)) \<le> 0x1000 + 4 * (768 + 3)"
    using unat_add_le [of "0x1000" "4 * (d + of_nat i)"] unat_mult_le [of 4 "d + of_nat i"] unat_add_le [of d "of_nat i"]
      unat_of_nat_le [of i] assms(3,4) by simp
  then have "0x1000 + 4 * (d + of_nat i) \<noteq> x"
    using assms(1) by auto
  moreover have "\<not> in_range ?t 4096 x"
    using t assms(1) by (intro outside_range) simp
  moreover have "store_words ?t f [0..<PAGE_TABLE_ENTRIES] m x = m x" for f m
    using t assms(1) by (intro store_words_below) (simp add: PAGE_TABLE_ENTRIES_def)
  ultimately show ?thesis
    using assms(5) by (simp add: init_table_def Let_def memset_words_def)
qed

lemma init_table_fields [simp]:
  "page_info_array (init_table t d i st) = page_info_array st" "total_pages (init_table t d i st) = total_pages st"
  "current_page_directory (init_table t d i st) = current_page_directory st"
  by (simp_all add: init_table_def Let_def)

lemma init_tables_below:
  assumes "0x10000 \<le> unat x" "unat t \<le> 0x6000" "unat d \<le> 768" "current_page_directory st = 0x1000" "n \<le> 4"
  shows "mem (fold (init_table t d) [0..<n] st) x = mem st x \<and> page_info_array (fold (init_table t d) [0..<n] st) = page_info_array st \<and>
    total_pages (fold (init_table t d) [0..<n] st) = total_pages st \<and> current_page_directory (fold (init_table t d) [0..<n] st) = 0x1000"
  using assms(5) by (induction n) (simp_all add: assms(4) init_table_below [OF assms(1-3)])

lemma protect_region_fields [simp]:
  "mem (snd (paging_protect_region a b f s st)) = mem st" "page_info_array (snd (paging_protect_region a b f s st)) = page_info_array st"
  "total_pages (snd (paging_protect_region a b f s st)) = total_pages st"
  by (simp_all add: paging_protect_region_def)

lemma cleared_array:
  assumes "info_fits st" "k < unat (total_pages st)"
  shows "page_state (upd_mem (memset_words (page_info_array st) 0 (total_pages st * PAGE_INFO_SIZE)) st) (of_nat k) = PAGE_FREE"
proof -
  have "unat (PAGE_INFO_SIZE * of_nat k) = 12 * k" "unat (total_pages st * PAGE_INFO_SIZE) = 12 * unat (total_pages st)"
    using assms u32_of_nat [of "12 * k"] u32_of_nat [of "12 * unat (total_pages st)"] by (simp_all add: info_fits_def PAGE_INFO_SIZE_def mult.commute)
  then have "in_range (page_info_array st) (total_pages st * PAGE_INFO_SIZE) (page_info st (of_nat k))"
    using assms(2) by (simp add: in_range_def page_info_def word_less_nat_alt)
  then show ?thesis
    by (simp add: page_state_def memset_words_def PAGE_FREE_def)
qed

lemma paging_init_states:
  assumes "256 < unat (memsize div PAGE_SIZE)"
  shows "page_info_array (paging_init memsize st) = 0x100000 \<and> total_pages (paging_init memsize st) = memsize div PAGE_SIZE \<and>
    (\<forall>k < unat (memsize div PAGE_SIZE). page_state (paging_init memsize st) (of_nat k) = (if k < 256 then PAGE_RESERVED else PAGE_FREE))"
proof -
  let ?T = "memsize div PAGE_SIZE"
  define s1 where "s1 = st\<lparr>total_pages := ?T, free_page_count := ?T, page_info_array := 0x100000\<rparr>"
  define s2 where "s2 = upd_mem (memset_words 0x100000 0 (?T * PAGE_INFO_SIZE)) s1"
  define s3 where "s3 = fold reserve_page [0..<256] s2"
  define s4 where "s4 = upd_mem (memset_words 0x1000 0 4096) (s3\<lparr>current_page_directory := 0x1000\<rparr>)"
  define s5 where "s5 = fold (init_table 0x2000 0) [0..<4] s4"
  define s6 where "s6 = fold (init_table 0x6000 (0xC0000000 div (PAGE_SIZE * of_nat PAGE_TABLE_ENTRIES))) [0..<4] s5"
  have T: "unat ?T \<le> 2 ^ 20"
    using u32_bound [of memsize] by (simp add: unat_div PAGE_SIZE_def)
  have fits: "info_fits s1" "info_fits s2"
    using T by (simp_all add: info_fits_def s1_def s2_def)
  have free: "page_state s2 (of_nat k) = PAGE_FREE" if "k < unat ?T" for k
    using cleared_array [OF fits(1), of k] that by (simp add: s2_def s1_def)
  have s3: "page_info_array s3 = 0x100000" "total_pages s3 = ?T"
    "\<And>k. k < unat ?T \<Longrightarrow> page_state s3 (of_nat k) = (if k < 256 then PAGE_RESERVED else PAGE_FREE)"
    using reserve_run [OF fits(2), of 256, folded s3_def] assms free by (simp_all add: s2_def s1_def)
  have hi: "0xC0000000 div (PAGE_SIZE * of_nat PAGE_TABLE_ENTRIES) = (768 :: u32)"
    by (simp add: PAGE_SIZE_def PAGE_TABLE_ENTRIES_def)
  have s4: "mem s4 x = mem s3 x" if "0x10000 \<le> unat x" for x
    using that outside_range [of "0x1000" 4096 x] by (simp add: s4_def memset_words_def)
  have s5: "mem s5 x = mem s3 x" "page_info_array s5 = 0x100000" "total_pages s5 = ?T" "current_page_directory s5 = 0x1000" if "0x10000 \<le> unat x" for x
    using init_tables_below [OF that, of "0x2000" 0 s4 4, folded s5_def] s4 [OF that] s3(1,2) by (simp_all add: s4_def)
  have s6: "mem s6 x = mem s3 x" "page_info_array s6 = 0x100000" "total_pages s6 = ?T" if "0x10000 \<le> unat x" for x
    using init_tables_below [OF that, of "0x6000" 768 s5 4] s5 [OF that] by (simp_all add: s6_def hi)
  have info: "0x10000 \<le> unat (page_info s3 (of_nat k))" if "k < unat ?T" for k
    using unat_page_info [of s3 k 0] fits(1) that s3(1,2) by (simp add: info_fits_def s1_def)
  note s6' = s6(2,3) [of "0x10000", simplified]
  have state: "page_state s6 (of_nat k) = page_state s3 (of_nat k)" if "k < unat ?T" for k
    using page_state_low [of s6 s3 "of_nat k"] s6(1) [OF info [OF that]] s6'(1) s3(1) by simp
  have init: "mem (paging_init memsize st) = mem s6" "page_info_array (paging_init memsize st) = page_info_array s6"
    "total_pages (paging_init memsize st) = total_pages s6"
    by (simp_all add: paging_init_def Let_def case_prod_unfold s1_def s2_def s3_def s4_def s5_def s6_def)
  then show ?thesis
    using s6' state s3(3) by (simp add: page_state_def page_info_def)
qed

text \<open>
  C40: The page information array lies in the pages that are handed out. On every machine with
  more than a megabyte of memory the first page that is allocated after \<^verbatim>\<open>paging_init\<close> is the page
  of the array itself, and clearing it marks the pages of the kernel as free: the second
  allocation returns the address zero, which means that no memory is left.
\<close>

theorem first_page_is_page_info:
  assumes "256 < unat (memsize div PAGE_SIZE)" "allocate_page pid (paging_init memsize st) = (p, st1)" "allocate_page pid st1 = (q, st2)"
  shows "p = 0x100000 \<and> (\<forall>k < 256. page_state st1 (of_nat k) = PAGE_FREE) \<and> q = 0"
proof -
  let ?st = "paging_init memsize st"
  note init = paging_init_states [OF assms(1), of st]
  have "List.find (\<lambda>i. page_state ?st (of_nat i) = PAGE_FREE) [0..<unat (total_pages ?st)] = Some 256"
    using init assms(1) by (auto simp: find_Some_iff PAGE_FREE_def PAGE_RESERVED_def intro!: exI [of _ 256])
  then have p: "p = 0x100000" "page_info_array st1 = 0x100000" "total_pages st1 = memsize div PAGE_SIZE"
    "\<And>x. page_of x = 256 \<Longrightarrow> mem st1 x = 0"
    using assms(2) init in_page [of 256] by (auto simp: allocate_page_def Let_def mark_used_def PAGE_SIZE_def memset_words_def)
  have "page_state st1 (of_nat k) = PAGE_FREE" if "k < 256" for k
  proof -
    have "unat (page_info st1 (of_nat k)) = 0x100000 + 12 * k"
      using u32_of_nat [of "0x100000 + 12 * k"] that p(2) by (simp add: page_info_def PAGE_INFO_SIZE_def)
    then show ?thesis
      using that p(4) [of "page_info st1 (of_nat k)"] by (simp add: page_of_def page_state_def PAGE_FREE_def)
  qed
  moreover from this [of 0] have "List.find (\<lambda>i. page_state st1 (of_nat i) = PAGE_FREE) [0..<unat (total_pages st1)] = Some 0"
    using assms(1) p(3) by (auto simp: find_Some_iff intro!: exI [of _ 0])
  then have "q = 0"
    using assms(3) by (simp add: allocate_page_def Let_def)
  ultimately show ?thesis
    using p(1) by blast
qed

theorem first_page_is_page_info_witness:
  "256 < unat (0x1000000 div PAGE_SIZE) \<and>
   fst (allocate_page 1 (snd (allocate_page 1 (paging_init 0x1000000 small_paging)))) = 0"
proof -
  have "256 < unat (0x1000000 div PAGE_SIZE)"
    by (simp add: PAGE_SIZE_def)
  then show ?thesis
    using first_page_is_page_info [OF _ surjective_pairing surjective_pairing] by blast
qed

end
