(* ===== verification/Spec2Isabelle.thy ===== *)
theory Spec2Isabelle
  imports Prelude Ring_Buffer Sync Mutex_Machine Ipc Scheduler_Events Ip_Props Tcp_Props Paging_Tables Paging_Init
begin

text \<open>Header.\<close>

end
